(* ===== verification/Prelude.thy ===== *)
theory Prelude
  imports Main "HOL-Library.Word" "HOL-Library.Multiset" "HOL-Library.Sublist"
begin

text \<open>
  Shared vocabulary of the development: Go byte strings, time and machine integers, the shape of
  operation results, the request context of \<^verbatim>\<open>auth/context.go\<close>, and the generic lemmas on lists,
  maps and orderings that the component theories use through the collections declared here.
\<close>

named_theorems go_defs "definitions that component proofs unfold by default"
named_theorems result_cases "case rules for operation results"

section \<open>Types\<close>

text \<open>A Go string or byte slice is a sequence of bytes; Isabelle's char is an 8-bit byte.\<close>

type_synonym bytes = "char list"

text \<open>
  An instant of Go's time package is a whole number of nanoseconds since the Unix epoch, a duration a
  number of nanoseconds. Instants are unbounded (Go's are 64-bit seconds plus nanoseconds).
\<close>

type_synonym instant = int
type_synonym duration = int

abbreviation second :: duration where "second \<equiv> 1000000000"
abbreviation minute :: duration where "minute \<equiv> 60 * second"
abbreviation hour :: duration where "hour \<equiv> 60 * minute"

text \<open>Unix(): whole seconds, rounded towards minus infinity as Go's internal representation does.\<close>

definition unix_seconds :: "instant \<Rightarrow> int" where
  "unix_seconds t = t div second"

text \<open>
  An operation that may fail returns Inl of its error or Inr of its value; an operation with state
  returns that together with the next state.
\<close>

type_synonym ('e, 'a) result = "'e + 'a"
type_synonym ('e, 'a, 's) outcome = "('e + 'a) \<times> 's"

section \<open>Machine integers\<close>

text \<open>
  Go's int and int64 (the server runs on 64-bit platforms) are integers in the signed 64-bit range;
  every arithmetic result is brought back into it by two's complement wrap-around.
\<close>

definition wrap64 :: "int \<Rightarrow> int" where
  "wrap64 x = (x + 2 ^ 63) mod 2 ^ 64 - 2 ^ 63"

definition int64 :: "int \<Rightarrow> bool" where
  "int64 x \<longleftrightarrow> - (2 ^ 63) \<le> x \<and> x < 2 ^ 63"

lemma wrap64_id [simp]: "int64 x \<Longrightarrow> wrap64 x = x"
  by (simp add: wrap64_def int64_def)

lemma int64_wrap64 [simp]: "int64 (wrap64 x)"
proof -
  have "0 \<le> (x + 2 ^ 63) mod 2 ^ 64" "(x + 2 ^ 63) mod 2 ^ 64 < 2 ^ 64"
    by (rule pos_mod_sign pos_mod_bound; simp)+
  then show ?thesis by (simp add: wrap64_def int64_def)
qed

lemma wrap64_sint: "wrap64 x = sint (word_of_int x :: 64 word)"
  by (simp add: wrap64_def sint_uint uint_word_of_int signed_take_bit_eq_take_bit_shift take_bit_eq_mod
      mod_simps)

section \<open>Request contexts\<close>

text \<open>
  The part of a Go context the program reads: the user id stored under \<^verbatim>\<open>userIDContextKey\<close>, if any.
\<close>

record ctx =
  ctx_userID :: "string option"

definition background :: ctx where
  "background = \<lparr>ctx_userID = None\<rparr>"

definition ContextWithUserID :: "ctx \<Rightarrow> string \<Rightarrow> ctx" where
  "ContextWithUserID c u = c\<lparr>ctx_userID := Some u\<rparr>"

definition UserID :: "ctx \<Rightarrow> string" where
  "UserID c = (case ctx_userID c of None \<Rightarrow> '''' | Some u \<Rightarrow> u)"

lemma UserID_ContextWithUserID [simp]: "UserID (ContextWithUserID c u) = u"
  by (simp add: UserID_def ContextWithUserID_def)

lemma UserID_background [simp]: "UserID background = ''''"
  by (simp add: UserID_def background_def)

section \<open>Generic lemmas\<close>

text \<open>
  Enumerations: a Go range over a map visits every key once, in an order that is not specified. An
  enumeration of a map is such an order.
\<close>

definition enumerates :: "'k list \<Rightarrow> ('k \<rightharpoonup> 'v) \<Rightarrow> bool" where
  "enumerates ks m \<longleftrightarrow> distinct ks \<and> set ks = dom m"

lemma enumerates_finite: "finite (dom m) \<Longrightarrow> \<exists>ks. enumerates ks m"
  unfolding enumerates_def by (metis finite_distinct_list)

definition range_values :: "'k list \<Rightarrow> ('k \<rightharpoonup> 'v) \<Rightarrow> 'v list" where
  "range_values ks m = List.map_filter m ks"

lemma set_range_values:
  "enumerates ks m \<Longrightarrow> set (range_values ks m) = ran m"
  by (auto simp: range_values_def enumerates_def List.map_filter_def ran_def image_iff)
    (metis domI option.sel option.simps(3))+

lemma range_values_Nil [simp]: "range_values [] m = []"
  by (simp add: range_values_def List.map_filter_def)

lemma range_values_Cons:
  "range_values (k # ks) m =
     (case m k of None \<Rightarrow> range_values ks m | Some v \<Rightarrow> v # range_values ks m)"
  by (simp add: range_values_def List.map_filter_def split: option.splits)

lemma ran_upd_subset: "ran (m(k \<mapsto> v)) \<subseteq> insert v (ran m)"
  by (auto simp: ran_def)

lemma map_le_ran: "m k = Some v \<Longrightarrow> v \<in> ran m"
  by (auto simp: ran_def)

text \<open>sort.Slice leaves the input's elements in an order that respects the comparison.\<close>

lemma sorted_wrt_sort_key_desc:
  fixes f :: "'a \<Rightarrow> int"
  shows "sorted_wrt (\<lambda>x y. f y \<le> f x) (sort_key (\<lambda>x. - f x) xs)"
proof -
  have "sorted (map (\<lambda>x. - f x) (sort_key (\<lambda>x. - f x) xs))" by (rule sorted_sort_key)
  then show ?thesis by (simp add: sorted_map)
qed

lemma sorted_wrt_sort_key_asc:
  fixes f :: "'a \<Rightarrow> int"
  shows "sorted_wrt (\<lambda>x y. f x \<le> f y) (sort_key f xs)"
  using sorted_sort_key [of f xs] by (simp add: sorted_map)

lemma sum_list_mono_strict:
  fixes f g :: "'a \<Rightarrow> nat"
  assumes "\<And>x. x \<in> set xs \<Longrightarrow> f x \<le> g x" and "z \<in> set xs" and "f z < g z"
  shows "sum_list (map f xs) < sum_list (map g xs)"
  using assms
proof (induction xs)
  case Nil
  then show ?case by simp
next
  case (Cons x xs)
  have "f x \<le> g x" using Cons.prems(1) by simp
  have le: "sum_list (map f xs) \<le> sum_list (map g xs)"
    by (rule sum_list_mono) (simp add: Cons.prems(1))
  show ?case
  proof (cases "z = x")
    case True
    with Cons.prems(3) le show ?thesis by simp
  next
    case False
    with Cons.prems(2) have "z \<in> set xs" by simp
    with Cons.IH Cons.prems(1,3) have "sum_list (map f xs) < sum_list (map g xs)" by simp
    with \<open>f x \<le> g x\<close> show ?thesis by simp
  qed
qed

lemma append_eq_append_sep:
  assumes "xs @ c # us = ys @ c # vs" and "c \<notin> set xs" and "c \<notin> set ys"
  shows "xs = ys \<and> us = vs"
  using assms by (induction xs arbitrary: ys) (auto simp: Cons_eq_append_conv)

lemma append_eq_append_sep_last:
  assumes "us @ c # xs = vs @ c # ys" and "c \<notin> set xs" and "c \<notin> set ys"
  shows "us = vs \<and> xs = ys"
proof -
  have "rev xs @ c # rev us = rev ys @ c # rev vs"
    using arg_cong [where f = rev, OF assms(1)] by simp
  then have "rev xs = rev ys \<and> rev us = rev vs"
    by (rule append_eq_append_sep) (use assms in auto)
  then show ?thesis by simp
qed

end
