(* ===== verification/GoEncoding.thy ===== *)
theory GoEncoding
  imports GoStrings
begin

text \<open>
  Go's encoding/hex, encoding/base64 (the raw, unpadded variants) and strconv as the server uses them,
  with their round trips: decoding what was encoded gives it back.
\<close>

section \<open>encoding/hex\<close>

definition hex_digit :: "nat \<Rightarrow> char" where
  "hex_digit n = char_of (if n < 10 then 48 + n else 87 + n)"

definition hex_value :: "char \<Rightarrow> nat option" where
  "hex_value c =
     (let n = (of_char c :: nat) in
      if 48 \<le> n \<and> n \<le> 57 then Some (n - 48)
      else if 97 \<le> n \<and> n \<le> 102 then Some (n - 87)
      else if 65 \<le> n \<and> n \<le> 70 then Some (n - 55)
      else None)"

definition is_hex_digit :: "char \<Rightarrow> bool" where
  "is_hex_digit c \<longleftrightarrow> hex_value c \<noteq> None"

fun hex_EncodeToString :: "bytes \<Rightarrow> string" where
  "hex_EncodeToString [] = []"
| "hex_EncodeToString (b # bs) =
     hex_digit (of_char b div 16) # hex_digit (of_char b mod 16) # hex_EncodeToString bs"

fun hex_DecodeString :: "string \<Rightarrow> bytes option" where
  "hex_DecodeString [] = Some []"
| "hex_DecodeString [_] = None"
| "hex_DecodeString (h # l # s) =
     (case (hex_value h, hex_value l, hex_DecodeString s) of
        (Some a, Some b, Some bs) \<Rightarrow> Some (char_of (16 * a + b) # bs)
      | _ \<Rightarrow> None)"

lemma hex_digit_eval [simp]:
  "hex_digit 0 = CHR ''0''" "hex_digit (Suc 0) = CHR ''1''" "hex_digit 1 = CHR ''1''"
  "hex_digit 2 = CHR ''2''" "hex_digit 3 = CHR ''3''" "hex_digit 4 = CHR ''4''"
  "hex_digit 5 = CHR ''5''" "hex_digit 6 = CHR ''6''" "hex_digit 7 = CHR ''7''"
  "hex_digit 8 = CHR ''8''" "hex_digit 9 = CHR ''9''" "hex_digit 10 = CHR ''a''"
  "hex_digit 11 = CHR ''b''" "hex_digit 12 = CHR ''c''" "hex_digit 13 = CHR ''d''"
  "hex_digit 14 = CHR ''e''" "hex_digit 15 = CHR ''f''"
  by (simp_all add: hex_digit_def char_of_eq_iff take_bit_eq_mod)

lemma of_char_less [simp]: "(of_char (c :: char) :: nat) < 256"
  using of_char_mod_256 [of c, where ?'a = nat] by (metis mod_less_divisor zero_less_numeral)

lemma of_char_div_16 [simp]: "(of_char (c :: char) :: nat) div 16 < 16"
  using of_char_less [of c] by (simp add: div_less_iff_less_mult)

lemma of_char_char_of_small: "n < 256 \<Longrightarrow> (of_char (char_of n :: char) :: nat) = n"
  by simp

lemma hex_value_hex_digit [simp]: "n < 16 \<Longrightarrow> hex_value (hex_digit n) = Some n"
  by (auto simp: hex_value_def hex_digit_def Let_def)

lemma hex_value_less: "hex_value c = Some n \<Longrightarrow> n < 16"
  by (auto simp: hex_value_def Let_def split: if_splits)

lemma hex_roundtrip [simp]: "hex_DecodeString (hex_EncodeToString bs) = Some bs"
  by (induction bs) simp_all

lemma length_hex_EncodeToString [simp]: "length (hex_EncodeToString bs) = 2 * length bs"
  by (induction bs) simp_all

lemma hex_EncodeToString_inject [simp]:
  "hex_EncodeToString xs = hex_EncodeToString ys \<longleftrightarrow> xs = ys"
  by (metis hex_roundtrip option.inject)

lemma is_hex_digit_hex_digit [simp]: "n < 16 \<Longrightarrow> is_hex_digit (hex_digit n)"
  by (simp add: is_hex_digit_def)

lemma hex_EncodeToString_digits: "\<forall>c \<in> set (hex_EncodeToString bs). is_hex_digit c"
  by (induction bs) simp_all

lemma lower_char_hex_digit [simp]: "n < 16 \<Longrightarrow> lower_char (hex_digit n) = hex_digit n"
  by (simp add: lower_char_def hex_digit_def Let_def)

lemma ToLower_hex_EncodeToString [simp]:
  "ToLower (hex_EncodeToString bs) = hex_EncodeToString bs"
  by (induction bs) (simp_all add: ToLower_def)

lemma hex_value_lower_char [simp]: "hex_value (lower_char c) = hex_value c"
  by (auto simp: hex_value_def of_char_lower_char Let_def)

lemma hex_DecodeString_ToLower [simp]: "hex_DecodeString (ToLower s) = hex_DecodeString s"
  by (induction s rule: hex_DecodeString.induct) (simp_all add: ToLower_def)

lemma hex_digit_hex_value: "hex_value c = Some n \<Longrightarrow> hex_digit n = lower_char c"
  by (auto simp: hex_value_def hex_digit_def lower_char_def Let_def split: if_splits)

lemma hex_encode_decode: "hex_DecodeString s = Some bs \<Longrightarrow> hex_EncodeToString bs = ToLower s"
proof (induction s arbitrary: bs rule: hex_DecodeString.induct)
  case (3 h l s)
  then obtain a b cs where ab: "hex_value h = Some a" "hex_value l = Some b"
    and cs: "hex_DecodeString s = Some cs" and bs: "bs = char_of (16 * a + b) # cs"
    by (auto split: option.splits)
  from ab have "a < 16" "b < 16" by (auto dest: hex_value_less)
  then have "16 * a + b < 256" by simp
  with 3 ab cs bs \<open>b < 16\<close> show ?case
    by (simp add: of_char_char_of_small hex_digit_hex_value ToLower_def del: of_char_of)
qed (simp_all add: ToLower_def)

section \<open>strconv\<close>

definition dec_digit :: "nat \<Rightarrow> char" where
  "dec_digit n = char_of (48 + n)"

definition dec_value :: "char \<Rightarrow> nat option" where
  "dec_value c =
     (let n = (of_char c :: nat) in if 48 \<le> n \<and> n \<le> 57 then Some (n - 48) else None)"

lemma dec_value_dec_digit [simp]: "n < 10 \<Longrightarrow> dec_value (dec_digit n) = Some n"
  by (simp add: dec_value_def dec_digit_def Let_def)

fun nat_digits :: "nat \<Rightarrow> string" where
  "nat_digits n =
     (if n < 10 then [dec_digit n] else nat_digits (n div 10) @ [dec_digit (n mod 10)])"

declare nat_digits.simps [simp del]

text \<open>strconv.Itoa and strconv.FormatInt in base ten.\<close>

definition FormatInt :: "int \<Rightarrow> string" where
  "FormatInt i = (if i < 0 then CHR ''-'' # nat_digits (nat (- i)) else nat_digits (nat i))"

fun digits_value :: "nat \<Rightarrow> string \<Rightarrow> nat option" where
  "digits_value acc [] = Some acc"
| "digits_value acc (c # cs) =
     (case dec_value c of None \<Rightarrow> None | Some d \<Rightarrow> digits_value (10 * acc + d) cs)"

text \<open>
  strconv.ParseInt(s, 10, 64) and strconv.Atoi: an optional sign and at least one digit; None for a
  syntax error and for a value outside the signed 64-bit range.
\<close>

definition parse_unsigned :: "string \<Rightarrow> nat option" where
  "parse_unsigned s = (if s = [] then None else digits_value 0 s)"

definition ParseInt :: "string \<Rightarrow> int option" where
  "ParseInt s =
     (case (case s of
              [] \<Rightarrow> None
            | c # cs \<Rightarrow>
                if c = CHR ''+'' then map_option int (parse_unsigned cs)
                else if c = CHR ''-'' then map_option (\<lambda>n. - int n) (parse_unsigned cs)
                else map_option int (parse_unsigned (c # cs))) of
        None \<Rightarrow> None
      | Some i \<Rightarrow> if int64 i then Some i else None)"

lemma digits_value_append:
  "digits_value acc (s @ t) =
     (case digits_value acc s of None \<Rightarrow> None | Some n \<Rightarrow> digits_value n t)"
  by (induction s arbitrary: acc) (auto split: option.splits)

lemma digits_value_nat_digits [simp]: "digits_value 0 (nat_digits n) = Some n"
proof (induction n rule: nat_digits.induct)
  case (1 n)
  then show ?case
    by (subst nat_digits.simps) (simp add: digits_value_append)
qed

lemma nat_digits_not_Nil [simp]: "nat_digits n \<noteq> []"
  by (subst nat_digits.simps) simp

lemma nat_digits_are_digits: "c \<in> set (nat_digits n) \<Longrightarrow> dec_value c \<noteq> None"
proof (induction n rule: nat_digits.induct)
  case (1 n)
  then show ?case by (subst (asm) (2) nat_digits.simps) (auto split: if_splits)
qed

lemma dec_value_sign [simp]: "dec_value CHR ''-'' = None" "dec_value CHR ''+'' = None"
  by (simp_all add: dec_value_def)

lemma nat_digits_head:
  "nat_digits n = c # cs \<Longrightarrow> c \<noteq> CHR ''+'' \<and> c \<noteq> CHR ''-''"
  using nat_digits_are_digits [of c n] by auto

lemma ParseInt_FormatInt [simp]:
  assumes "int64 i"
  shows "ParseInt (FormatInt i) = Some i"
proof (cases "i < 0")
  case True
  with assms show ?thesis by (simp add: ParseInt_def FormatInt_def parse_unsigned_def)
next
  case False
  obtain c cs where n: "nat_digits (nat i) = c # cs" by (cases "nat_digits (nat i)") auto
  then have v: "digits_value 0 (c # cs) = Some (nat i)" by (metis digits_value_nat_digits)
  from nat_digits_head [OF n] have "c \<noteq> CHR ''+''" "c \<noteq> CHR ''-''" by simp_all
  with False n v assms show ?thesis
    by (simp add: ParseInt_def FormatInt_def parse_unsigned_def del: digits_value.simps)
qed

lemma ParseInt_int64: "ParseInt s = Some i \<Longrightarrow> int64 i"
  by (auto simp: ParseInt_def split: option.splits if_splits)

lemma FormatInt_not_Nil [simp]: "FormatInt i \<noteq> []"
  by (simp add: FormatInt_def)

lemma FormatInt_chars: "c \<in> set (FormatInt i) \<Longrightarrow> c = CHR ''-'' \<or> dec_value c \<noteq> None"
  by (auto simp: FormatInt_def dest: nat_digits_are_digits split: if_splits)

lemma FormatInt_inject:
  "int64 i \<Longrightarrow> int64 j \<Longrightarrow> FormatInt i = FormatInt j \<longleftrightarrow> i = j"
  by (metis ParseInt_FormatInt option.inject)

end
