(* ===== verification/TransferModel.thy ===== *)
theory TransferModel
  imports GoEncoding
begin

text \<open>
  The transfer domain of \<^verbatim>\<open>server/internal/transfers\<close>: the data of model.go, the errors and interfaces
  of service.go, and the contract a transfer repository has to keep, as the locale transfer_store.
\<close>

section \<open>Data (model.go)\<close>

text \<open>
  A Kind arrives in a request as any string, so it stays a string; a Status only ever holds one of the
  declared constants (the database column is an enumeration of the same six).
\<close>

type_synonym Kind = string

definition KindFile :: Kind where "KindFile = ''file''"
definition KindPhoto :: Kind where "KindPhoto = ''photo''"
definition KindLink :: Kind where "KindLink = ''link''"
definition KindText :: Kind where "KindText = ''text''"
definition KindClipboard :: Kind where "KindClipboard = ''clipboard''"

lemmas kind_defs = KindFile_def KindPhoto_def KindLink_def KindText_def KindClipboard_def

datatype Status =
  StatusCreated | StatusUploading | StatusReady | StatusDownloading | StatusCompleted | StatusFailed

record Transfer =
  tr_ID :: string
  tr_SourceDeviceID :: string
  tr_DestinationDeviceID :: string
  tr_Kind :: Kind
  tr_Status :: Status
  tr_DisplayName :: string
  tr_ContentType :: string
  tr_SizeBytes :: int
  tr_SHA256 :: string
  tr_UploadURL :: string
  tr_DownloadURL :: string
  tr_CreatedAt :: instant
  tr_UpdatedAt :: instant

record CreateInput =
  in_SourceDeviceID :: string
  in_DestinationDeviceID :: string
  in_Kind :: Kind
  in_DisplayName :: string
  in_ContentType :: string
  in_SizeBytes :: int
  in_SHA256 :: string

section \<open>Errors and interfaces (service.go)\<close>

text \<open>
  The five sentinel errors, and any other error (of the random source, of the URL provider or of the
  database) with its text.
\<close>

datatype transfer_error =
    Tr_ErrNotFound
  | Tr_ErrInvalidTransition
  | Tr_ErrInvalidInput
  | Tr_ErrUploadMissing
  | Tr_ErrUploadIntegrity
  | Tr_Err string

text \<open>InspectUploaded fails with fs.ErrNotExist or with another error.\<close>

datatype fs_error = Fs_ErrNotExist | Fs_Err string

text \<open>
  The Repository interface. A store is a state; List takes the order in which the store enumerates its
  rows, which neither Go's map iteration nor SQL fixes for rows with equal sort keys.
\<close>

record 's transfer_repo =
  trp_Create :: "ctx \<Rightarrow> Transfer \<Rightarrow> 's \<Rightarrow> (transfer_error, Transfer, 's) outcome"
  trp_List :: "ctx \<Rightarrow> string list \<Rightarrow> 's \<Rightarrow> (transfer_error, Transfer list, 's) outcome"
  trp_Get :: "ctx \<Rightarrow> string \<Rightarrow> 's \<Rightarrow> (transfer_error, Transfer, 's) outcome"
  trp_Update :: "ctx \<Rightarrow> Transfer \<Rightarrow> 's \<Rightarrow> (transfer_error, Transfer, 's) outcome"

text \<open>The SignedURLProvider interface, at the time of the call.\<close>

record url_provider =
  urls_UploadURL :: "ctx \<Rightarrow> string \<Rightarrow> string \<Rightarrow> (string, string) result"
  urls_DownloadURL :: "ctx \<Rightarrow> string \<Rightarrow> (string, string) result"
  urls_InspectUploaded :: "ctx \<Rightarrow> string \<Rightarrow> (fs_error, int \<times> string) result"

text \<open>The payload of realtimePayload, and one call of the Publisher interface.\<close>

record realtime_payload =
  pl_transferId :: string
  pl_kind :: Kind
  pl_displayName :: string
  pl_status :: Status

record publication =
  pub_deviceIDs :: "string list"
  pub_eventType :: string
  pub_payload :: realtime_payload

section \<open>The repository contract\<close>

text \<open>
  An abstract store maps a transfer id to the transfer and the id of the user who owns it (empty when
  authentication is off). A context sees the records of its user, and every record when it carries no
  user.
\<close>

type_synonym transfer_table = "string \<rightharpoonup> Transfer \<times> string"

definition sees :: "ctx \<Rightarrow> string \<Rightarrow> bool" where
  "sees c owner \<longleftrightarrow> UserID c = '''' \<or> owner = UserID c"

definition lookup_visible :: "ctx \<Rightarrow> string \<Rightarrow> transfer_table \<Rightarrow> (Transfer \<times> string) option" where
  "lookup_visible c i T =
     (case T i of None \<Rightarrow> None | Some (t, u) \<Rightarrow> if sees c u then Some (t, u) else None)"

lemma lookup_visible_Some:
  "lookup_visible c i T = Some (t, u) \<longleftrightarrow> T i = Some (t, u) \<and> sees c u"
  by (auto simp: lookup_visible_def split: option.splits if_splits)

lemma lookup_visible_None:
  "lookup_visible c i T = None \<longleftrightarrow> (\<forall>t u. T i = Some (t, u) \<longrightarrow> \<not> sees c u)"
  by (auto simp: lookup_visible_def split: option.splits if_splits)

text \<open>The fields an update leaves alone, and the transfers whose stored copy is the value itself.\<close>

definition same_identity :: "Transfer \<Rightarrow> Transfer \<Rightarrow> bool" where
  "same_identity t t' \<longleftrightarrow>
     tr_ID t' = tr_ID t \<and> tr_SourceDeviceID t' = tr_SourceDeviceID t \<and>
     tr_DestinationDeviceID t' = tr_DestinationDeviceID t \<and> tr_Kind t' = tr_Kind t \<and>
     tr_SizeBytes t' = tr_SizeBytes t \<and> tr_SHA256 t' = tr_SHA256 t \<and>
     tr_DisplayName t' = tr_DisplayName t \<and> tr_ContentType t' = tr_ContentType t \<and>
     tr_CreatedAt t' = tr_CreatedAt t"

definition no_urls :: "Transfer \<Rightarrow> bool" where
  "no_urls t \<longleftrightarrow> tr_UploadURL t = '''' \<and> tr_DownloadURL t = ''''"

lemma same_identity_refl [simp]: "same_identity t t"
  by (simp add: same_identity_def)

lemma same_identity_trans:
  "same_identity a b \<Longrightarrow> same_identity b d \<Longrightarrow> same_identity a d"
  by (simp add: same_identity_def)

text \<open>
  What the service relies on. Any operation may fail with an error of the store itself, and then leaves
  the table alone; otherwise Get and Update find exactly the visible record, and Create and Update
  store the transfer they are given. The table keys a record by its id, and stores no URL.
\<close>

definition keyed :: "transfer_table \<Rightarrow> bool" where
  "keyed T \<longleftrightarrow> (\<forall>i t u. T i = Some (t, u) \<longrightarrow> tr_ID t = i \<and> no_urls t)"

locale transfer_store =
  fixes repo :: "'s transfer_repo"
    and table :: "'s \<Rightarrow> transfer_table"
    and invar :: "'s \<Rightarrow> bool"
  assumes invar_keyed: "invar s \<Longrightarrow> keyed (table s)"
    and Create_spec: "invar s \<Longrightarrow> no_urls t \<Longrightarrow> trp_Create repo c t s = (r, s') \<Longrightarrow>
      invar s' \<and>
      (case r of
         Inl e \<Rightarrow> table s' = table s
       | Inr t' \<Rightarrow> t' = t \<and> table s' = (table s)(tr_ID t \<mapsto> (t, UserID c)))"
    and List_frame: "invar s \<Longrightarrow> trp_List repo c ks s = (rl, s') \<Longrightarrow>
      invar s' \<and> table s' = table s"
    and List_spec: "invar s \<Longrightarrow> enumerates ks (table s) \<Longrightarrow> trp_List repo c ks s = (rl, s') \<Longrightarrow>
      (case rl of
         Inl e \<Rightarrow> \<exists>m. e = Tr_Err m
       | Inr ts \<Rightarrow>
           mset ts = mset (map fst (filter (\<lambda>(t, u). sees c u) (range_values ks (table s)))) \<and>
           sorted_wrt (\<lambda>x y. tr_CreatedAt y \<le> tr_CreatedAt x) ts)"
    and Get_spec: "invar s \<Longrightarrow> trp_Get repo c i s = (r, s') \<Longrightarrow>
      invar s' \<and> table s' = table s \<and>
      ((\<exists>m. r = Inl (Tr_Err m)) \<or>
       r = (case lookup_visible c i (table s) of None \<Rightarrow> Inl Tr_ErrNotFound | Some (t, u) \<Rightarrow> Inr t))"
    and Update_spec: "invar s \<Longrightarrow> no_urls t \<Longrightarrow>
      (\<And>t0 u. lookup_visible c (tr_ID t) (table s) = Some (t0, u) \<Longrightarrow> same_identity t0 t) \<Longrightarrow>
      trp_Update repo c t s = (r, s') \<Longrightarrow>
      invar s' \<and>
      (case r of
         Inl e \<Rightarrow> table s' = table s
       | Inr t' \<Rightarrow> t' = t \<and>
           (\<exists>t0 u. lookup_visible c (tr_ID t) (table s) = Some (t0, u) \<and>
                   table s' = (table s)(tr_ID t \<mapsto> (t, u))))"

text \<open>
  A store whose operations never fail for reasons of their own.
\<close>

locale reliable_transfer_store = transfer_store +
  assumes Get_total: "invar s \<Longrightarrow> fst (trp_Get repo c i s) =
      (case lookup_visible c i (table s) of None \<Rightarrow> Inl Tr_ErrNotFound | Some (t, u) \<Rightarrow> Inr t)"
    and Create_total: "invar s \<Longrightarrow> fst (trp_Create repo c t s) = Inr t"
    and Update_total: "invar s \<Longrightarrow> lookup_visible c (tr_ID t) (table s) = Some (t0, u) \<Longrightarrow>
      fst (trp_Update repo c t s) = Inr t"

end
