(* ===== verification/TransferService.thy ===== *)
theory TransferService
  imports TransferModel
begin

text \<open>
  The transfer service of \<^verbatim>\<open>transfers/service.go\<close>, over any repository and URL provider: creation with
  its validation, listing, reading, the transition to ready after the uploaded object was inspected,
  and completion. The lemmas are proved once in the repository contract.
\<close>

section \<open>The operations\<close>

definition maxTransferBytes :: int where "maxTransferBytes = 1 * 2 ^ 30"
definition maxDisplayNameRunes :: int where "maxDisplayNameRunes = 255"
definition maxContentTypeRunes :: int where "maxContentTypeRunes = 120"

text \<open>The regular expression of checksumPattern: exactly 64 hexadecimal digits.\<close>

definition checksumPattern :: "string \<Rightarrow> bool" where
  "checksumPattern s \<longleftrightarrow> length s = 64 \<and> list_all is_hex_digit s"

record 's transfer_service =
  ts_repo :: "'s transfer_repo"
  ts_urls :: url_provider

text \<open>newID: the random bytes are what rand.Read delivered, or its error.\<close>

definition transfers_newID :: "string \<Rightarrow> (string, bytes) result \<Rightarrow> (string, string) result" where
  "transfers_newID pre rnd =
     (case rnd of Inl e \<Rightarrow> Inl e | Inr b \<Rightarrow> Inr (pre @ ''_'' @ hex_EncodeToString b))"

definition create_rejects :: "CreateInput \<Rightarrow> bool" where
  "create_rejects inp \<longleftrightarrow>
     in_SourceDeviceID inp = '''' \<or>
     in_DestinationDeviceID inp = '''' \<or>
     in_SizeBytes inp < 0 \<or>
     in_SizeBytes inp > maxTransferBytes \<or>
     RuneCountInString (in_DisplayName inp) > maxDisplayNameRunes \<or>
     RuneCountInString (in_ContentType inp) > maxContentTypeRunes \<or>
     \<not> checksumPattern (in_SHA256 inp)"

definition kind_rejects :: "Kind \<Rightarrow> bool" where
  "kind_rejects k \<longleftrightarrow>
     k \<noteq> KindFile \<and> k \<noteq> KindPhoto \<and> k \<noteq> KindLink \<and> k \<noteq> KindText \<and> k \<noteq> KindClipboard"

text \<open>The record Create hands to the repository.\<close>

definition new_transfer :: "instant \<Rightarrow> string \<Rightarrow> CreateInput \<Rightarrow> Transfer" where
  "new_transfer now i inp =
     \<lparr>tr_ID = i,
      tr_SourceDeviceID = in_SourceDeviceID inp,
      tr_DestinationDeviceID = in_DestinationDeviceID inp,
      tr_Kind = in_Kind inp,
      tr_Status = StatusUploading,
      tr_DisplayName = in_DisplayName inp,
      tr_ContentType = in_ContentType inp,
      tr_SizeBytes = in_SizeBytes inp,
      tr_SHA256 = in_SHA256 inp,
      tr_UploadURL = '''', tr_DownloadURL = '''',
      tr_CreatedAt = now, tr_UpdatedAt = now\<rparr>"

definition transfers_Create ::
  "'s transfer_service \<Rightarrow> instant \<Rightarrow> (string, bytes) result \<Rightarrow> ctx \<Rightarrow> CreateInput \<Rightarrow> 's \<Rightarrow>
   (transfer_error, Transfer, 's) outcome" where
  "transfers_Create svc now rnd c inp s =
     (if create_rejects inp then (Inl Tr_ErrInvalidInput, s)
      else if kind_rejects (in_Kind inp) then (Inl Tr_ErrInvalidInput, s)
      else case transfers_newID ''tr'' rnd of
        Inl e \<Rightarrow> (Inl (Tr_Err e), s)
      | Inr i \<Rightarrow>
          (case urls_UploadURL (ts_urls svc) c i (in_SHA256 inp) of
             Inl e \<Rightarrow> (Inl (Tr_Err e), s)
           | Inr uploadURL \<Rightarrow>
               (case trp_Create (ts_repo svc) c (new_transfer now i inp) s of
                  (Inl e, s') \<Rightarrow> (Inl e, s')
                | (Inr persisted, s') \<Rightarrow> (Inr (persisted\<lparr>tr_UploadURL := uploadURL\<rparr>), s'))))"

definition transfers_decorate ::
  "url_provider \<Rightarrow> ctx \<Rightarrow> Transfer \<Rightarrow> (transfer_error, Transfer) result" where
  "transfers_decorate urls c t0 =
     (let t = t0\<lparr>tr_UploadURL := '''', tr_DownloadURL := ''''\<rparr> in
      case tr_Status t of
        StatusUploading \<Rightarrow>
          (case urls_UploadURL urls c (tr_ID t) (tr_SHA256 t) of
             Inl e \<Rightarrow> Inl (Tr_Err e) | Inr u \<Rightarrow> Inr (t\<lparr>tr_UploadURL := u\<rparr>))
      | StatusReady \<Rightarrow>
          (case urls_DownloadURL urls c (tr_ID t) of
             Inl e \<Rightarrow> Inl (Tr_Err e) | Inr u \<Rightarrow> Inr (t\<lparr>tr_DownloadURL := u\<rparr>))
      | StatusDownloading \<Rightarrow>
          (case urls_DownloadURL urls c (tr_ID t) of
             Inl e \<Rightarrow> Inl (Tr_Err e) | Inr u \<Rightarrow> Inr (t\<lparr>tr_DownloadURL := u\<rparr>))
      | StatusCompleted \<Rightarrow>
          (case urls_DownloadURL urls c (tr_ID t) of
             Inl e \<Rightarrow> Inl (Tr_Err e) | Inr u \<Rightarrow> Inr (t\<lparr>tr_DownloadURL := u\<rparr>))
      | _ \<Rightarrow> Inr t)"

text \<open>The loop of List stops at the first transfer that cannot be decorated.\<close>

fun decorate_all ::
  "url_provider \<Rightarrow> ctx \<Rightarrow> Transfer list \<Rightarrow> (transfer_error, Transfer list) result" where
  "decorate_all urls c [] = Inr []"
| "decorate_all urls c (t # ts) =
     (case transfers_decorate urls c t of
        Inl e \<Rightarrow> Inl e
      | Inr t' \<Rightarrow> (case decorate_all urls c ts of Inl e \<Rightarrow> Inl e | Inr ts' \<Rightarrow> Inr (t' # ts')))"

definition transfers_List ::
  "'s transfer_service \<Rightarrow> ctx \<Rightarrow> string list \<Rightarrow> 's \<Rightarrow> (transfer_error, Transfer list, 's) outcome" where
  "transfers_List svc c ks s =
     (case trp_List (ts_repo svc) c ks s of
        (Inl e, s') \<Rightarrow> (Inl e, s')
      | (Inr items, s') \<Rightarrow> (decorate_all (ts_urls svc) c items, s'))"

definition transfers_Get ::
  "'s transfer_service \<Rightarrow> ctx \<Rightarrow> string \<Rightarrow> 's \<Rightarrow> (transfer_error, Transfer, 's) outcome" where
  "transfers_Get svc c i s =
     (case trp_Get (ts_repo svc) c i s of
        (Inl e, s') \<Rightarrow> (Inl e, s')
      | (Inr t, s') \<Rightarrow> (transfers_decorate (ts_urls svc) c t, s'))"

definition realtimePayload :: "Transfer \<Rightarrow> realtime_payload" where
  "realtimePayload t =
     \<lparr>pl_transferId = tr_ID t, pl_kind = tr_Kind t, pl_displayName = tr_DisplayName t,
      pl_status = tr_Status t\<rparr>"

text \<open>
  MarkUploaded in its two atomic pieces: the read with the checks that follow it, which ends in an error
  or in the transfer to write and the URL to return, and the write with the event it publishes. The
  result carries the events published by the call.
\<close>

definition markUploaded_check ::
  "url_provider \<Rightarrow> instant \<Rightarrow> ctx \<Rightarrow> string \<Rightarrow> Transfer \<Rightarrow>
   (transfer_error, Transfer \<times> string) result" where
  "markUploaded_check urls now c i t =
     (if tr_Status t \<noteq> StatusUploading then Inl Tr_ErrInvalidTransition
      else case urls_InspectUploaded urls c i of
        Inl Fs_ErrNotExist \<Rightarrow> Inl Tr_ErrUploadMissing
      | Inl (Fs_Err e) \<Rightarrow> Inl (Tr_Err e)
      | Inr (sizeBytes, checksum) \<Rightarrow>
          if sizeBytes \<noteq> tr_SizeBytes t then Inl Tr_ErrUploadIntegrity
          else if \<not> EqualFold checksum (tr_SHA256 t) then Inl Tr_ErrUploadIntegrity
          else case urls_DownloadURL urls c i of
            Inl e \<Rightarrow> Inl (Tr_Err e)
          | Inr downloadURL \<Rightarrow>
              Inr (t\<lparr>tr_Status := StatusReady, tr_UploadURL := '''', tr_DownloadURL := '''',
                     tr_UpdatedAt := now\<rparr>, downloadURL))"

definition markUploaded_commit ::
  "'s transfer_repo \<Rightarrow> ctx \<Rightarrow> Transfer \<Rightarrow> string \<Rightarrow> 's \<Rightarrow>
   (transfer_error, Transfer, 's) outcome \<times> publication list" where
  "markUploaded_commit repo c t downloadURL s =
     (case trp_Update repo c t s of
        (Inl e, s') \<Rightarrow> ((Inl e, s'), [])
      | (Inr t', s') \<Rightarrow>
          let t'' = t'\<lparr>tr_DownloadURL := downloadURL\<rparr> in
          ((Inr t'', s'),
           [\<lparr>pub_deviceIDs = [tr_DestinationDeviceID t''], pub_eventType = ''transfer.ready'',
             pub_payload = realtimePayload t''\<rparr>]))"

definition transfers_MarkUploaded ::
  "'s transfer_service \<Rightarrow> instant \<Rightarrow> ctx \<Rightarrow> string \<Rightarrow> 's \<Rightarrow>
   (transfer_error, Transfer, 's) outcome \<times> publication list" where
  "transfers_MarkUploaded svc now c i s =
     (case trp_Get (ts_repo svc) c i s of
        (Inl e, s') \<Rightarrow> ((Inl e, s'), [])
      | (Inr t, s') \<Rightarrow>
          (case markUploaded_check (ts_urls svc) now c i t of
             Inl e \<Rightarrow> ((Inl e, s'), [])
           | Inr (t', url) \<Rightarrow> markUploaded_commit (ts_repo svc) c t' url s'))"

definition complete_check ::
  "url_provider \<Rightarrow> instant \<Rightarrow> ctx \<Rightarrow> string \<Rightarrow> Transfer \<Rightarrow>
   (transfer_error, Transfer \<times> string) result" where
  "complete_check urls now c i t =
     (if tr_Status t \<noteq> StatusReady \<and> tr_Status t \<noteq> StatusDownloading then Inl Tr_ErrInvalidTransition
      else case urls_DownloadURL urls c i of
        Inl e \<Rightarrow> Inl (Tr_Err e)
      | Inr downloadURL \<Rightarrow>
          Inr (t\<lparr>tr_Status := StatusCompleted, tr_UploadURL := '''', tr_DownloadURL := '''',
                 tr_UpdatedAt := now\<rparr>, downloadURL))"

definition complete_commit ::
  "'s transfer_repo \<Rightarrow> ctx \<Rightarrow> Transfer \<Rightarrow> string \<Rightarrow> 's \<Rightarrow>
   (transfer_error, Transfer, 's) outcome \<times> publication list" where
  "complete_commit repo c t downloadURL s =
     (case trp_Update repo c t s of
        (Inl e, s') \<Rightarrow> ((Inl e, s'), [])
      | (Inr t', s') \<Rightarrow>
          let t'' = t'\<lparr>tr_DownloadURL := downloadURL\<rparr> in
          ((Inr t'', s'),
           [\<lparr>pub_deviceIDs = [tr_SourceDeviceID t''], pub_eventType = ''transfer.completed'',
             pub_payload = realtimePayload t''\<rparr>]))"

definition transfers_Complete ::
  "'s transfer_service \<Rightarrow> instant \<Rightarrow> ctx \<Rightarrow> string \<Rightarrow> 's \<Rightarrow>
   (transfer_error, Transfer, 's) outcome \<times> publication list" where
  "transfers_Complete svc now c i s =
     (case trp_Get (ts_repo svc) c i s of
        (Inl e, s') \<Rightarrow> ((Inl e, s'), [])
      | (Inr t, s') \<Rightarrow>
          (case complete_check (ts_urls svc) now c i t of
             Inl e \<Rightarrow> ((Inl e, s'), [])
           | Inr (t', url) \<Rightarrow> complete_commit (ts_repo svc) c t' url s'))"

lemmas transfer_op_defs =
  transfers_Create_def transfers_Get_def transfers_List_def transfers_MarkUploaded_def
  transfers_Complete_def markUploaded_commit_def complete_commit_def

end
