(* ===== verification/TransferLemmas.thy ===== *)
theory TransferLemmas
  imports TransferService
begin

text \<open>
  What every call of the transfer service does to the table behind any repository that keeps the
  contract: the abstract transition system of a transfer's life, well-formed transfers, and the
  simulation of each operation by one abstract step.
\<close>

section \<open>The abstract transition system\<close>

text \<open>A transfer that passed Create's validation, without stored URLs.\<close>

definition wf_transfer :: "Transfer \<Rightarrow> bool" where
  "wf_transfer t \<longleftrightarrow>
     tr_SourceDeviceID t \<noteq> '''' \<and> tr_DestinationDeviceID t \<noteq> '''' \<and>
     0 \<le> tr_SizeBytes t \<and> tr_SizeBytes t \<le> 2 ^ 30 \<and>
     RuneCountInString (tr_DisplayName t) \<le> 255 \<and> RuneCountInString (tr_ContentType t) \<le> 120 \<and>
     checksumPattern (tr_SHA256 t) \<and>
     tr_Kind t \<in> {''file'', ''photo'', ''link'', ''text'', ''clipboard''} \<and>
     tr_Status t \<in> {StatusUploading, StatusReady, StatusCompleted} \<and>
     no_urls t"

definition wf_table :: "transfer_table \<Rightarrow> bool" where
  "wf_table T \<longleftrightarrow> (\<forall>i t u. T i = Some (t, u) \<longrightarrow> wf_transfer t)"

definition advance :: "Status \<Rightarrow> instant \<Rightarrow> Transfer \<Rightarrow> Transfer" where
  "advance st now t =
     t\<lparr>tr_Status := st, tr_UploadURL := '''', tr_DownloadURL := '''', tr_UpdatedAt := now\<rparr>"

inductive transfer_step :: "transfer_table \<Rightarrow> transfer_table \<Rightarrow> bool" where
  stutter: "transfer_step T T"
| create: "wf_transfer t \<Longrightarrow> tr_Status t = StatusUploading \<Longrightarrow> tr_CreatedAt t = tr_UpdatedAt t \<Longrightarrow>
     transfer_step T (T(tr_ID t \<mapsto> (t, u)))"
| ready: "T i = Some (t, u) \<Longrightarrow> tr_Status t = StatusUploading \<Longrightarrow>
     transfer_step T (T(i \<mapsto> (advance StatusReady now t, u)))"
| complete: "T i = Some (t, u) \<Longrightarrow> tr_Status t = StatusReady \<or> tr_Status t = StatusDownloading \<Longrightarrow>
     transfer_step T (T(i \<mapsto> (advance StatusCompleted now t, u)))"

inductive_cases transfer_stepE [elim]: "transfer_step T T'"

lemma advance_simps [simp]:
  "tr_ID (advance st now t) = tr_ID t"
  "tr_SourceDeviceID (advance st now t) = tr_SourceDeviceID t"
  "tr_DestinationDeviceID (advance st now t) = tr_DestinationDeviceID t"
  "tr_Kind (advance st now t) = tr_Kind t"
  "tr_Status (advance st now t) = st"
  "tr_DisplayName (advance st now t) = tr_DisplayName t"
  "tr_ContentType (advance st now t) = tr_ContentType t"
  "tr_SizeBytes (advance st now t) = tr_SizeBytes t"
  "tr_SHA256 (advance st now t) = tr_SHA256 t"
  "tr_CreatedAt (advance st now t) = tr_CreatedAt t"
  "tr_UpdatedAt (advance st now t) = now"
  "same_identity t (advance st now t)"
  "no_urls (advance st now t)"
  by (simp_all add: advance_def same_identity_def no_urls_def)

lemma wf_advance:
  "wf_transfer t \<Longrightarrow> st \<in> {StatusUploading, StatusReady, StatusCompleted} \<Longrightarrow>
   wf_transfer (advance st now t)"
  by (simp add: wf_transfer_def)

lemma wf_table_step: "transfer_step T T' \<Longrightarrow> wf_table T \<Longrightarrow> wf_table T'"
  by (induction rule: transfer_step.induct) (auto simp: wf_table_def intro!: wf_advance)

lemma wf_new_transfer:
  "\<not> create_rejects inp \<Longrightarrow> \<not> kind_rejects (in_Kind inp) \<Longrightarrow> wf_transfer (new_transfer now i inp)"
  by (auto simp: wf_transfer_def create_rejects_def kind_rejects_def new_transfer_def no_urls_def
      maxTransferBytes_def maxDisplayNameRunes_def maxContentTypeRunes_def kind_defs)

lemma new_transfer_simps [simp]:
  "tr_ID (new_transfer now i inp) = i"
  "tr_Status (new_transfer now i inp) = StatusUploading"
  "tr_CreatedAt (new_transfer now i inp) = now"
  "tr_UpdatedAt (new_transfer now i inp) = now"
  "no_urls (new_transfer now i inp)"
  by (simp_all add: new_transfer_def no_urls_def)

section \<open>The checks between read and write\<close>

lemma markUploaded_check_Inr:
  "markUploaded_check urls now c i t = Inr (t', url) \<longleftrightarrow>
     tr_Status t = StatusUploading \<and> t' = advance StatusReady now t \<and>
     (\<exists>sum. urls_InspectUploaded urls c i = Inr (tr_SizeBytes t, sum) \<and> EqualFold sum (tr_SHA256 t)) \<and>
     urls_DownloadURL urls c i = Inr url"
  by (auto simp: markUploaded_check_def advance_def split: sum.splits fs_error.splits prod.splits)

lemma complete_check_Inr:
  "complete_check urls now c i t = Inr (t', url) \<longleftrightarrow>
     (tr_Status t = StatusReady \<or> tr_Status t = StatusDownloading) \<and>
     t' = advance StatusCompleted now t \<and> urls_DownloadURL urls c i = Inr url"
  by (auto simp: complete_check_def advance_def split: sum.splits)

definition ready_event :: "Transfer \<Rightarrow> publication" where
  "ready_event t =
     \<lparr>pub_deviceIDs = [tr_DestinationDeviceID t], pub_eventType = ''transfer.ready'',
      pub_payload = \<lparr>pl_transferId = tr_ID t, pl_kind = tr_Kind t,
        pl_displayName = tr_DisplayName t, pl_status = StatusReady\<rparr>\<rparr>"

definition completed_event :: "Transfer \<Rightarrow> publication" where
  "completed_event t =
     \<lparr>pub_deviceIDs = [tr_SourceDeviceID t], pub_eventType = ''transfer.completed'',
      pub_payload = \<lparr>pl_transferId = tr_ID t, pl_kind = tr_Kind t,
        pl_displayName = tr_DisplayName t, pl_status = StatusCompleted\<rparr>\<rparr>"

section \<open>The operations over the contract\<close>

context transfer_store begin

lemma Get_cases:
  assumes "invar s" and "trp_Get repo c i s = (r, s')"
  obtains (err) e where "r = Inl e" "invar s'" "table s' = table s"
  | (ok) t u where "r = Inr t" "invar s'" "table s' = table s" "table s i = Some (t, u)" "sees c u"
      "tr_ID t = i" "no_urls t"
proof -
  from Get_spec [OF assms] have s': "invar s'" "table s' = table s"
    and r: "(\<exists>m. r = Inl (Tr_Err m)) \<or>
      r = (case lookup_visible c i (table s) of None \<Rightarrow> Inl Tr_ErrNotFound | Some (t, u) \<Rightarrow> Inr t)"
    by auto
  show ?thesis
  proof (cases r)
    case (Inl e)
    then show ?thesis using s' err by blast
  next
    case (Inr t)
    with r obtain u where "table s i = Some (t, u)" "sees c u"
      by (auto split: option.splits prod.splits simp: lookup_visible_Some)
    moreover from this have "tr_ID t = i" "no_urls t"
      using invar_keyed [OF assms(1)] by (auto simp: keyed_def)
    ultimately show ?thesis using Inr s' ok by blast
  qed
qed

lemma Create_table:
  assumes "invar s" and "ts_repo svc = repo" and "transfers_Create svc now rnd c inp s = (r, s')"
  shows "invar s' \<and>
    (case r of
       Inl e \<Rightarrow> table s' = table s
     | Inr t \<Rightarrow>
         (\<exists>i url. transfers_newID ''tr'' rnd = Inr i \<and>
            urls_UploadURL (ts_urls svc) c i (in_SHA256 inp) = Inr url \<and>
            t = (new_transfer now i inp)\<lparr>tr_UploadURL := url\<rparr> \<and>
            wf_transfer (new_transfer now i inp) \<and>
            table s' = (table s)(i \<mapsto> (new_transfer now i inp, UserID c))))"
proof (cases "create_rejects inp \<or> kind_rejects (in_Kind inp)")
  case True
  with assms show ?thesis by (auto simp: transfers_Create_def split: if_splits)
next
  case False
  then have wf: "wf_transfer (new_transfer now i inp)" for i by (simp add: wf_new_transfer)
  note unf = assms(3) [unfolded transfers_Create_def assms(2)]
  show ?thesis
  proof (cases "transfers_newID ''tr'' rnd")
    case (Inl e)
    with unf False assms(1) show ?thesis by auto
  next
    case (Inr i)
    note i = this
    show ?thesis
    proof (cases "urls_UploadURL (ts_urls svc) c i (in_SHA256 inp)")
      case (Inl e)
      with unf False i assms(1) show ?thesis by auto
    next
      case (Inr url)
      obtain r0 s0 where cr: "trp_Create repo c (new_transfer now i inp) s = (r0, s0)"
        by (cases "trp_Create repo c (new_transfer now i inp) s")
      with unf False i Inr
      have "s' = s0" "r = (case r0 of Inl e \<Rightarrow> Inl e | Inr p \<Rightarrow> Inr (p\<lparr>tr_UploadURL := url\<rparr>))"
        by (auto split: sum.splits)
      with Create_spec [OF assms(1) new_transfer_simps(5) cr] i Inr wf show ?thesis
        by (auto split: sum.splits)
    qed
  qed
qed

lemma Get_table:
  assumes "invar s" and "ts_repo svc = repo" and "transfers_Get svc c i s = (r, s')"
  shows "invar s' \<and> table s' = table s \<and>
    (\<forall>t. r = Inr t \<longrightarrow>
       (\<exists>t0 u. table s i = Some (t0, u) \<and> sees c u \<and> transfers_decorate (ts_urls svc) c t0 = Inr t))"
proof -
  obtain r0 s0 where g: "trp_Get repo c i s = (r0, s0)" by (cases "trp_Get repo c i s")
  from assms(1) g show ?thesis
    by (cases rule: Get_cases) (use assms g in \<open>auto simp: transfers_Get_def\<close>)
qed

lemma commit_table:
  assumes "invar s" and "table s i = Some (t, u)" and "sees c u" and "tr_ID t = i"
    and "trp_Update repo c (advance st now t) s = (r, s')"
  shows "invar s' \<and>
    (case r of
       Inl e \<Rightarrow> table s' = table s
     | Inr t' \<Rightarrow> t' = advance st now t \<and> table s' = (table s)(i \<mapsto> (advance st now t, u)))"
proof -
  have v: "lookup_visible c (tr_ID (advance st now t)) (table s) = Some (t, u)"
    using assms by (simp add: lookup_visible_Some)
  have "same_identity t0 (advance st now t)"
    if "lookup_visible c (tr_ID (advance st now t)) (table s) = Some (t0, u0)" for t0 u0
    using that v by simp
  from Update_spec [OF assms(1) advance_simps(13) this assms(5)] v show ?thesis
    using assms(4) by (auto split: sum.splits)
qed

lemma MarkUploaded_table:
  assumes "invar s" and "ts_repo svc = repo"
    and "transfers_MarkUploaded svc now c i s = ((r, s'), pubs)"
  shows "invar s' \<and>
    (case r of
       Inl e \<Rightarrow> table s' = table s \<and> pubs = []
     | Inr t' \<Rightarrow>
         (\<exists>t u sum url. table s i = Some (t, u) \<and> sees c u \<and> tr_Status t = StatusUploading \<and>
            urls_InspectUploaded (ts_urls svc) c i = Inr (tr_SizeBytes t, sum) \<and>
            EqualFold sum (tr_SHA256 t) \<and> urls_DownloadURL (ts_urls svc) c i = Inr url \<and>
            t' = (advance StatusReady now t)\<lparr>tr_DownloadURL := url\<rparr> \<and>
            table s' = (table s)(i \<mapsto> (advance StatusReady now t, u)) \<and> pubs = [ready_event t]))"
proof -
  obtain r0 s0 where g: "trp_Get repo c i s = (r0, s0)" by (cases "trp_Get repo c i s")
  from assms(1) g show ?thesis
  proof (cases rule: Get_cases)
    case (err e)
    with assms g show ?thesis by (auto simp: transfers_MarkUploaded_def)
  next
    case (ok t u)
    show ?thesis
    proof (cases "markUploaded_check (ts_urls svc) now c i t")
      case (Inl e)
      with ok assms g show ?thesis by (auto simp: transfers_MarkUploaded_def)
    next
      case (Inr p)
      obtain t1 url where p: "p = (t1, url)" by (cases p)
      with Inr have chk: "markUploaded_check (ts_urls svc) now c i t = Inr (t1, url)" by simp
      from markUploaded_check_Inr [THEN iffD1, OF chk] have t1: "t1 = advance StatusReady now t" by simp
      obtain r1 s1 where upd: "trp_Update repo c t1 s0 = (r1, s1)" by (cases "trp_Update repo c t1 s0")
      have c1: "invar s1 \<and>
        (case r1 of
           Inl e \<Rightarrow> table s1 = table s0
         | Inr t' \<Rightarrow> t' = advance StatusReady now t \<and>
             table s1 = (table s0)(i \<mapsto> (advance StatusReady now t, u)))"
        by (rule commit_table) (use ok upd t1 in auto)
      with ok assms g chk upd t1 show ?thesis
        using markUploaded_check_Inr [THEN iffD1, OF chk]
        by (auto simp: transfers_MarkUploaded_def markUploaded_commit_def ready_event_def
            realtimePayload_def split: sum.splits)
    qed
  qed
qed

lemma Complete_table:
  assumes "invar s" and "ts_repo svc = repo"
    and "transfers_Complete svc now c i s = ((r, s'), pubs)"
  shows "invar s' \<and>
    (case r of
       Inl e \<Rightarrow> table s' = table s \<and> pubs = []
     | Inr t' \<Rightarrow>
         (\<exists>t u url. table s i = Some (t, u) \<and> sees c u \<and>
            (tr_Status t = StatusReady \<or> tr_Status t = StatusDownloading) \<and>
            urls_DownloadURL (ts_urls svc) c i = Inr url \<and>
            t' = (advance StatusCompleted now t)\<lparr>tr_DownloadURL := url\<rparr> \<and>
            table s' = (table s)(i \<mapsto> (advance StatusCompleted now t, u)) \<and>
            pubs = [completed_event t]))"
proof -
  obtain r0 s0 where g: "trp_Get repo c i s = (r0, s0)" by (cases "trp_Get repo c i s")
  from assms(1) g show ?thesis
  proof (cases rule: Get_cases)
    case (err e)
    with assms g show ?thesis by (auto simp: transfers_Complete_def)
  next
    case (ok t u)
    show ?thesis
    proof (cases "complete_check (ts_urls svc) now c i t")
      case (Inl e)
      with ok assms g show ?thesis by (auto simp: transfers_Complete_def)
    next
      case (Inr p)
      obtain t1 url where p: "p = (t1, url)" by (cases p)
      with Inr have chk: "complete_check (ts_urls svc) now c i t = Inr (t1, url)" by simp
      from complete_check_Inr [THEN iffD1, OF chk] have t1: "t1 = advance StatusCompleted now t" by simp
      obtain r1 s1 where upd: "trp_Update repo c t1 s0 = (r1, s1)" by (cases "trp_Update repo c t1 s0")
      have c1: "invar s1 \<and>
        (case r1 of
           Inl e \<Rightarrow> table s1 = table s0
         | Inr t' \<Rightarrow> t' = advance StatusCompleted now t \<and>
             table s1 = (table s0)(i \<mapsto> (advance StatusCompleted now t, u)))"
        by (rule commit_table) (use ok upd t1 in auto)
      with ok assms g chk upd t1 show ?thesis
        using complete_check_Inr [THEN iffD1, OF chk]
        by (auto simp: transfers_Complete_def complete_commit_def completed_event_def
            realtimePayload_def split: sum.splits)
    qed
  qed
qed

end

end
