(* ===== verification/TransferMemory.thy ===== *)
theory TransferMemory
  imports TransferModel
begin

text \<open>
  The in-memory repository of \<^verbatim>\<open>transfers/memory_repository.go\<close>: a map from transfer id to a record
  of the transfer and its owner. Every method runs under the repository's lock, so each is one atomic
  step. It keeps the repository contract, and never fails.
\<close>

record memoryRecord =
  tm_transfer :: Transfer
  tm_userID :: string

type_synonym transfer_items = "string \<rightharpoonup> memoryRecord"

definition NewMemoryRepository :: transfer_items where
  "NewMemoryRepository = Map.empty"

definition tm_Create ::
  "ctx \<Rightarrow> Transfer \<Rightarrow> transfer_items \<Rightarrow> (transfer_error, Transfer, transfer_items) outcome" where
  "tm_Create c t items =
     (Inr t, items(tr_ID t \<mapsto> \<lparr>tm_transfer = t, tm_userID = UserID c\<rparr>))"

definition tm_List ::
  "ctx \<Rightarrow> string list \<Rightarrow> transfer_items \<Rightarrow>
   (transfer_error, Transfer list, transfer_items) outcome" where
  "tm_List c ks items =
     (let userID = UserID c;
          records = filter (\<lambda>r. \<not> (userID \<noteq> '''' \<and> tm_userID r \<noteq> userID)) (range_values ks items);
          out = map tm_transfer records
      in (Inr (sort_key (\<lambda>t. - tr_CreatedAt t) out), items))"

definition tm_Get ::
  "ctx \<Rightarrow> string \<Rightarrow> transfer_items \<Rightarrow> (transfer_error, Transfer, transfer_items) outcome" where
  "tm_Get c i items =
     (case items i of
        None \<Rightarrow> (Inl Tr_ErrNotFound, items)
      | Some r \<Rightarrow>
          let userID = UserID c in
          if userID \<noteq> '''' \<and> tm_userID r \<noteq> userID then (Inl Tr_ErrNotFound, items)
          else (Inr (tm_transfer r), items))"

definition tm_Update ::
  "ctx \<Rightarrow> Transfer \<Rightarrow> transfer_items \<Rightarrow> (transfer_error, Transfer, transfer_items) outcome" where
  "tm_Update c t items =
     (case items (tr_ID t) of
        None \<Rightarrow> (Inl Tr_ErrNotFound, items)
      | Some r \<Rightarrow>
          let userID = UserID c in
          if userID \<noteq> '''' \<and> tm_userID r \<noteq> userID then (Inl Tr_ErrNotFound, items)
          else (Inr t, items(tr_ID t \<mapsto> r\<lparr>tm_transfer := t\<rparr>)))"

definition memory_repo :: "transfer_items transfer_repo" where
  "memory_repo =
     \<lparr>trp_Create = tm_Create, trp_List = tm_List, trp_Get = tm_Get, trp_Update = tm_Update\<rparr>"

lemma memory_repo_simps [simp]:
  "trp_Create memory_repo = tm_Create" "trp_List memory_repo = tm_List"
  "trp_Get memory_repo = tm_Get" "trp_Update memory_repo = tm_Update"
  by (simp_all add: memory_repo_def)

lemmas tm_defs = tm_Create_def tm_List_def tm_Get_def tm_Update_def

section \<open>The contract\<close>

definition record_pair :: "memoryRecord \<Rightarrow> Transfer \<times> string" where
  "record_pair r = (tm_transfer r, tm_userID r)"

definition tm_table :: "transfer_items \<Rightarrow> transfer_table" where
  "tm_table items = map_option record_pair \<circ> items"

definition tm_invar :: "transfer_items \<Rightarrow> bool" where
  "tm_invar items \<longleftrightarrow> keyed (tm_table items)"

lemma tm_table_apply: "tm_table items i = map_option record_pair (items i)"
  by (simp add: tm_table_def)

lemma tm_table_upd [simp]:
  "tm_table (items(i \<mapsto> r)) = (tm_table items)(i \<mapsto> (tm_transfer r, tm_userID r))"
  by (auto simp: tm_table_def record_pair_def fun_eq_iff)

lemma tm_invar_empty [simp]: "tm_invar NewMemoryRepository"
  by (simp add: tm_invar_def keyed_def tm_table_def NewMemoryRepository_def)

lemma dom_tm_table [simp]: "dom (tm_table items) = dom items"
  by (auto simp: tm_table_def dom_def)

lemma enumerates_tm_table [simp]: "enumerates ks (tm_table items) = enumerates ks items"
  by (simp add: enumerates_def)

lemma range_values_tm_table: "range_values ks (tm_table items) = map record_pair (range_values ks items)"
  by (induction ks) (auto simp: range_values_Cons tm_table_apply split: option.splits)

lemma not_hidden_iff_sees: "(\<not> (UserID c \<noteq> '''' \<and> u \<noteq> UserID c)) = sees c u"
  by (auto simp: sees_def)

lemma tm_List_eq:
  "tm_List c ks items =
     (Inr (sort_key (\<lambda>t. - tr_CreatedAt t)
             (map fst (filter (\<lambda>(t, u). sees c u) (range_values ks (tm_table items))))), items)"
  by (simp add: tm_List_def Let_def range_values_tm_table filter_map not_hidden_iff_sees
      record_pair_def comp_def del: de_Morgan_conj)

lemma tm_Get_eq:
  "tm_Get c i items =
     ((case lookup_visible c i (tm_table items) of
         None \<Rightarrow> Inl Tr_ErrNotFound | Some (t, u) \<Rightarrow> Inr t), items)"
  by (auto simp: tm_Get_def lookup_visible_def tm_table_apply record_pair_def sees_def Let_def
      split: option.splits)

lemma tm_Update_eq:
  "tm_Update c t items =
     (case lookup_visible c (tr_ID t) (tm_table items) of
        None \<Rightarrow> (Inl Tr_ErrNotFound, items)
      | Some (t0, u) \<Rightarrow> (Inr t, items(tr_ID t \<mapsto> \<lparr>tm_transfer = t, tm_userID = u\<rparr>)))"
  by (auto simp: tm_Update_def lookup_visible_def tm_table_apply record_pair_def sees_def Let_def
      split: option.splits)

lemma keyed_upd: "keyed T \<Longrightarrow> no_urls t \<Longrightarrow> keyed (T(tr_ID t \<mapsto> (t, u)))"
  by (auto simp: keyed_def)

interpretation tmem: reliable_transfer_store memory_repo tm_table tm_invar
proof unfold_locales
  fix items c ks rl items'
  assume "trp_List memory_repo c ks items = (rl, items')" "tm_invar items"
  then show "(case rl of
         Inl e \<Rightarrow> \<exists>m. e = Tr_Err m
       | Inr ts \<Rightarrow>
           mset ts = mset (map fst (filter (\<lambda>(t, u). sees c u) (range_values ks (tm_table items)))) \<and>
           sorted_wrt (\<lambda>x y. tr_CreatedAt y \<le> tr_CreatedAt x) ts)"
    using sorted_wrt_sort_key_desc [of tr_CreatedAt]
    by (auto simp: tm_List_eq)
qed (auto simp: tm_invar_def tm_Create_def tm_Get_eq tm_Update_eq keyed_upd
      tm_List_eq split: option.splits prod.splits)

end
