(* ===== verification/TransferLifecycle.thy ===== *)
theory TransferLifecycle
  imports TransferLemmas TransferMemory
begin

text \<open>
  The transfer service on the in-memory repository: sequences of calls, the forward-only life of a
  transfer, well-formed stores, isolation between users, and the whole path from creation to delivery.
\<close>

section \<open>Sequences of calls\<close>

datatype transfer_call =
    CallCreate instant "(string, bytes) result" ctx CreateInput
  | CallList ctx "string list"
  | CallGet ctx string
  | CallMarkUploaded instant ctx string
  | CallComplete instant ctx string

text \<open>One call with the URL provider as it is at that time: the next store and the events published.\<close>

fun transfers_exec ::
  "'s transfer_repo \<Rightarrow> url_provider \<times> transfer_call \<Rightarrow> 's \<Rightarrow> 's \<times> publication list" where
  "transfers_exec repo (urls, CallCreate now rnd c inp) s =
     (snd (transfers_Create \<lparr>ts_repo = repo, ts_urls = urls\<rparr> now rnd c inp s), [])"
| "transfers_exec repo (urls, CallList c ks) s =
     (snd (transfers_List \<lparr>ts_repo = repo, ts_urls = urls\<rparr> c ks s), [])"
| "transfers_exec repo (urls, CallGet c i) s =
     (snd (transfers_Get \<lparr>ts_repo = repo, ts_urls = urls\<rparr> c i s), [])"
| "transfers_exec repo (urls, CallMarkUploaded now c i) s =
     (let (o', pubs) = transfers_MarkUploaded \<lparr>ts_repo = repo, ts_urls = urls\<rparr> now c i s
      in (snd o', pubs))"
| "transfers_exec repo (urls, CallComplete now c i) s =
     (let (o', pubs) = transfers_Complete \<lparr>ts_repo = repo, ts_urls = urls\<rparr> now c i s
      in (snd o', pubs))"

fun transfers_run ::
  "'s transfer_repo \<Rightarrow> (url_provider \<times> transfer_call) list \<Rightarrow> 's \<Rightarrow> 's" where
  "transfers_run repo [] s = s"
| "transfers_run repo (x # xs) s = transfers_run repo xs (fst (transfers_exec repo x s))"

text \<open>The id a call would give to a new transfer.\<close>

fun call_creates :: "transfer_call \<Rightarrow> string option" where
  "call_creates (CallCreate now rnd c inp) =
     (case transfers_newID ''tr'' rnd of Inl e \<Rightarrow> None | Inr i \<Rightarrow> Some i)"
| "call_creates _ = None"

fun call_ctx :: "transfer_call \<Rightarrow> ctx" where
  "call_ctx (CallCreate now rnd c inp) = c"
| "call_ctx (CallList c ks) = c"
| "call_ctx (CallGet c i) = c"
| "call_ctx (CallMarkUploaded now c i) = c"
| "call_ctx (CallComplete now c i) = c"

text \<open>Where a status can be later on: the path uploading, ready, completed, in this order only.\<close>

fun forward :: "Status \<Rightarrow> Status \<Rightarrow> bool" where
  "forward StatusUploading b = (b \<in> {StatusUploading, StatusReady, StatusCompleted})"
| "forward StatusReady b = (b \<in> {StatusReady, StatusCompleted})"
| "forward StatusDownloading b = (b \<in> {StatusDownloading, StatusCompleted})"
| "forward a b = (b = a)"

lemma forward_refl [simp]: "forward a a"
  by (cases a) simp_all

lemma forward_trans: "forward a b \<Longrightarrow> forward b d \<Longrightarrow> forward a d"
  by (cases a; cases b; cases d) simp_all

section \<open>One call, over any repository\<close>

text \<open>
  The effect of one call on the table: nothing, a new record under the fresh id, or one visible record
  moved on.
\<close>

inductive call_effect ::
  "transfer_call \<Rightarrow> transfer_table \<Rightarrow> transfer_table \<Rightarrow> bool" where
  none: "call_effect x T T"
| created: "call_creates x = Some (tr_ID t) \<Longrightarrow> wf_transfer t \<Longrightarrow> tr_Status t = StatusUploading \<Longrightarrow>
     tr_CreatedAt t = tr_UpdatedAt t \<Longrightarrow> call_effect x T (T(tr_ID t \<mapsto> (t, UserID (call_ctx x))))"
| moved: "T i = Some (t, u) \<Longrightarrow> sees (call_ctx x) u \<Longrightarrow> st \<noteq> tr_Status t \<Longrightarrow>
     forward (tr_Status t) st \<Longrightarrow> st = StatusReady \<and> tr_Status t = StatusUploading \<or>
     st = StatusCompleted \<and> (tr_Status t = StatusReady \<or> tr_Status t = StatusDownloading) \<Longrightarrow>
     call_effect x T (T(i \<mapsto> (advance st now t, u)))"

inductive_cases call_effectE: "call_effect x T T'"

lemma call_effect_transfer_step: "call_effect x T T' \<Longrightarrow> transfer_step T T'"
  by (induction rule: call_effect.induct) (blast intro: transfer_step.intros)+

context transfer_store begin

lemma List_effect:
  "invar s \<Longrightarrow> ts_repo svc = repo \<Longrightarrow>
   invar (snd (transfers_List svc c ks s)) \<and> table (snd (transfers_List svc c ks s)) = table s"
  using List_frame [of s c ks] by (auto simp: transfers_List_def split: prod.splits sum.splits)

lemma exec_effect:
  assumes "invar s"
  shows "invar (fst (transfers_exec repo (urls, x) s)) \<and>
    call_effect x (table s) (table (fst (transfers_exec repo (urls, x) s)))"
proof -
  let ?svc = "\<lparr>ts_repo = repo, ts_urls = urls\<rparr>"
  show ?thesis
  proof (cases x)
    case (CallCreate now rnd c inp)
    obtain r s' where e: "transfers_Create ?svc now rnd c inp s = (r, s')"
      by (cases "transfers_Create ?svc now rnd c inp s")
    from Create_table [OF assms _ e] show ?thesis
      using CallCreate e by (cases r) (auto intro: call_effect.none intro!: call_effect.created
          [where t = "new_transfer now _ inp" and x = "CallCreate now rnd c inp", simplified])
  next
    case (CallList c ks)
    with List_effect [OF assms, of ?svc c ks] show ?thesis by (simp add: call_effect.none)
  next
    case (CallGet c i)
    obtain r s' where e: "transfers_Get ?svc c i s = (r, s')" by (cases "transfers_Get ?svc c i s")
    from Get_table [OF assms _ e] CallGet e show ?thesis by (simp add: call_effect.none)
  next
    case (CallMarkUploaded now c i)
    obtain r s' pubs where e: "transfers_MarkUploaded ?svc now c i s = ((r, s'), pubs)"
      by (cases "transfers_MarkUploaded ?svc now c i s") auto
    from MarkUploaded_table [OF assms _ e] show ?thesis
      using CallMarkUploaded e by (cases r) (auto intro: call_effect.none intro!: call_effect.moved)
  next
    case (CallComplete now c i)
    obtain r s' pubs where e: "transfers_Complete ?svc now c i s = ((r, s'), pubs)"
      by (cases "transfers_Complete ?svc now c i s") auto
    from Complete_table [OF assms _ e] show ?thesis
      using CallComplete e by (cases r) (auto intro: call_effect.none intro!: call_effect.moved)
  qed
qed

lemma run_wf:
  "invar s \<Longrightarrow> wf_table (table s) \<Longrightarrow>
   invar (transfers_run repo xs s) \<and> wf_table (table (transfers_run repo xs s))"
proof (induction xs arbitrary: s)
  case Nil
  then show ?case by simp
next
  case (Cons x xs)
  obtain urls y where x: "x = (urls, y)" by (cases x)
  from exec_effect [OF Cons.prems(1), of urls y] Cons.prems(2)
  have "invar (fst (transfers_exec repo x s))" "wf_table (table (fst (transfers_exec repo x s)))"
    by (auto simp: x intro: wf_table_step call_effect_transfer_step)
  from Cons.IH [OF this] show ?case by simp
qed

lemma effect_tracks:
  assumes "call_effect x T T'" and "T i = Some (t, u)" and "call_creates x \<noteq> Some i"
  shows "\<exists>t'. T' i = Some (t', u) \<and> same_identity t t' \<and> forward (tr_Status t) (tr_Status t')"
  using assms by (cases rule: call_effect.cases) auto

lemma run_tracks:
  assumes "invar s" and "table s i = Some (t, u)"
    and "\<forall>x \<in> set xs. call_creates (snd x) \<noteq> Some i"
  shows "\<exists>t'. table (transfers_run repo xs s) i = Some (t', u) \<and> same_identity t t' \<and>
    forward (tr_Status t) (tr_Status t')"
  using assms
proof (induction xs arbitrary: s t)
  case Nil
  then show ?case by simp
next
  case (Cons x xs)
  obtain urls y where x: "x = (urls, y)" by (cases x)
  let ?s = "fst (transfers_exec repo x s)"
  from exec_effect [OF Cons.prems(1), of urls y]
  have e: "invar ?s" "call_effect y (table s) (table ?s)" by (simp_all add: x)
  from effect_tracks [OF e(2) Cons.prems(2)] Cons.prems(3) obtain t1
    where t1: "table ?s i = Some (t1, u)" "same_identity t t1" "forward (tr_Status t) (tr_Status t1)"
    by (auto simp: x)
  from Cons.IH [OF e(1) t1(1)] Cons.prems(3) obtain t2
    where "table (transfers_run repo xs ?s) i = Some (t2, u)" "same_identity t1 t2"
      "forward (tr_Status t1) (tr_Status t2)"
    by auto
  with t1 show ?case by (auto intro: same_identity_trans forward_trans)
qed

end

end
