(* ===== verification/TransferProps.thy ===== *)
theory TransferProps
  imports TransferLifecycle
begin

text \<open>
  The properties of the transfer service on the in-memory repository, with their witnesses: the
  forward-only life cycle, well-formed stores, verified readiness, isolation between users, listing,
  and delivery from end to end.
\<close>

section \<open>A concrete provider and concrete inputs\<close>

text \<open>A provider that holds one object of five bytes for every id.\<close>

definition demo_sum :: string where
  "demo_sum = replicate 64 (CHR ''a'')"

definition demo_urls :: url_provider where
  "demo_urls =
     \<lparr>urls_UploadURL = (\<lambda>c i h. Inr (''up/'' @ i)),
      urls_DownloadURL = (\<lambda>c i. Inr (''down/'' @ i)),
      urls_InspectUploaded = (\<lambda>c i. Inr (5, demo_sum))\<rparr>"

definition demo_input :: CreateInput where
  "demo_input =
     \<lparr>in_SourceDeviceID = ''dev_a'', in_DestinationDeviceID = ''dev_b'', in_Kind = KindText,
      in_DisplayName = ''note'', in_ContentType = '''', in_SizeBytes = 5, in_SHA256 = demo_sum\<rparr>"

definition alice :: ctx where "alice = ContextWithUserID background ''alice''"
definition bob :: ctx where "bob = ContextWithUserID background ''bob''"

lemma rune_count_ascii:
  "list_all (\<lambda>b. b < 128) bs \<Longrightarrow> rune_count bs = length bs"
proof (induction bs)
  case Nil
  then show ?case by (simp add: rune_count.simps)
next
  case (Cons b bs)
  then show ?case by (simp add: rune_count.simps [of "b # bs"])
qed

lemma demo_input_valid [simp]:
  "\<not> create_rejects demo_input" "\<not> kind_rejects (in_Kind demo_input)"
  by (simp_all add: create_rejects_def kind_rejects_def demo_input_def maxTransferBytes_def
      maxDisplayNameRunes_def maxContentTypeRunes_def checksumPattern_def demo_sum_def kind_defs
      RuneCountInString_def rune_count_ascii is_hex_digit_def hex_value_def list_all_iff)

definition demo_record :: memoryRecord where
  "demo_record = \<lparr>tm_transfer = new_transfer 7 ''tr_00'' demo_input, tm_userID = ''alice''\<rparr>"

definition demo_store :: transfer_items where
  "demo_store = [''tr_00'' \<mapsto> demo_record]"

lemma demo_store_invar [simp]: "tm_invar demo_store"
  by (auto simp: tm_invar_def keyed_def tm_table_def demo_store_def demo_record_def record_pair_def)

section \<open>Life cycle\<close>

text \<open>
  C1: once a transfer exists in the store, no sequence of service calls, by any users and with any
  behaviour of the URL provider, removes it, gives it to another user, changes what was declared about
  it (devices, kind, size, checksum, names, creation time) or moves its status against the order
  uploading, ready, completed. The only proviso is that no later creation draws the same random id.
\<close>

theorem transfer_life_moves_forward:
  assumes "tm_invar items" and "items i = Some r"
    and "\<forall>x \<in> set calls. call_creates (snd x) \<noteq> Some i"
  shows "\<exists>r'. transfers_run memory_repo calls items i = Some r' \<and> tm_userID r' = tm_userID r \<and>
    same_identity (tm_transfer r) (tm_transfer r') \<and>
    forward (tr_Status (tm_transfer r)) (tr_Status (tm_transfer r'))"
  using tmem.run_tracks [OF assms(1), of i "tm_transfer r" "tm_userID r" calls] assms(2,3)
  by (auto simp: tm_table_apply record_pair_def)

lemma transfer_life_moves_forward_witness:
  "\<exists>r'. transfers_run memory_repo
      [(demo_urls, CallMarkUploaded 8 alice ''tr_00''), (demo_urls, CallComplete 9 alice ''tr_00'')]
      demo_store ''tr_00'' = Some r' \<and> tm_userID r' = tm_userID demo_record \<and>
    same_identity (tm_transfer demo_record) (tm_transfer r') \<and>
    forward (tr_Status (tm_transfer demo_record)) (tr_Status (tm_transfer r'))"
  by (rule transfer_life_moves_forward [OF demo_store_invar]) (simp_all add: demo_store_def)

text \<open>
  C14: every store the service can reach from an empty repository holds well-formed transfers only: each
  record sits under its own id, passed the creation checks (devices named, size between 0 and 1 GiB,
  a checksum of 64 hexadecimal digits, a known kind, bounded names), is uploading, ready or completed,
  and carries no signed URL, since those are credentials that are not to be stored.
\<close>

theorem reachable_store_well_formed:
  "transfers_run memory_repo calls NewMemoryRepository i = Some r \<Longrightarrow>
   tr_ID (tm_transfer r) = i \<and> wf_transfer (tm_transfer r)"
proof -
  assume r: "transfers_run memory_repo calls NewMemoryRepository i = Some r"
  let ?s = "transfers_run memory_repo calls NewMemoryRepository"
  have "wf_table (tm_table NewMemoryRepository)"
    by (simp add: wf_table_def tm_table_def NewMemoryRepository_def)
  from tmem.run_wf [OF tm_invar_empty this, of calls] have "tm_invar ?s" "wf_table (tm_table ?s)"
    by simp_all
  moreover from r have "tm_table ?s i = Some (tm_transfer r, tm_userID r)"
    by (simp add: tm_table_apply record_pair_def)
  ultimately show ?thesis unfolding tm_invar_def keyed_def wf_table_def by blast
qed

lemma reachable_store_well_formed_witness:
  "tr_ID (new_transfer 7 ''tr_00'' demo_input) = ''tr_00'' \<and>
   wf_transfer (new_transfer 7 ''tr_00'' demo_input)"
proof -
  have "transfers_run memory_repo [(demo_urls, CallCreate 7 (Inr [CHR 0x00]) alice demo_input)]
      NewMemoryRepository ''tr_00'' =
    Some \<lparr>tm_transfer = new_transfer 7 ''tr_00'' demo_input, tm_userID = ''alice''\<rparr>"
    by (simp add: transfers_Create_def transfers_newID_def demo_urls_def 
        tm_Create_def NewMemoryRepository_def alice_def)
  from reachable_store_well_formed [OF this] show ?thesis by simp
qed

section \<open>Verified readiness\<close>

text \<open>
  C2: MarkUploaded makes a transfer ready exactly when the caller sees it, it is still uploading, the
  storage holds an object of exactly the declared size whose SHA-256 equals the declared checksum up to
  letter case, and a download URL can be signed. Then the stored record has status ready and the new
  time and nothing else changed, and exactly one transfer.ready event goes to the destination device.
  In every other case the store is unchanged, nothing is published, and the error tells which check
  failed first.
\<close>

theorem markUploaded_verifies_upload:
  assumes "tm_invar items"
    and "transfers_MarkUploaded \<lparr>ts_repo = memory_repo, ts_urls = urls\<rparr> now c i items =
      ((r, items'), pubs)"
  shows "case lookup_visible c i (tm_table items) of
      None \<Rightarrow> r = Inl Tr_ErrNotFound \<and> items' = items \<and> pubs = []
    | Some (t, u) \<Rightarrow>
        if tr_Status t \<noteq> StatusUploading then r = Inl Tr_ErrInvalidTransition \<and> items' = items \<and> pubs = []
        else (case urls_InspectUploaded urls c i of
            Inl Fs_ErrNotExist \<Rightarrow> r = Inl Tr_ErrUploadMissing \<and> items' = items \<and> pubs = []
          | Inl (Fs_Err e) \<Rightarrow> r = Inl (Tr_Err e) \<and> items' = items \<and> pubs = []
          | Inr (n, h) \<Rightarrow>
              if n = tr_SizeBytes t \<and> ToLower h = ToLower (tr_SHA256 t) then
                (case urls_DownloadURL urls c i of
                   Inl e \<Rightarrow> r = Inl (Tr_Err e) \<and> items' = items \<and> pubs = []
                 | Inr url \<Rightarrow>
                     r = Inr ((advance StatusReady now t)\<lparr>tr_DownloadURL := url\<rparr>) \<and>
                     items' = items(i \<mapsto> \<lparr>tm_transfer = advance StatusReady now t, tm_userID = u\<rparr>) \<and>
                     pubs = [ready_event t])
              else r = Inl Tr_ErrUploadIntegrity \<and> items' = items \<and> pubs = [])"
proof -
  have key: "tr_ID t = i" if "lookup_visible c i (tm_table items) = Some (t, u)" for t u
    using that assms(1) by (auto simp: lookup_visible_Some tm_invar_def keyed_def)
  have upd: "tm_Update c (advance StatusReady now t) items =
      (Inr (advance StatusReady now t),
       items(i \<mapsto> \<lparr>tm_transfer = advance StatusReady now t, tm_userID = u\<rparr>))"
    if "lookup_visible c i (tm_table items) = Some (t, u)" for t u
    using that key [OF that] by (simp add: tm_Update_eq)
  show ?thesis
  proof (cases "lookup_visible c i (tm_table items)")
    case None
    with assms(2) show ?thesis
      by (simp add: transfers_MarkUploaded_def  tm_Get_eq)
  next
    case (Some p)
    obtain t u where p: "p = (t, u)" by (cases p)
    from assms(2) Some p upd [of t u] show ?thesis
      by (auto simp: transfers_MarkUploaded_def  tm_Get_eq markUploaded_check_def
          markUploaded_commit_def ready_event_def realtimePayload_def EqualFold_def
          advance_def [symmetric] split: sum.splits fs_error.splits if_splits)
  qed
qed

lemma markUploaded_verifies_upload_witness:
  "transfers_MarkUploaded \<lparr>ts_repo = memory_repo, ts_urls = demo_urls\<rparr> 8 alice ''tr_00'' demo_store =
     ((Inr ((advance StatusReady 8 (tm_transfer demo_record))\<lparr>tr_DownloadURL := ''down/tr_00''\<rparr>),
       demo_store(''tr_00'' \<mapsto> \<lparr>tm_transfer = advance StatusReady 8 (tm_transfer demo_record),
                                tm_userID = ''alice''\<rparr>)),
      [ready_event (tm_transfer demo_record)])"
proof -
  obtain r items' pubs
    where e: "transfers_MarkUploaded \<lparr>ts_repo = memory_repo, ts_urls = demo_urls\<rparr> 8 alice ''tr_00''
      demo_store = ((r, items'), pubs)"
    by (metis prod.exhaust)
  have v: "lookup_visible alice ''tr_00'' (tm_table demo_store) = Some (tm_transfer demo_record, ''alice'')"
    by (simp add: lookup_visible_Some tm_table_apply demo_store_def demo_record_def record_pair_def
        sees_def alice_def)
  have "tr_SizeBytes (tm_transfer demo_record) = 5" "tr_SHA256 (tm_transfer demo_record) = demo_sum"
    "tr_Status (tm_transfer demo_record) = StatusUploading"
    by (simp_all add: demo_record_def new_transfer_def demo_input_def)
  with markUploaded_verifies_upload [OF demo_store_invar e] e v show ?thesis
    by (simp add: demo_urls_def)
qed

section \<open>Isolation between users\<close>

text \<open>The part of the store a context can see.\<close>

definition visible_part :: "ctx \<Rightarrow> transfer_items \<Rightarrow> transfer_items" where
  "visible_part c items =
     (\<lambda>i. case items i of None \<Rightarrow> None | Some r \<Rightarrow> if sees c (tm_userID r) then Some r else None)"

lemma visible_part_lookup:
  "visible_part c a = visible_part c b \<Longrightarrow>
   lookup_visible c i (tm_table a) = lookup_visible c i (tm_table b)"
  by (drule fun_cong [where x = i])
    (auto simp: visible_part_def lookup_visible_def tm_table_apply record_pair_def
      split: option.splits if_splits)

lemma visible_part_upd:
  "visible_part c (a(i \<mapsto> r)) =
     (if sees c (tm_userID r) then (visible_part c a)(i \<mapsto> r) else (visible_part c a)(i := None))"
  by (auto simp: visible_part_def fun_eq_iff)

lemma tm_Update_isolated:
  assumes "visible_part c a = visible_part c b"
  shows "fst (tm_Update c t a) = fst (tm_Update c t b) \<and>
    visible_part c (snd (tm_Update c t a)) = visible_part c (snd (tm_Update c t b))"
  using visible_part_lookup [OF assms, of "tr_ID t"] assms
  by (auto simp: tm_Update_eq visible_part_upd lookup_visible_Some split: option.splits)

text \<open>Two outcomes a user cannot tell apart: same result, same events, same visible records after.\<close>

definition agree ::
  "ctx \<Rightarrow> (transfer_error, Transfer, transfer_items) outcome \<times> publication list \<Rightarrow>
   (transfer_error, Transfer, transfer_items) outcome \<times> publication list \<Rightarrow> bool" where
  "agree c x y \<longleftrightarrow>
     fst (fst x) = fst (fst y) \<and> snd x = snd y \<and>
     visible_part c (snd (fst x)) = visible_part c (snd (fst y))"

lemma commits_agree:
  assumes "visible_part c a = visible_part c b"
  shows "agree c (markUploaded_commit memory_repo c t url a) (markUploaded_commit memory_repo c t url b)"
    and "agree c (complete_commit memory_repo c t url a) (complete_commit memory_repo c t url b)"
  using tm_Update_isolated [OF assms, of t]
  by (auto simp: agree_def markUploaded_commit_def complete_commit_def  Let_def
      split: prod.splits sum.splits)

lemma MarkUploaded_memory:
  "transfers_MarkUploaded \<lparr>ts_repo = memory_repo, ts_urls = urls\<rparr> now c i items =
     (case lookup_visible c i (tm_table items) of
        None \<Rightarrow> ((Inl Tr_ErrNotFound, items), [])
      | Some (t, u) \<Rightarrow>
          (case markUploaded_check urls now c i t of
             Inl e \<Rightarrow> ((Inl e, items), [])
           | Inr (t', url) \<Rightarrow> markUploaded_commit memory_repo c t' url items))"
  by (simp add: transfers_MarkUploaded_def  tm_Get_eq split: option.splits prod.splits sum.splits)

lemma Complete_memory:
  "transfers_Complete \<lparr>ts_repo = memory_repo, ts_urls = urls\<rparr> now c i items =
     (case lookup_visible c i (tm_table items) of
        None \<Rightarrow> ((Inl Tr_ErrNotFound, items), [])
      | Some (t, u) \<Rightarrow>
          (case complete_check urls now c i t of
             Inl e \<Rightarrow> ((Inl e, items), [])
           | Inr (t', url) \<Rightarrow> complete_commit memory_repo c t' url items))"
  by (simp add: transfers_Complete_def  tm_Get_eq split: option.splits prod.splits sum.splits)

lemma Get_memory:
  "transfers_Get \<lparr>ts_repo = memory_repo, ts_urls = urls\<rparr> c i items =
     ((case lookup_visible c i (tm_table items) of
         None \<Rightarrow> Inl Tr_ErrNotFound | Some (t, u) \<Rightarrow> transfers_decorate urls c t), items)"
  by (simp add: transfers_Get_def  tm_Get_eq split: option.splits prod.splits)

lemma agree_same: "visible_part c a = visible_part c b \<Longrightarrow> agree c ((r, a), ps) ((r, b), ps)"
  by (simp add: agree_def)



text \<open>
  A call made for one user never touches another user's transfer. Whatever the call is, a record
  that the caller's context does not see is the same after it, unless the call created a transfer under
  the very id of that record.
\<close>

lemma calls_leave_other_users_alone:
  assumes "tm_invar items" and "items i = Some r" and "\<not> sees (call_ctx x) (tm_userID r)"
    and "call_creates x \<noteq> Some i"
  shows "fst (transfers_exec memory_repo (urls, x) items) i = Some r"
proof -
  let ?s = "fst (transfers_exec memory_repo (urls, x) items)"
  from tmem.exec_effect [OF assms(1), of urls x]
  have "call_effect x (tm_table items) (tm_table ?s)" by simp
  then have "tm_table ?s i = tm_table items i"
    by (rule call_effectE) (use assms(2-4) in \<open>auto simp: tm_table_apply record_pair_def\<close>)
  with assms(2) show ?thesis
    by (auto simp: tm_table_apply record_pair_def intro: memoryRecord.equality)
qed

lemma calls_leave_other_users_alone_example:
  "fst (transfers_exec memory_repo (demo_urls, CallMarkUploaded 8 bob ''tr_00'') demo_store) ''tr_00'' =
   Some demo_record"
  by (rule calls_leave_other_users_alone [OF demo_store_invar])
    (simp_all add: demo_store_def demo_record_def sees_def bob_def)

section \<open>Listing\<close>

text \<open>
  List returns each transfer of the user exactly once and no other, newest first, whatever order the
  map is ranged over; each comes with the URL its status calls for (an upload URL while uploading, a
  download URL when ready, downloading or completed) and is otherwise the stored transfer. It fails
  only when a URL cannot be signed, and never changes the store.
\<close>

lemma list_returns_own_transfers:
  assumes "enumerates ks items"
  shows "snd (transfers_List \<lparr>ts_repo = memory_repo, ts_urls = urls\<rparr> c ks items) = items \<and>
    (\<exists>ts. mset ts = mset (map tm_transfer (filter (\<lambda>r. sees c (tm_userID r)) (range_values ks items))) \<and>
       sorted_wrt (\<lambda>x y. tr_CreatedAt y \<le> tr_CreatedAt x) ts \<and>
       (case fst (transfers_List \<lparr>ts_repo = memory_repo, ts_urls = urls\<rparr> c ks items) of
          Inr ds \<Rightarrow> list_all2 (\<lambda>t d. transfers_decorate urls c t = Inr d) ts ds
        | Inl e \<Rightarrow> \<exists>t \<in> set ts. transfers_decorate urls c t = Inl e))"
proof -
  have dec: "case decorate_all urls c ts of
      Inr ds \<Rightarrow> list_all2 (\<lambda>t d. transfers_decorate urls c t = Inr d) ts ds
    | Inl e \<Rightarrow> \<exists>t \<in> set ts. transfers_decorate urls c t = Inl e" for ts
    by (induction ts) (auto split: sum.splits)
  let ?ts = "sort_key (\<lambda>t. - tr_CreatedAt t)
    (map fst (filter (\<lambda>(t, u). sees c u) (range_values ks (tm_table items))))"
  have "mset ?ts = mset (map tm_transfer (filter (\<lambda>r. sees c (tm_userID r)) (range_values ks items)))"
    by (simp add: range_values_tm_table filter_map record_pair_def comp_def)
  with dec [of ?ts] sorted_wrt_sort_key_desc [of tr_CreatedAt] show ?thesis
    by (intro conjI exI [of _ ?ts]) (simp_all add: transfers_List_def  tm_List_eq)
qed

lemma list_returns_own_transfers_example:
  "enumerates [''tr_00''] demo_store \<and>
   (\<exists>ts. mset ts = mset [tm_transfer demo_record] \<and>
     (case fst (transfers_List \<lparr>ts_repo = memory_repo, ts_urls = demo_urls\<rparr> alice [''tr_00''] demo_store) of
        Inr ds \<Rightarrow> list_all2 (\<lambda>t d. transfers_decorate demo_urls alice t = Inr d) ts ds
      | Inl e \<Rightarrow> \<exists>t \<in> set ts. transfers_decorate demo_urls alice t = Inl e))"
proof -
  have h: "enumerates [''tr_00''] demo_store"
    by (auto simp: enumerates_def demo_store_def)
  have v: "map tm_transfer (filter (\<lambda>r. sees alice (tm_userID r)) (range_values [''tr_00''] demo_store)) =
      [tm_transfer demo_record]"
    by (simp add: range_values_Cons demo_store_def demo_record_def sees_def alice_def)
  from list_returns_own_transfers [OF h, of demo_urls alice] h show ?thesis unfolding v by blast
qed

section \<open>Delivery\<close>

text \<open>
  C24: the path of the README works end to end. For any accepted input and a storage that signs URLs and
  holds an object of the declared size and checksum, creating a transfer, marking it uploaded and
  completing it all succeed for its user, publish transfer.ready to the destination and then
  transfer.completed to the source, and leave the transfer completed in the store.
\<close>

theorem transfer_is_delivered:
  assumes "\<not> create_rejects inp" and "\<not> kind_rejects (in_Kind inp)"
    and "\<And>i h. urls_UploadURL urls c i h = Inr (up i)" and "\<And>i. urls_DownloadURL urls c i = Inr (down i)"
    and "\<And>i. urls_InspectUploaded urls c i = Inr (in_SizeBytes inp, ToLower (in_SHA256 inp))"
  shows "\<exists>i t t1 t2 s0 s1 s2.
    transfers_Create \<lparr>ts_repo = memory_repo, ts_urls = urls\<rparr> now0 (Inr rnd) c inp items = (Inr t, s0) \<and>
    i = tr_ID t \<and>
    transfers_MarkUploaded \<lparr>ts_repo = memory_repo, ts_urls = urls\<rparr> now1 c i s0 =
      ((Inr t1, s1), [ready_event (new_transfer now0 i inp)]) \<and>
    transfers_Complete \<lparr>ts_repo = memory_repo, ts_urls = urls\<rparr> now2 c i s1 =
      ((Inr t2, s2), [completed_event (new_transfer now0 i inp)]) \<and>
    map_option (tr_Status \<circ> tm_transfer) (s2 i) = Some StatusCompleted"
proof -
  let ?svc = "\<lparr>ts_repo = memory_repo, ts_urls = urls\<rparr>"
  define i where "i = ''tr'' @ ''_'' @ hex_EncodeToString rnd"
  define t where "t = new_transfer now0 i inp"
  define rec where "rec = (\<lambda>t. \<lparr>tm_transfer = t, tm_userID = UserID c\<rparr>)"
  let ?s0 = "items(i \<mapsto> rec t)"
  let ?s1 = "items(i \<mapsto> rec (advance StatusReady now1 t))"
  let ?s2 = "items(i \<mapsto> rec (advance StatusCompleted now2 (advance StatusReady now1 t)))"
  have fields: "tr_ID t = i" "tr_Status t = StatusUploading" "tr_SizeBytes t = in_SizeBytes inp"
    "tr_SHA256 t = in_SHA256 inp"
    by (simp_all add: t_def new_transfer_def)
  have vis: "lookup_visible c i (tm_table (items(i \<mapsto> rec x))) = Some (x, UserID c)" for x
    by (simp add: lookup_visible_Some rec_def sees_def)
  have cr: "transfers_Create ?svc now0 (Inr rnd) c inp items = (Inr (t\<lparr>tr_UploadURL := up i\<rparr>), ?s0)"
    using assms(1-3) by (simp add: transfers_Create_def transfers_newID_def 
        tm_Create_def t_def i_def rec_def)
  have chk1: "markUploaded_check urls now1 c i t = Inr (advance StatusReady now1 t, down i)"
    using assms(4,5) fields by (simp add: markUploaded_check_Inr)
  have mu: "transfers_MarkUploaded ?svc now1 c i ?s0 =
      ((Inr ((advance StatusReady now1 t)\<lparr>tr_DownloadURL := down i\<rparr>), ?s1), [ready_event t])"
    using vis [of t] chk1 fields
    by (simp add: MarkUploaded_memory markUploaded_commit_def  tm_Update_eq rec_def
        ready_event_def realtimePayload_def)
  have chk2: "complete_check urls now2 c i (advance StatusReady now1 t) =
      Inr (advance StatusCompleted now2 (advance StatusReady now1 t), down i)"
    using assms(4) by (simp add: complete_check_Inr)
  have co: "transfers_Complete ?svc now2 c i ?s1 =
      ((Inr ((advance StatusCompleted now2 (advance StatusReady now1 t))\<lparr>tr_DownloadURL := down i\<rparr>), ?s2),
       [completed_event t])"
    using vis [of "advance StatusReady now1 t"] chk2 fields
    by (simp add: Complete_memory complete_commit_def  tm_Update_eq rec_def
        completed_event_def realtimePayload_def)
  have id: "i = tr_ID (t\<lparr>tr_UploadURL := up i\<rparr>)"
    by (simp add: fields)
  have fin: "map_option (tr_Status \<circ> tm_transfer) (?s2 i) = Some StatusCompleted"
    by (simp add: rec_def)
  from cr id mu co fin show ?thesis unfolding t_def by blast
qed

lemma transfer_is_delivered_witness:
  "\<exists>i t t1 t2 s0 s1 s2.
    transfers_Create \<lparr>ts_repo = memory_repo, ts_urls = demo_urls\<rparr> 1 (Inr []) alice demo_input demo_store =
      (Inr t, s0) \<and> i = tr_ID t \<and>
    transfers_MarkUploaded \<lparr>ts_repo = memory_repo, ts_urls = demo_urls\<rparr> 2 alice i s0 =
      ((Inr t1, s1), [ready_event (new_transfer 1 i demo_input)]) \<and>
    transfers_Complete \<lparr>ts_repo = memory_repo, ts_urls = demo_urls\<rparr> 3 alice i s1 =
      ((Inr t2, s2), [completed_event (new_transfer 1 i demo_input)]) \<and>
    map_option (tr_Status \<circ> tm_transfer) (s2 i) = Some StatusCompleted"
  by (rule transfer_is_delivered [where up = "\<lambda>i. ''up/'' @ i" and down = "\<lambda>i. ''down/'' @ i",
        OF demo_input_valid])
    (simp_all add: demo_urls_def demo_input_def demo_sum_def ToLower_def lower_char_def)

end
