(* ===== verification/TransferConcurrency.thy ===== *)
theory TransferConcurrency
  imports TransferProps
begin

text \<open>
  Concurrent requests on one in-memory repository. The repository locks each method, not the pair of a
  read and the write that follows it, so MarkUploaded and Complete take two steps with other requests
  in between. This theory holds the interleaved system, what survives the interleaving, and the run in
  which a delivered transfer becomes ready again.
\<close>

section \<open>The interleaved system\<close>

text \<open>A request between its read and its write: what it is about to write, and the URL it will return.\<close>

datatype pending_write =
    PendReady ctx Transfer string
  | PendComplete ctx Transfer string

record conc_state =
  cs_items :: transfer_items
  cs_pending :: "nat \<rightharpoonup> pending_write"

text \<open>
  Requests are numbered. Create, List and Get use the repository once, so they are single steps; a
  creation draws an id that is not in use.
\<close>

inductive conc_step :: "conc_state \<Rightarrow> conc_state \<Rightarrow> bool" where
  single: "(case x of CallCreate now rnd c inp \<Rightarrow>
              (\<forall>i. call_creates x = Some i \<longrightarrow> cs_items s i = None)
            | CallList c ks \<Rightarrow> True | CallGet c i \<Rightarrow> True | _ \<Rightarrow> False) \<Longrightarrow>
     conc_step s (s\<lparr>cs_items := fst (transfers_exec memory_repo (urls, x) (cs_items s))\<rparr>)"
| read_ready: "cs_pending s p = None \<Longrightarrow> fst (tm_Get c i (cs_items s)) = Inr t \<Longrightarrow>
     markUploaded_check urls now c i t = Inr (t', url) \<Longrightarrow>
     conc_step s (s\<lparr>cs_pending := (cs_pending s)(p \<mapsto> PendReady c t' url)\<rparr>)"
| read_complete: "cs_pending s p = None \<Longrightarrow> fst (tm_Get c i (cs_items s)) = Inr t \<Longrightarrow>
     complete_check urls now c i t = Inr (t', url) \<Longrightarrow>
     conc_step s (s\<lparr>cs_pending := (cs_pending s)(p \<mapsto> PendComplete c t' url)\<rparr>)"
| write_ready: "cs_pending s p = Some (PendReady c t' url) \<Longrightarrow>
     conc_step s (s\<lparr>cs_items := snd (fst (markUploaded_commit memory_repo c t' url (cs_items s))),
                   cs_pending := (cs_pending s)(p := None)\<rparr>)"
| write_complete: "cs_pending s p = Some (PendComplete c t' url) \<Longrightarrow>
     conc_step s (s\<lparr>cs_items := snd (fst (complete_commit memory_repo c t' url (cs_items s))),
                   cs_pending := (cs_pending s)(p := None)\<rparr>)"

lemma commit_store:
  "snd (fst (markUploaded_commit memory_repo c t url items)) = snd (tm_Update c t items)"
  "snd (fst (complete_commit memory_repo c t url items)) = snd (tm_Update c t items)"
  by (auto simp: markUploaded_commit_def complete_commit_def Let_def split: prod.splits sum.splits)

text \<open>A sequential call is the read followed at once by the write.\<close>

lemma sequential_MarkUploaded_steps:
  assumes "fst (tm_Get c i items) = Inr t" and "markUploaded_check urls now c i t = Inr (t', url)"
  shows "conc_step\<^sup>*\<^sup>* \<lparr>cs_items = items, cs_pending = Map.empty\<rparr>
    \<lparr>cs_items = snd (fst (transfers_MarkUploaded \<lparr>ts_repo = memory_repo, ts_urls = urls\<rparr> now c i items)),
     cs_pending = Map.empty\<rparr>"
proof -
  have "conc_step \<lparr>cs_items = items, cs_pending = Map.empty\<rparr>
      \<lparr>cs_items = items, cs_pending = [0 \<mapsto> PendReady c t' url]\<rparr>"
    using read_ready [of "\<lparr>cs_items = items, cs_pending = Map.empty\<rparr>" 0 c i t urls now t' url] assms
    by simp
  moreover have "conc_step \<lparr>cs_items = items, cs_pending = [0 \<mapsto> PendReady c t' url]\<rparr>
      \<lparr>cs_items = snd (fst (markUploaded_commit memory_repo c t' url items)), cs_pending = Map.empty\<rparr>"
    using write_ready [of "\<lparr>cs_items = items, cs_pending = [0 \<mapsto> PendReady c t' url]\<rparr>" 0 c t' url]
    by simp
  moreover have "transfers_MarkUploaded \<lparr>ts_repo = memory_repo, ts_urls = urls\<rparr> now c i items =
      markUploaded_commit memory_repo c t' url items"
    using assms by (auto simp: MarkUploaded_memory tm_Get_eq split: option.splits)
  ultimately show ?thesis by (simp add: converse_rtranclp_into_rtranclp)
qed

section \<open>What survives\<close>

text \<open>
  Every pending write still names a stored record with the same identity, and writes ready or
  completed.
\<close>

fun pending_transfer :: "pending_write \<Rightarrow> Transfer" where
  "pending_transfer (PendReady c t url) = t"
| "pending_transfer (PendComplete c t url) = t"

definition conc_inv :: "conc_state \<Rightarrow> bool" where
  "conc_inv s \<longleftrightarrow> tm_invar (cs_items s) \<and>
     (\<forall>p w. cs_pending s p = Some w \<longrightarrow>
        no_urls (pending_transfer w) \<and>
        tr_Status (pending_transfer w) \<in> {StatusReady, StatusCompleted} \<and>
        (\<exists>r. cs_items s (tr_ID (pending_transfer w)) = Some r \<and>
             same_identity (tm_transfer r) (pending_transfer w)))"

text \<open>What a step keeps of each stored record.\<close>

definition keeps_record :: "memoryRecord \<Rightarrow> memoryRecord \<Rightarrow> bool" where
  "keeps_record r r' \<longleftrightarrow>
     tm_userID r' = tm_userID r \<and> same_identity (tm_transfer r) (tm_transfer r') \<and>
     (tr_Status (tm_transfer r) \<noteq> StatusUploading \<longrightarrow> tr_Status (tm_transfer r') \<noteq> StatusUploading)"

definition keeps :: "transfer_items \<Rightarrow> transfer_items \<Rightarrow> bool" where
  "keeps a b \<longleftrightarrow> (\<forall>i r. a i = Some r \<longrightarrow> (\<exists>r'. b i = Some r' \<and> keeps_record r r'))"

lemma same_identity_sym: "same_identity a b \<Longrightarrow> same_identity b a"
  by (simp add: same_identity_def)

lemma keeps_record_refl [simp]: "keeps_record r r"
  by (simp add: keeps_record_def)

lemma keeps_record_trans: "keeps_record a b \<Longrightarrow> keeps_record b d \<Longrightarrow> keeps_record a d"
  by (auto simp: keeps_record_def intro: same_identity_trans)

lemma keeps_refl [simp]: "keeps a a"
  by (auto simp: keeps_def)

lemma keeps_trans: "keeps a b \<Longrightarrow> keeps b d \<Longrightarrow> keeps a d"
  unfolding keeps_def by (meson keeps_record_trans)

lemma keeps_pending:
  assumes "keeps a b" and "a i = Some r" and "same_identity (tm_transfer r) t"
  shows "\<exists>r'. b i = Some r' \<and> same_identity (tm_transfer r') t"
proof -
  from assms(1,2) obtain r' where "b i = Some r'" "keeps_record r r'" by (auto simp: keeps_def)
  with assms(3) show ?thesis
    by (auto simp: keeps_record_def intro: same_identity_trans same_identity_sym)
qed

lemma tm_invar_Update:
  "tm_invar items \<Longrightarrow> no_urls t \<Longrightarrow> tm_invar (snd (tm_Update c t items))"
  by (auto simp: tm_invar_def tm_Update_eq keyed_upd split: option.splits)

lemma keeps_Update:
  assumes "items (tr_ID t) = Some r" and "same_identity (tm_transfer r) t"
    and "tr_Status t \<noteq> StatusUploading"
  shows "keeps items (snd (tm_Update c t items))"
  using assms
  by (auto simp: keeps_def keeps_record_def tm_Update_eq lookup_visible_Some tm_table_apply record_pair_def
      split: option.splits)

lemma single_keeps:
  assumes "tm_invar items"
    and "case x of CallCreate now rnd c inp \<Rightarrow> (\<forall>i. call_creates x = Some i \<longrightarrow> items i = None)
            | CallList c ks \<Rightarrow> True | CallGet c i \<Rightarrow> True | _ \<Rightarrow> False"
  shows "tm_invar (fst (transfers_exec memory_repo (urls, x) items)) \<and>
    keeps items (fst (transfers_exec memory_repo (urls, x) items))"
proof -
  let ?s = "fst (transfers_exec memory_repo (urls, x) items)"
  from tmem.exec_effect [OF assms(1), of urls x] have inv: "tm_invar ?s" by simp
  have "keeps items ?s"
    unfolding keeps_def
  proof (intro allI impI)
    fix i r
    assume r: "items i = Some r"
    have "tm_table items i = Some (tm_transfer r, tm_userID r)"
      using r by (simp add: tm_table_apply record_pair_def)
    moreover have "\<forall>y \<in> set [(urls, x)]. call_creates (snd y) \<noteq> Some i"
      using assms(2) r by (cases x) auto
    ultimately obtain t' where "tm_table ?s i = Some (t', tm_userID r)"
      "same_identity (tm_transfer r) t'" "forward (tr_Status (tm_transfer r)) (tr_Status t')"
      using tmem.run_tracks [OF assms(1), of i "tm_transfer r" "tm_userID r" "[(urls, x)]"] by auto
    then show "\<exists>r'. ?s i = Some r' \<and> keeps_record r r'"
      by (cases "tr_Status (tm_transfer r)") (auto simp: tm_table_apply record_pair_def keeps_record_def)
  qed
  with inv show ?thesis by simp
qed

lemma conc_inv_keeps:
  assumes "conc_inv s" and "tm_invar b" and "keeps (cs_items s) b"
    and "\<And>p w. q p = Some w \<Longrightarrow> cs_pending s p = Some w"
  shows "conc_inv (s\<lparr>cs_items := b, cs_pending := q\<rparr>)"
  unfolding conc_inv_def
proof (intro conjI allI impI)
  show "tm_invar (cs_items (s\<lparr>cs_items := b, cs_pending := q\<rparr>))" using assms(2) by simp
next
  fix p w
  assume "cs_pending (s\<lparr>cs_items := b, cs_pending := q\<rparr>) p = Some w"
  then have "cs_pending s p = Some w" using assms(4) by simp
  with assms(1) obtain r where w: "no_urls (pending_transfer w)"
    "tr_Status (pending_transfer w) \<in> {StatusReady, StatusCompleted}"
    "cs_items s (tr_ID (pending_transfer w)) = Some r"
    "same_identity (tm_transfer r) (pending_transfer w)"
    unfolding conc_inv_def by blast
  then show "no_urls (pending_transfer w)"
    and "tr_Status (pending_transfer w) \<in> {StatusReady, StatusCompleted}"
    and "\<exists>r. cs_items (s\<lparr>cs_items := b, cs_pending := q\<rparr>) (tr_ID (pending_transfer w)) = Some r \<and>
      same_identity (tm_transfer r) (pending_transfer w)"
    using keeps_pending [OF assms(3)] by auto
qed

lemma pending_read:
  assumes "tm_invar items" and "fst (tm_Get c i items) = Inr t"
  obtains r where "items i = Some r" "tm_transfer r = t" "tr_ID t = i"
proof -
  from assms(2) obtain u where "lookup_visible c i (tm_table items) = Some (t, u)"
    by (auto simp: tm_Get_eq split: option.splits)
  then have T: "tm_table items i = Some (t, u)" by (simp add: lookup_visible_Some)
  with assms(1) have "tr_ID t = i" unfolding tm_invar_def keyed_def by blast
  moreover from T obtain r where "items i = Some r" "tm_transfer r = t"
    by (auto simp: tm_table_apply record_pair_def)
  ultimately show ?thesis using that by blast
qed

lemma conc_step_inv: "conc_step s s' \<Longrightarrow> conc_inv s \<Longrightarrow> conc_inv s' \<and> keeps (cs_items s) (cs_items s')"
proof (induction rule: conc_step.induct)
  case (single x s urls)
  let ?b = "fst (transfers_exec memory_repo (urls, x) (cs_items s))"
  from single.prems have "tm_invar (cs_items s)" by (simp add: conc_inv_def)
  from single_keeps [OF this single.hyps] have b: "tm_invar ?b" "keeps (cs_items s) ?b" by simp_all
  from conc_inv_keeps [OF single.prems b, of "cs_pending s"] b show ?case by simp
next
  case (read_ready s p c i t urls now t' url)
  from read_ready.prems have "tm_invar (cs_items s)" by (simp add: conc_inv_def)
  from this read_ready.hyps(2) obtain r where "cs_items s i = Some r" "tm_transfer r = t" "tr_ID t = i"
    by (rule pending_read)
  with read_ready show ?case by (auto simp: conc_inv_def markUploaded_check_Inr)
next
  case (read_complete s p c i t urls now t' url)
  from read_complete.prems have "tm_invar (cs_items s)" by (simp add: conc_inv_def)
  from this read_complete.hyps(2) obtain r where "cs_items s i = Some r" "tm_transfer r = t" "tr_ID t = i"
    by (rule pending_read)
  with read_complete show ?case by (auto simp: conc_inv_def complete_check_Inr)
next
  case (write_ready s p c t' url)
  then obtain r where r: "cs_items s (tr_ID t') = Some r" "same_identity (tm_transfer r) t'"
    "no_urls t'" "tr_Status t' \<noteq> StatusUploading" "tm_invar (cs_items s)"
    unfolding conc_inv_def by force
  from keeps_Update [where items = "cs_items s" and t = t' and r = r and c = c, OF r(1,2,4)]
    tm_invar_Update [OF r(5,3), of c]
  have "keeps (cs_items s) (snd (tm_Update c t' (cs_items s)))"
    "tm_invar (snd (tm_Update c t' (cs_items s)))" by simp_all
  moreover from this have "conc_inv (s\<lparr>cs_items := snd (tm_Update c t' (cs_items s)),
      cs_pending := (cs_pending s)(p := None)\<rparr>)"
    by (intro conc_inv_keeps [OF write_ready.prems]) (auto split: if_splits)
  ultimately show ?case by (simp add: commit_store)
next
  case (write_complete s p c t' url)
  then obtain r where r: "cs_items s (tr_ID t') = Some r" "same_identity (tm_transfer r) t'"
    "no_urls t'" "tr_Status t' \<noteq> StatusUploading" "tm_invar (cs_items s)"
    unfolding conc_inv_def by force
  from keeps_Update [where items = "cs_items s" and t = t' and r = r and c = c, OF r(1,2,4)]
    tm_invar_Update [OF r(5,3), of c]
  have "keeps (cs_items s) (snd (tm_Update c t' (cs_items s)))"
    "tm_invar (snd (tm_Update c t' (cs_items s)))" by simp_all
  moreover from this have "conc_inv (s\<lparr>cs_items := snd (tm_Update c t' (cs_items s)),
      cs_pending := (cs_pending s)(p := None)\<rparr>)"
    by (intro conc_inv_keeps [OF write_complete.prems]) (auto split: if_splits)
  ultimately show ?case by (simp add: commit_store)
qed

lemma conc_steps_inv:
  "conc_step\<^sup>*\<^sup>* s s' \<Longrightarrow> conc_inv s \<Longrightarrow> conc_inv s' \<and> keeps (cs_items s) (cs_items s')"
  by (induction rule: rtranclp_induct) (auto dest: conc_step_inv intro: keeps_trans)



section \<open>What does not\<close>

section \<open>Steps on a store of one transfer\<close>

definition demo_ready :: Transfer where
  "demo_ready = advance StatusReady 8 (tm_transfer demo_record)"

definition demo_done :: Transfer where
  "demo_done = advance StatusCompleted 9 demo_ready"

definition one_store :: "Transfer \<Rightarrow> (nat \<rightharpoonup> pending_write) \<Rightarrow> conc_state" where
  "one_store t q = \<lparr>cs_items = [''tr_00'' \<mapsto> \<lparr>tm_transfer = t, tm_userID = ''alice''\<rparr>], cs_pending = q\<rparr>"

lemma one_store_simps [simp]:
  "cs_items (one_store t q) = [''tr_00'' \<mapsto> \<lparr>tm_transfer = t, tm_userID = ''alice''\<rparr>]"
  "cs_pending (one_store t q) = q"
  by (simp_all add: one_store_def)

lemma one_store_demo: "one_store (tm_transfer demo_record) Map.empty = \<lparr>cs_items = demo_store, cs_pending = Map.empty\<rparr>"
  by (simp add: one_store_def demo_store_def demo_record_def)

lemma one_get: "fst (tm_Get alice ''tr_00'' [''tr_00'' \<mapsto> \<lparr>tm_transfer = t, tm_userID = ''alice''\<rparr>]) = Inr t"
  by (simp add: tm_Get_def alice_def)

lemma one_upd:
  "tr_ID t' = ''tr_00'' \<Longrightarrow> snd (tm_Update alice t' [''tr_00'' \<mapsto> \<lparr>tm_transfer = t, tm_userID = ''alice''\<rparr>]) =
     [''tr_00'' \<mapsto> \<lparr>tm_transfer = t', tm_userID = ''alice''\<rparr>]"
  by (simp add: tm_Update_def alice_def)

lemma demo_ids [simp]: "tr_ID demo_ready = ''tr_00''" "tr_ID demo_done = ''tr_00''"
  by (simp_all add: demo_ready_def demo_done_def demo_record_def)

lemma one_read_ready:
  assumes "q p = None"
  shows "conc_step (one_store (tm_transfer demo_record) q)
    (one_store (tm_transfer demo_record) (q(p \<mapsto> PendReady alice demo_ready ''down/tr_00'')))"
proof -
  have "markUploaded_check demo_urls 8 alice ''tr_00'' (tm_transfer demo_record) = Inr (demo_ready, ''down/tr_00'')"
    by (simp add: markUploaded_check_Inr demo_urls_def demo_record_def new_transfer_def demo_input_def demo_ready_def)
  from conc_step.read_ready [where s = "one_store (tm_transfer demo_record) q" and p = p, OF _ _ this] assms
    one_get [of "tm_transfer demo_record"]
  show ?thesis by (simp add: one_store_def)
qed

lemma one_read_complete:
  assumes "q p = None"
  shows "conc_step (one_store demo_ready q) (one_store demo_ready (q(p \<mapsto> PendComplete alice demo_done ''down/tr_00'')))"
proof -
  have "complete_check demo_urls 9 alice ''tr_00'' demo_ready = Inr (demo_done, ''down/tr_00'')"
    by (simp add: complete_check_Inr demo_urls_def demo_done_def demo_ready_def)
  from conc_step.read_complete [where s = "one_store demo_ready q" and p = p, OF _ _ this] assms one_get [of demo_ready]
  show ?thesis by (simp add: one_store_def)
qed

lemma one_write_ready:
  "q p = Some (PendReady alice demo_ready u) \<Longrightarrow> conc_step (one_store t q) (one_store demo_ready (q(p := None)))"
  using conc_step.write_ready [where s = "one_store t q" and p = p, of alice demo_ready u] one_upd [of demo_ready t]
  by (simp add: one_store_def commit_store)

lemma one_write_complete:
  "q p = Some (PendComplete alice demo_done u) \<Longrightarrow> conc_step (one_store t q) (one_store demo_done (q(p := None)))"
  using conc_step.write_complete [where s = "one_store t q" and p = p, of alice demo_done u] one_upd [of demo_done t]
  by (simp add: one_store_def commit_store)

text \<open>
  C16: the order ready before completed does not survive interleaving. Two MarkUploaded requests for the
  same upload (a retry) read the record before either writes; one writes ready, the recipient
  completes the transfer, and the other one then writes ready over completed. The delivered transfer is
  ready again, although Complete had returned success.
\<close>

theorem concurrent_retry_reverts_completion:
  "\<exists>s1 s2 r1 r2. conc_step\<^sup>*\<^sup>* \<lparr>cs_items = demo_store, cs_pending = Map.empty\<rparr> s1 \<and>
     cs_items s1 ''tr_00'' = Some r1 \<and> tr_Status (tm_transfer r1) = StatusCompleted \<and>
     conc_step s1 s2 \<and> cs_items s2 ''tr_00'' = Some r2 \<and> tr_Status (tm_transfer r2) = StatusReady"
proof -
  let ?t = "tm_transfer demo_record" and ?w = "PendReady alice demo_ready ''down/tr_00''"
    and ?c = "PendComplete alice demo_done ''down/tr_00''"
  note into = rtranclp.rtrancl_into_rtrancl [of conc_step "one_store ?t Map.empty"]
  have "conc_step\<^sup>*\<^sup>* (one_store ?t Map.empty) (one_store ?t [0 \<mapsto> ?w])"
    by (rule into [OF rtranclp.rtrancl_refl]) (rule one_read_ready, simp)
  from this have "conc_step\<^sup>*\<^sup>* (one_store ?t Map.empty) (one_store ?t [0 \<mapsto> ?w, 1 \<mapsto> ?w])"
    by (rule into) (rule one_read_ready, simp)
  from this have "conc_step\<^sup>*\<^sup>* (one_store ?t Map.empty) (one_store demo_ready ([0 \<mapsto> ?w, 1 \<mapsto> ?w](0 := None)))"
    by (rule into) (rule one_write_ready, simp)
  from this have "conc_step\<^sup>*\<^sup>* (one_store ?t Map.empty) (one_store demo_ready ([0 \<mapsto> ?w, 1 \<mapsto> ?w](0 := None, 0 \<mapsto> ?c)))"
    by (rule into) (rule one_read_complete, simp)
  from this have s1: "conc_step\<^sup>*\<^sup>* (one_store ?t Map.empty)
      (one_store demo_done ([0 \<mapsto> ?w, 1 \<mapsto> ?w](0 := None, 0 \<mapsto> ?c, 0 := None)))"
    by (rule into) (rule one_write_complete, simp)
  have s2: "conc_step (one_store demo_done ([0 \<mapsto> ?w, 1 \<mapsto> ?w](0 := None, 0 \<mapsto> ?c, 0 := None)))
      (one_store demo_ready ([0 \<mapsto> ?w, 1 \<mapsto> ?w](0 := None, 0 \<mapsto> ?c, 0 := None, 1 := None)))"
    by (rule one_write_ready) simp
  have "tr_Status demo_done = StatusCompleted" "tr_Status demo_ready = StatusReady"
    by (simp_all add: demo_done_def demo_ready_def)
  with s1 [unfolded one_store_demo] s2 show ?thesis
    by (intro exI conjI) (assumption | simp)+
qed

end
