(* ===== verification/Devices.thy ===== *)
theory Devices
  imports GoEncoding
begin

text \<open>
  The device registry of \<^verbatim>\<open>server/internal/devices\<close>: the Device type and the service of service.go with
  its validation, the repository contract as the locale device_store, and the in-memory repository of
  memory_repository.go, which keeps it.
\<close>

section \<open>Data and interface (service.go)\<close>

record Device =
  dv_ID :: string
  dv_Name :: string
  dv_Platform :: string
  dv_PushToken :: string
  dv_CreatedAt :: instant

record RegisterInput =
  reg_Name :: string
  reg_Platform :: string
  reg_PushToken :: string

datatype device_error = Dev_ErrNotFound | Dev_Err string

record 's device_repo =
  dvr_Create :: "ctx \<Rightarrow> Device \<Rightarrow> 's \<Rightarrow> (device_error, Device, 's) outcome"
  dvr_List :: "ctx \<Rightarrow> string list \<Rightarrow> 's \<Rightarrow> (device_error, Device list, 's) outcome"
  dvr_Get :: "ctx \<Rightarrow> string \<Rightarrow> 's \<Rightarrow> (device_error, Device, 's) outcome"
  dvr_UpdatePushToken :: "ctx \<Rightarrow> string \<Rightarrow> string \<Rightarrow> 's \<Rightarrow> (device_error, Device, 's) outcome"
  dvr_Delete :: "ctx \<Rightarrow> string \<Rightarrow> 's \<Rightarrow> (device_error, unit, 's) outcome"

section \<open>The service\<close>

definition maxDeviceNameRunes :: int where "maxDeviceNameRunes = 120"
definition maxPushTokenRunes :: int where "maxPushTokenRunes = 4096"

definition devices_newID :: "(string, bytes) result \<Rightarrow> (string, string) result" where
  "devices_newID rnd = (case rnd of Inl e \<Rightarrow> Inl e | Inr b \<Rightarrow> Inr (''dev_'' @ hex_EncodeToString b))"

definition devices_Register ::
  "'s device_repo \<Rightarrow> instant \<Rightarrow> (string, bytes) result \<Rightarrow> ctx \<Rightarrow> RegisterInput \<Rightarrow> 's \<Rightarrow>
   (device_error, Device, 's) outcome" where
  "devices_Register repo now rnd c inp s =
     (if RuneCountInString (reg_Name inp) < 1 \<or>
         RuneCountInString (reg_Name inp) > maxDeviceNameRunes \<or>
         RuneCountInString (reg_PushToken inp) > maxPushTokenRunes \<or>
         reg_Platform inp \<noteq> ''ios'' \<and> reg_Platform inp \<noteq> ''android''
      then (Inl (Dev_Err ''invalid device''), s)
      else case devices_newID rnd of
        Inl e \<Rightarrow> (Inl (Dev_Err e), s)
      | Inr i \<Rightarrow>
          dvr_Create repo c
            \<lparr>dv_ID = i, dv_Name = reg_Name inp, dv_Platform = reg_Platform inp,
             dv_PushToken = reg_PushToken inp, dv_CreatedAt = now\<rparr> s)"

definition devices_List ::
  "'s device_repo \<Rightarrow> ctx \<Rightarrow> string list \<Rightarrow> 's \<Rightarrow> (device_error, Device list, 's) outcome" where
  "devices_List repo c ks s = dvr_List repo c ks s"

definition devices_Get ::
  "'s device_repo \<Rightarrow> ctx \<Rightarrow> string \<Rightarrow> 's \<Rightarrow> (device_error, Device, 's) outcome" where
  "devices_Get repo c i s = dvr_Get repo c i s"

definition devices_UpdatePushToken ::
  "'s device_repo \<Rightarrow> ctx \<Rightarrow> string \<Rightarrow> string \<Rightarrow> 's \<Rightarrow> (device_error, Device, 's) outcome" where
  "devices_UpdatePushToken repo c i token s =
     (if i = '''' \<or> RuneCountInString token > maxPushTokenRunes
      then (Inl (Dev_Err ''invalid push token''), s)
      else dvr_UpdatePushToken repo c i token s)"

definition devices_Delete ::
  "'s device_repo \<Rightarrow> ctx \<Rightarrow> string \<Rightarrow> 's \<Rightarrow> (device_error, unit, 's) outcome" where
  "devices_Delete repo c i s = dvr_Delete repo c i s"

section \<open>The repository contract\<close>

type_synonym device_table = "string \<rightharpoonup> Device \<times> string"

definition owned_by :: "ctx \<Rightarrow> string \<Rightarrow> bool" where
  "owned_by c u \<longleftrightarrow> UserID c = '''' \<or> u = UserID c"

definition find_device :: "ctx \<Rightarrow> string \<Rightarrow> device_table \<Rightarrow> (Device \<times> string) option" where
  "find_device c i T =
     (case T i of None \<Rightarrow> None | Some (d, u) \<Rightarrow> if owned_by c u then Some (d, u) else None)"

lemma find_device_Some: "find_device c i T = Some (d, u) \<longleftrightarrow> T i = Some (d, u) \<and> owned_by c u"
  by (auto simp: find_device_def split: option.splits)

text \<open>
  Every operation may fail with an error of the store and then changes nothing; what it does otherwise is
  fixed by the owner's view of the table.
\<close>

locale device_store =
  fixes repo :: "'s device_repo"
    and table :: "'s \<Rightarrow> device_table"
    and invar :: "'s \<Rightarrow> bool"
  assumes keyed_by_id: "invar s \<Longrightarrow> table s i = Some (d, u) \<Longrightarrow> dv_ID d = i"
    and Create_spec: "invar s \<Longrightarrow> dvr_Create repo c d s = (r, s') \<Longrightarrow>
      invar s' \<and> (case r of
        Inl e \<Rightarrow> table s' = table s
      | Inr d' \<Rightarrow> d' = d \<and> table s' = (table s)(dv_ID d \<mapsto> (d, UserID c)))"
    and List_frame: "invar s \<Longrightarrow> dvr_List repo c ks s = (rl, s') \<Longrightarrow> invar s' \<and> table s' = table s"
    and List_spec: "invar s \<Longrightarrow> enumerates ks (table s) \<Longrightarrow> dvr_List repo c ks s = (rl, s') \<Longrightarrow>
      (case rl of
         Inl e \<Rightarrow> \<exists>m. e = Dev_Err m
       | Inr ds \<Rightarrow>
           mset ds = mset (map fst (filter (\<lambda>(d, u). owned_by c u) (range_values ks (table s)))) \<and>
           sorted_wrt (\<lambda>x y. dv_CreatedAt x \<le> dv_CreatedAt y) ds)"
    and Get_spec: "invar s \<Longrightarrow> dvr_Get repo c i s = (r, s') \<Longrightarrow>
      invar s' \<and> table s' = table s \<and>
      ((\<exists>m. r = Inl (Dev_Err m)) \<or>
       r = (case find_device c i (table s) of None \<Rightarrow> Inl Dev_ErrNotFound | Some (d, u) \<Rightarrow> Inr d))"
    and UpdatePushToken_spec: "invar s \<Longrightarrow> dvr_UpdatePushToken repo c i tok s = (r, s') \<Longrightarrow>
      invar s' \<and>
      (table s' = table s \<and> (\<exists>m. r = Inl (Dev_Err m)) \<or>
       (case find_device c i (table s) of
          None \<Rightarrow> r = Inl Dev_ErrNotFound \<and> table s' = table s
        | Some (d, u) \<Rightarrow> r = Inr (d\<lparr>dv_PushToken := tok\<rparr>) \<and>
            table s' = (table s)(i \<mapsto> (d\<lparr>dv_PushToken := tok\<rparr>, u))))"
    and Delete_spec: "invar s \<Longrightarrow> dvr_Delete repo c i s = (ru, s') \<Longrightarrow>
      invar s' \<and>
      (table s' = table s \<and> (\<exists>m. ru = Inl (Dev_Err m)) \<or>
       (case find_device c i (table s) of
          None \<Rightarrow> ru = Inl Dev_ErrNotFound \<and> table s' = table s
        | Some (d, u) \<Rightarrow> ru = Inr () \<and> table s' = (table s)(i := None)))"

text \<open>A device that passed Register's checks.\<close>

definition wf_device :: "Device \<Rightarrow> bool" where
  "wf_device d \<longleftrightarrow> dv_Name d \<noteq> '''' \<and> RuneCountInString (dv_Name d) \<le> 120 \<and>
     RuneCountInString (dv_PushToken d) \<le> 4096 \<and> dv_Platform d \<in> {''ios'', ''android''}"

definition wf_devices :: "device_table \<Rightarrow> bool" where
  "wf_devices T \<longleftrightarrow> (\<forall>i d u. T i = Some (d, u) \<longrightarrow> wf_device d)"

lemma wf_devices_upd: "wf_devices T \<Longrightarrow> wf_device d \<Longrightarrow> wf_devices (T(i \<mapsto> (d, u)))"
  by (simp add: wf_devices_def)

lemma wf_devices_del: "wf_devices T \<Longrightarrow> wf_devices (T(i := None))"
  unfolding wf_devices_def by (metis fun_upd_apply option.distinct(1))

context device_store begin

lemma Register_table:
  assumes "invar s" and "devices_Register repo now rnd c inp s = (r, s')"
  shows "invar s' \<and> (case r of
      Inl e \<Rightarrow> table s' = table s
    | Inr d \<Rightarrow> wf_device d \<and> devices_newID rnd = Inr (dv_ID d) \<and> dv_Name d = reg_Name inp \<and>
        dv_Platform d = reg_Platform inp \<and> dv_PushToken d = reg_PushToken inp \<and>
        table s' = (table s)(dv_ID d \<mapsto> (d, UserID c)))"
proof (cases "devices_newID rnd")
  case (Inl e)
  with assms show ?thesis by (auto simp: devices_Register_def split: if_splits)
next
  case (Inr i)
  let ?d = "\<lparr>dv_ID = i, dv_Name = reg_Name inp, dv_Platform = reg_Platform inp,
    dv_PushToken = reg_PushToken inp, dv_CreatedAt = now\<rparr>"
  obtain r0 s0 where cr: "dvr_Create repo c ?d s = (r0, s0)" by (cases "dvr_Create repo c ?d s")
  from Create_spec [OF assms(1) cr] assms Inr cr show ?thesis
    by (auto simp: devices_Register_def wf_device_def maxDeviceNameRunes_def maxPushTokenRunes_def
        RuneCountInString_less_1 split: if_splits sum.splits)
qed

lemma UpdatePushToken_table:
  assumes "invar s" and "devices_UpdatePushToken repo c i tok s = (r, s')"
  shows "invar s' \<and> (case r of
      Inl e \<Rightarrow> table s' = table s
    | Inr d \<Rightarrow> RuneCountInString tok \<le> 4096 \<and>
        (\<exists>d0 u. table s i = Some (d0, u) \<and> owned_by c u \<and> d = d0\<lparr>dv_PushToken := tok\<rparr> \<and>
          table s' = (table s)(i \<mapsto> (d, u))))"
proof (cases "i = '''' \<or> RuneCountInString tok > maxPushTokenRunes")
  case True
  with assms show ?thesis by (auto simp: devices_UpdatePushToken_def)
next
  case False
  with assms(2) have "dvr_UpdatePushToken repo c i tok s = (r, s')"
    by (simp add: devices_UpdatePushToken_def)
  from UpdatePushToken_spec [OF assms(1) this] False show ?thesis
    by (auto simp: maxPushTokenRunes_def find_device_Some split: sum.splits option.splits)
qed

lemma ops_keep_wf:
  assumes "invar s" and "wf_devices (table s)"
  shows "devices_Register repo now rnd c inp s = (r, s') \<Longrightarrow> invar s' \<and> wf_devices (table s')"
    and "devices_UpdatePushToken repo c i tok s = (r, s') \<Longrightarrow> invar s' \<and> wf_devices (table s')"
    and "devices_Delete repo c i s = (ru, s') \<Longrightarrow> invar s' \<and> wf_devices (table s')"
proof -
  assume e: "devices_Register repo now rnd c inp s = (r, s')"
  from Register_table [OF assms(1) e] assms(2) show "invar s' \<and> wf_devices (table s')"
    by (auto intro: wf_devices_upd split: sum.splits)
next
  assume e: "devices_UpdatePushToken repo c i tok s = (r, s')"
  from UpdatePushToken_table [OF assms(1) e] assms(2) show "invar s' \<and> wf_devices (table s')"
  proof (cases r)
    case (Inr d)
    with UpdatePushToken_table [OF assms(1) e] obtain d0 u where
      "invar s'" "RuneCountInString tok \<le> 4096" "table s i = Some (d0, u)"
      "d = d0\<lparr>dv_PushToken := tok\<rparr>" "table s' = (table s)(i \<mapsto> (d, u))"
      by auto
    moreover from this assms(2) have "wf_device d" by (auto simp: wf_devices_def wf_device_def)
    ultimately show ?thesis using assms(2) by (simp add: wf_devices_upd)
  qed simp
next
  assume "devices_Delete repo c i s = (ru, s')"
  then have e: "dvr_Delete repo c i s = (ru, s')" by (simp add: devices_Delete_def)
  from Delete_spec [OF assms(1) e] assms(2) show "invar s' \<and> wf_devices (table s')"
    by (auto intro: wf_devices_del split: option.splits)
qed

end

section \<open>The in-memory repository\<close>

record device_record =
  dm_device :: Device
  dm_userID :: string

type_synonym device_items = "string \<rightharpoonup> device_record"

definition dm_Create ::
  "ctx \<Rightarrow> Device \<Rightarrow> device_items \<Rightarrow> (device_error, Device, device_items) outcome" where
  "dm_Create c d items = (Inr d, items(dv_ID d \<mapsto> \<lparr>dm_device = d, dm_userID = UserID c\<rparr>))"

definition dm_List ::
  "ctx \<Rightarrow> string list \<Rightarrow> device_items \<Rightarrow> (device_error, Device list, device_items) outcome" where
  "dm_List c ks items =
     (let userID = UserID c;
          records = filter (\<lambda>r. \<not> (userID \<noteq> '''' \<and> dm_userID r \<noteq> userID)) (range_values ks items)
      in (Inr (sort_key dv_CreatedAt (map dm_device records)), items))"

definition dm_Get ::
  "ctx \<Rightarrow> string \<Rightarrow> device_items \<Rightarrow> (device_error, Device, device_items) outcome" where
  "dm_Get c i items =
     (case items i of
        None \<Rightarrow> (Inl Dev_ErrNotFound, items)
      | Some r \<Rightarrow>
          if UserID c \<noteq> '''' \<and> dm_userID r \<noteq> UserID c then (Inl Dev_ErrNotFound, items)
          else (Inr (dm_device r), items))"

definition dm_UpdatePushToken ::
  "ctx \<Rightarrow> string \<Rightarrow> string \<Rightarrow> device_items \<Rightarrow> (device_error, Device, device_items) outcome" where
  "dm_UpdatePushToken c i token items =
     (case items i of
        None \<Rightarrow> (Inl Dev_ErrNotFound, items)
      | Some r \<Rightarrow>
          if UserID c \<noteq> '''' \<and> dm_userID r \<noteq> UserID c then (Inl Dev_ErrNotFound, items)
          else
            let r' = r\<lparr>dm_device := (dm_device r)\<lparr>dv_PushToken := token\<rparr>\<rparr>
            in (Inr (dm_device r'), items(i \<mapsto> r')))"

definition dm_Delete ::
  "ctx \<Rightarrow> string \<Rightarrow> device_items \<Rightarrow> (device_error, unit, device_items) outcome" where
  "dm_Delete c i items =
     (case items i of
        None \<Rightarrow> (Inl Dev_ErrNotFound, items)
      | Some r \<Rightarrow>
          if UserID c \<noteq> '''' \<and> dm_userID r \<noteq> UserID c then (Inl Dev_ErrNotFound, items)
          else (Inr (), items(i := None)))"

definition device_memory :: "device_items device_repo" where
  "device_memory =
     \<lparr>dvr_Create = dm_Create, dvr_List = dm_List, dvr_Get = dm_Get,
      dvr_UpdatePushToken = dm_UpdatePushToken, dvr_Delete = dm_Delete\<rparr>"

lemma device_memory_simps [simp]:
  "dvr_Create device_memory = dm_Create" "dvr_List device_memory = dm_List"
  "dvr_Get device_memory = dm_Get" "dvr_UpdatePushToken device_memory = dm_UpdatePushToken"
  "dvr_Delete device_memory = dm_Delete"
  by (simp_all add: device_memory_def)

definition dm_table :: "device_items \<Rightarrow> device_table" where
  "dm_table items = (\<lambda>i. map_option (\<lambda>r. (dm_device r, dm_userID r)) (items i))"

definition dm_invar :: "device_items \<Rightarrow> bool" where
  "dm_invar items \<longleftrightarrow> (\<forall>i r. items i = Some r \<longrightarrow> dv_ID (dm_device r) = i)"

lemma dm_table_upd [simp]:
  "dm_table (items(i \<mapsto> r)) = (dm_table items)(i \<mapsto> (dm_device r, dm_userID r))"
  "dm_table (items(i := None)) = (dm_table items)(i := None)"
  by (auto simp: dm_table_def fun_eq_iff)

lemma dm_table_empty [simp]: "dm_table Map.empty = Map.empty"
  by (simp add: dm_table_def)

lemma dm_invar_empty [simp]: "dm_invar Map.empty"
  by (simp add: dm_invar_def)

lemma dm_List_eq:
  "dm_List c ks items =
     (Inr (sort_key dv_CreatedAt
             (map fst (filter (\<lambda>(d, u). owned_by c u) (range_values ks (dm_table items))))), items)"
proof -
  have "range_values ks (dm_table items) =
      map (\<lambda>r. (dm_device r, dm_userID r)) (range_values ks items)"
    by (induction ks) (auto simp: range_values_Cons dm_table_def split: option.splits)
  moreover have "(\<not> (UserID c \<noteq> '''' \<and> u \<noteq> UserID c)) = owned_by c u" for u
    by (auto simp: owned_by_def)
  ultimately show ?thesis
    by (simp add: dm_List_def Let_def filter_map comp_def del: de_Morgan_conj)
qed

interpretation dmem: device_store device_memory dm_table dm_invar
proof unfold_locales
  fix items c ks rl items'
  assume "dvr_List device_memory c ks items = (rl, items')"
  then show "(case rl of
         Inl e \<Rightarrow> \<exists>m. e = Dev_Err m
       | Inr ds \<Rightarrow>
           mset ds = mset (map fst (filter (\<lambda>(d, u). owned_by c u) (range_values ks (dm_table items)))) \<and>
           sorted_wrt (\<lambda>x y. dv_CreatedAt x \<le> dv_CreatedAt y) ds)"
    using sorted_wrt_sort_key_asc [of dv_CreatedAt] by (auto simp: dm_List_eq)
qed (auto simp: dm_invar_def dm_Create_def dm_Get_def dm_UpdatePushToken_def dm_Delete_def Let_def
      find_device_def owned_by_def dm_List_eq split: option.splits if_splits, auto simp: dm_table_def)

end
