(* ===== verification/DeviceProps.thy ===== *)
theory DeviceProps
  imports Devices
begin

text \<open>
  Properties of the device registry on the in-memory repository: every reachable registry is
  well-formed and keyed by id, calls stay inside the caller's devices, and a device goes from
  registration through token rotation to deletion as the API promises.
\<close>

datatype device_call =
    DevRegister instant "(string, bytes) result" ctx RegisterInput
  | DevList ctx "string list"
  | DevGet ctx string
  | DevUpdatePushToken ctx string string
  | DevDelete ctx string

fun devices_exec :: "device_call \<Rightarrow> device_items \<Rightarrow> device_items" where
  "devices_exec (DevRegister now rnd c inp) s = snd (devices_Register device_memory now rnd c inp s)"
| "devices_exec (DevList c ks) s = snd (devices_List device_memory c ks s)"
| "devices_exec (DevGet c i) s = snd (devices_Get device_memory c i s)"
| "devices_exec (DevUpdatePushToken c i t) s = snd (devices_UpdatePushToken device_memory c i t s)"
| "devices_exec (DevDelete c i) s = snd (devices_Delete device_memory c i s)"

fun device_call_ctx :: "device_call \<Rightarrow> ctx" where
  "device_call_ctx (DevRegister now rnd c inp) = c"
| "device_call_ctx (DevList c ks) = c"
| "device_call_ctx (DevGet c i) = c"
| "device_call_ctx (DevUpdatePushToken c i t) = c"
| "device_call_ctx (DevDelete c i) = c"

fun registers :: "device_call \<Rightarrow> string option" where
  "registers (DevRegister now rnd c inp) = (case devices_newID rnd of Inl e \<Rightarrow> None | Inr i \<Rightarrow> Some i)"
| "registers _ = None"

lemma exec_keeps_wf:
  assumes "dm_invar s" and "wf_devices (dm_table s)"
  shows "dm_invar (devices_exec x s) \<and> wf_devices (dm_table (devices_exec x s))"
proof (cases x)
  case (DevRegister now rnd c inp)
  obtain r s' where e: "devices_Register device_memory now rnd c inp s = (r, s')"
    by (cases "devices_Register device_memory now rnd c inp s")
  from dmem.ops_keep_wf(1) [OF assms e] DevRegister e show ?thesis by simp
next
  case (DevUpdatePushToken c i t)
  obtain r s' where e: "devices_UpdatePushToken device_memory c i t s = (r, s')"
    by (cases "devices_UpdatePushToken device_memory c i t s")
  from dmem.ops_keep_wf(2) [OF assms e] DevUpdatePushToken e show ?thesis by simp
next
  case (DevDelete c i)
  obtain r s' where e: "devices_Delete device_memory c i s = (r, s')"
    by (cases "devices_Delete device_memory c i s")
  from dmem.ops_keep_wf(3) [OF assms e] DevDelete e show ?thesis by simp
next
  case (DevList c ks)
  with assms show ?thesis by (simp add: devices_List_def dm_List_def Let_def)
next
  case (DevGet c i)
  with assms show ?thesis by (simp add: devices_Get_def dm_Get_def split: option.split)
qed

lemma fold_keeps_wf:
  "dm_invar s \<Longrightarrow> wf_devices (dm_table s) \<Longrightarrow>
   dm_invar (fold devices_exec xs s) \<and> wf_devices (dm_table (fold devices_exec xs s))"
  by (induction xs arbitrary: s) (auto simp: exec_keeps_wf)

text \<open>
  In every registry reached from an empty one by any calls, each device sits under its own id, has
  a non-empty name of at most 120 runes, a push token of at most 4096 runes and a platform that is
  ios or android, as the database column requires.
\<close>

lemma reachable_devices_well_formed:
  "fold devices_exec calls Map.empty i = Some r \<Longrightarrow> dv_ID (dm_device r) = i \<and> wf_device (dm_device r)"
proof -
  assume r: "fold devices_exec calls Map.empty i = Some r"
  have "dm_invar (fold devices_exec calls Map.empty) \<and>
      wf_devices (dm_table (fold devices_exec calls Map.empty))"
    by (rule fold_keeps_wf) (simp_all add: wf_devices_def)
  moreover have "dm_table (fold devices_exec calls Map.empty) i = Some (dm_device r, dm_userID r)"
    using r by (simp add: dm_table_def)
  ultimately show ?thesis using r unfolding dm_invar_def wf_devices_def by blast
qed

definition phone_input :: RegisterInput where
  "phone_input = \<lparr>reg_Name = ''p'', reg_Platform = ''ios'', reg_PushToken = ''t''\<rparr>"

definition phone :: device_record where
  "phone = \<lparr>dm_device = \<lparr>dv_ID = ''dev_00'', dv_Name = ''p'', dv_Platform = ''ios'',
     dv_PushToken = ''t'', dv_CreatedAt = 3\<rparr>, dm_userID = ''alice''\<rparr>"

lemma runes_one [simp]: "RuneCountInString ''p'' = 1" "RuneCountInString ''t'' = 1"
  by (simp_all add: RuneCountInString_def rune_count.simps)

lemma register_phone:
  "devices_Register device_memory 3 (Inr [CHR 0x00]) (ContextWithUserID background ''alice'') phone_input s =
     (Inr (dm_device phone), s(''dev_00'' \<mapsto> phone))"
  by (simp add: devices_Register_def phone_input_def phone_def maxDeviceNameRunes_def
      maxPushTokenRunes_def devices_newID_def dm_Create_def)

lemma reachable_devices_well_formed_example:
  "dv_ID (dm_device phone) = ''dev_00'' \<and> wf_device (dm_device phone)"
proof -
  have "fold devices_exec
      [DevRegister 3 (Inr [CHR 0x00]) (ContextWithUserID background ''alice'') phone_input]
      Map.empty ''dev_00'' = Some phone"
    by (simp add: register_phone)
  from reachable_devices_well_formed [OF this] show ?thesis .
qed

text \<open>
  A call for one user leaves every device of another user as it is (unless a registration draws the
  id of that device), and reading, updating or deleting such a device answers that it does not exist.
\<close>

lemma device_calls_stay_with_owner:
  assumes "dm_invar s" and "s i = Some r" and "\<not> owned_by c (dm_userID r)"
  shows "(device_call_ctx x = c \<and> registers x \<noteq> Some i \<longrightarrow> devices_exec x s i = Some r) \<and>
    fst (devices_Get device_memory c i s) = Inl Dev_ErrNotFound \<and>
    fst (devices_UpdatePushToken device_memory c i tok s) \<in>
      {Inl Dev_ErrNotFound, Inl (Dev_Err ''invalid push token'')} \<and>
    fst (devices_Delete device_memory c i s) = Inl Dev_ErrNotFound"
proof -
  have other: "UserID c \<noteq> '''' \<and> dm_userID r \<noteq> UserID c" using assms(3) by (simp add: owned_by_def)
  have "devices_exec x s i = Some r" if "device_call_ctx x = c" "registers x \<noteq> Some i"
  proof (cases x)
    case (DevRegister now rnd c' inp)
    with that assms(2) show ?thesis
      by (auto simp: devices_Register_def dm_Create_def split: sum.splits)
  next
    case (DevUpdatePushToken c' j t)
    with that assms(2) other show ?thesis
      by (cases "j = i") (auto simp: devices_UpdatePushToken_def dm_UpdatePushToken_def Let_def
          split: option.splits)
  next
    case (DevDelete c' j)
    with that assms(2) other show ?thesis
      by (cases "j = i") (auto simp: devices_Delete_def dm_Delete_def split: option.splits)
  next
    case (DevList c' ks)
    with assms(2) show ?thesis by (simp add: devices_List_def dm_List_def Let_def)
  next
    case (DevGet c' j)
    with assms(2) show ?thesis by (simp add: devices_Get_def dm_Get_def split: option.split)
  qed
  moreover have "fst (devices_Get device_memory c i s) = Inl Dev_ErrNotFound"
    "fst (devices_UpdatePushToken device_memory c i tok s) \<in>
      {Inl Dev_ErrNotFound, Inl (Dev_Err ''invalid push token'')}"
    "fst (devices_Delete device_memory c i s) = Inl Dev_ErrNotFound"
    using assms(2) other
    by (simp_all add: devices_Get_def dm_Get_def devices_UpdatePushToken_def dm_UpdatePushToken_def
        devices_Delete_def dm_Delete_def)
  ultimately show ?thesis by blast
qed

lemma device_calls_stay_with_owner_example:
  "fst (devices_Delete device_memory (ContextWithUserID background ''bob'') ''dev_00''
      [''dev_00'' \<mapsto> phone]) = Inl Dev_ErrNotFound"
proof -
  have "dm_invar [''dev_00'' \<mapsto> phone]" by (simp add: dm_invar_def phone_def)
  moreover have "\<not> owned_by (ContextWithUserID background ''bob'') (dm_userID phone)"
    by (simp add: owned_by_def phone_def)
  ultimately show ?thesis
    using device_calls_stay_with_owner
      [of "[''dev_00'' \<mapsto> phone]" "''dev_00''" phone "ContextWithUserID background ''bob''"]
    by simp
qed

text \<open>
  A device's life as the API promises it. After a successful registration its owner reads back what
  was registered; after a token update the owner reads the device with exactly the new token and nothing
  else changed; after deletion it is gone for everyone, and deleting it again answers not found.
\<close>

lemma device_register_rotate_delete:
  assumes "devices_Register device_memory now rnd c inp s = (Inr d, s1)"
    and "RuneCountInString tok \<le> 4096"
  shows "devices_Get device_memory c (dv_ID d) s1 = (Inr d, s1) \<and>
    (\<exists>s2. devices_UpdatePushToken device_memory c (dv_ID d) tok s1 = (Inr (d\<lparr>dv_PushToken := tok\<rparr>), s2) \<and>
       devices_Get device_memory c (dv_ID d) s2 = (Inr (d\<lparr>dv_PushToken := tok\<rparr>), s2) \<and>
       (\<exists>s3. devices_Delete device_memory c (dv_ID d) s2 = (Inr (), s3) \<and>
          (\<forall>c'. devices_Get device_memory c' (dv_ID d) s3 = (Inl Dev_ErrNotFound, s3)) \<and>
          devices_Delete device_memory c (dv_ID d) s3 = (Inl Dev_ErrNotFound, s3)))"
proof -
  from assms(1) obtain i where "devices_newID rnd = Inr i" "dv_ID d = i"
    and s1: "s1 = s(dv_ID d \<mapsto> \<lparr>dm_device = d, dm_userID = UserID c\<rparr>)"
    by (auto simp: devices_Register_def dm_Create_def split: if_splits sum.splits)
  then have "dv_ID d \<noteq> ''''" by (auto simp: devices_newID_def split: sum.splits)
  with assms(2) show ?thesis
    by (simp add: s1 devices_Get_def dm_Get_def devices_UpdatePushToken_def dm_UpdatePushToken_def
        maxPushTokenRunes_def devices_Delete_def dm_Delete_def Let_def)
qed

lemma device_register_rotate_delete_example:
  "\<exists>s2. devices_UpdatePushToken device_memory (ContextWithUserID background ''alice'') ''dev_00'' ''p''
      [''dev_00'' \<mapsto> phone] = (Inr ((dm_device phone)\<lparr>dv_PushToken := ''p''\<rparr>), s2)"
  using device_register_rotate_delete [OF register_phone [of Map.empty], of "''p''"]
  by (auto simp: phone_def)

end
