(* ===== verification/GoCrypto.thy ===== *)
theory GoCrypto
  imports GoEncoding
begin

text \<open>
  Go's crypto/sha256, crypto/hmac and crypto/pbkdf2 on byte strings, written out from FIPS 180-4, RFC
  2104 and RFC 8018. The server uses them through their results only; the lengths of those results are
  what the component proofs need.
\<close>

unbundle bit_operations_syntax

type_synonym w32 = "32 word"

section \<open>SHA-256\<close>

text \<open>
  The round constants (the first 32 bits of the fractional parts of the cube roots of the first 64 primes)
  and the initial state (of the square roots of the first eight), in decimal.
\<close>

definition sha_K :: "w32 list" where
  "sha_K =
    [1116352408, 1899447441, 3049323471, 3921009573, 961987163, 1508970993, 2453635748,
     2870763221, 3624381080, 310598401, 607225278, 1426881987, 1925078388, 2162078206,
     2614888103, 3248222580, 3835390401, 4022224774, 264347078, 604807628, 770255983,
     1249150122, 1555081692, 1996064986, 2554220882, 2821834349, 2952996808, 3210313671,
     3336571891, 3584528711, 113926993, 338241895, 666307205, 773529912, 1294757372,
     1396182291, 1695183700, 1986661051, 2177026350, 2456956037, 2730485921, 2820302411,
     3259730800, 3345764771, 3516065817, 3600352804, 4094571909, 275423344, 430227734,
     506948616, 659060556, 883997877, 958139571, 1322822218, 1537002063, 1747873779,
     1955562222, 2024104815, 2227730452, 2361852424, 2428436474, 2756734187, 3204031479,
     3329325298]"

definition sha_H0 :: "w32 list" where
  "sha_H0 =
    [1779033703, 3144134277, 1013904242, 2773480762, 1359893119, 2600822924, 528734635,
     1541459225]"

definition rotr :: "nat \<Rightarrow> w32 \<Rightarrow> w32" where
  "rotr n x = drop_bit n x OR push_bit (32 - n) x"

definition small_sigma0 :: "w32 \<Rightarrow> w32" where
  "small_sigma0 x = rotr 7 x XOR rotr 18 x XOR drop_bit 3 x"

definition small_sigma1 :: "w32 \<Rightarrow> w32" where
  "small_sigma1 x = rotr 17 x XOR rotr 19 x XOR drop_bit 10 x"

definition big_sigma0 :: "w32 \<Rightarrow> w32" where
  "big_sigma0 x = rotr 2 x XOR rotr 13 x XOR rotr 22 x"

definition big_sigma1 :: "w32 \<Rightarrow> w32" where
  "big_sigma1 x = rotr 6 x XOR rotr 11 x XOR rotr 25 x"

definition sha_ch :: "w32 \<Rightarrow> w32 \<Rightarrow> w32 \<Rightarrow> w32" where
  "sha_ch x y z = (x AND y) XOR (NOT x AND z)"

definition sha_maj :: "w32 \<Rightarrow> w32 \<Rightarrow> w32 \<Rightarrow> w32" where
  "sha_maj x y z = (x AND y) XOR (x AND z) XOR (y AND z)"

fun be_word :: "bytes \<Rightarrow> w32" where
  "be_word [] = 0"
| "be_word (b # bs) = push_bit (8 * length bs) (of_char b) OR be_word bs"

definition word_be :: "w32 \<Rightarrow> bytes" where
  "word_be w = map (\<lambda>k. char_of (unat (drop_bit k w AND 255))) [24, 16, 8, 0]"

text \<open>Padding: a one bit, zeros up to 56 bytes modulo 64, and the bit length in eight bytes.\<close>

definition sha_pad :: "bytes \<Rightarrow> bytes" where
  "sha_pad m =
     m @ [CHR 0x80] @ replicate ((119 - length m mod 64) mod 64) (CHR 0x00) @
     map (\<lambda>k. char_of (drop_bit (8 * k) (8 * length m))) [7, 6, 5, 4, 3, 2, 1, 0]"

fun chunks :: "nat \<Rightarrow> nat \<Rightarrow> 'a list \<Rightarrow> 'a list list" where
  "chunks 0 n xs = []"
| "chunks (Suc k) n xs = take n xs # chunks k n (drop n xs)"

text \<open>The message schedule, newest word first: sixteen words of the block, then 48 computed ones.\<close>

fun sha_expand :: "nat \<Rightarrow> w32 list \<Rightarrow> w32 list" where
  "sha_expand 0 w = w"
| "sha_expand (Suc n) w =
     sha_expand n ((small_sigma1 (w ! 1) + w ! 6 + small_sigma0 (w ! 14) + w ! 15) # w)"

definition sha_schedule :: "bytes \<Rightarrow> w32 list" where
  "sha_schedule block = rev (sha_expand 48 (rev (map be_word (chunks 16 4 block))))"

fun sha_round :: "w32 list \<Rightarrow> w32 \<times> w32 \<Rightarrow> w32 list" where
  "sha_round [a, b, c, d, e, f, g, h] (k, w) =
     (let t1 = h + big_sigma1 e + sha_ch e f g + k + w;
          t2 = big_sigma0 a + sha_maj a b c
      in [t1 + t2, a, b, c, d + t1, e, f, g])"
| "sha_round s _ = s"

definition sha_compress :: "w32 list \<Rightarrow> bytes \<Rightarrow> w32 list" where
  "sha_compress H block = map2 (+) H (foldl sha_round H (zip sha_K (sha_schedule block)))"

definition sha256_Sum256 :: "bytes \<Rightarrow> bytes" where
  "sha256_Sum256 m =
     (let p = sha_pad m
      in concat (map word_be (foldl sha_compress sha_H0 (chunks (length p div 64) 64 p))))"

lemma length_word_be [simp]: "length (word_be w) = 4"
  by (simp add: word_be_def)

lemma length_sha_round [simp]: "length s = 8 \<Longrightarrow> length (sha_round s x) = 8"
  by (cases "(s, x)" rule: sha_round.cases) (auto simp: Let_def)

lemma length_foldl_sha_round [simp]: "length s = 8 \<Longrightarrow> length (foldl sha_round s xs) = 8"
  by (induction xs arbitrary: s) simp_all

lemma length_foldl_sha_compress [simp]: "length H = 8 \<Longrightarrow> length (foldl sha_compress H bs) = 8"
  by (induction bs arbitrary: H) (simp_all add: sha_compress_def)

lemma length_concat_const: "(\<forall>x \<in> set xs. length x = n) \<Longrightarrow> length (concat xs) = n * length xs"
  by (induction xs) simp_all

lemma length_sha256 [simp]: "length (sha256_Sum256 m) = 32"
  by (simp add: sha256_Sum256_def Let_def length_concat_const [where n = 4] sha_H0_def)

section \<open>HMAC and PBKDF2\<close>

definition hmac_key_block :: "bytes \<Rightarrow> bytes" where
  "hmac_key_block key =
     (let k = (if 64 < length key then sha256_Sum256 key else key)
      in k @ replicate (64 - length k) (CHR 0x00))"

definition xor_pad :: "nat \<Rightarrow> bytes \<Rightarrow> bytes" where
  "xor_pad p k = map (\<lambda>b. char_of ((of_char b :: nat) XOR p)) k"

definition hmac_sha256 :: "bytes \<Rightarrow> bytes \<Rightarrow> bytes" where
  "hmac_sha256 key msg =
     (let k = hmac_key_block key
      in sha256_Sum256 (xor_pad 0x5c k @ sha256_Sum256 (xor_pad 0x36 k @ msg)))"

lemma length_hmac [simp]: "length (hmac_sha256 key msg) = 32"
  by (simp add: hmac_sha256_def Let_def)

definition xor_bytes :: "bytes \<Rightarrow> bytes \<Rightarrow> bytes" where
  "xor_bytes xs ys = map2 (\<lambda>x y. char_of ((of_char x :: nat) XOR of_char y)) xs ys"

lemma length_xor_bytes [simp]: "length (xor_bytes xs ys) = min (length xs) (length ys)"
  by (simp add: xor_bytes_def)

text \<open>The accumulator of one PBKDF2 block: the running exclusive or and the last HMAC output.\<close>

fun pbkdf2_iterate :: "bytes \<Rightarrow> nat \<Rightarrow> bytes \<Rightarrow> bytes \<Rightarrow> bytes" where
  "pbkdf2_iterate pw 0 acc u = acc"
| "pbkdf2_iterate pw (Suc n) acc u =
     (let u' = hmac_sha256 pw u in pbkdf2_iterate pw n (xor_bytes acc u') u')"

definition pbkdf2_block :: "bytes \<Rightarrow> bytes \<Rightarrow> nat \<Rightarrow> nat \<Rightarrow> bytes" where
  "pbkdf2_block pw salt iter i =
     (let u = hmac_sha256 pw (salt @ map (\<lambda>k. char_of (drop_bit (8 * k) i)) [3, 2, 1, 0])
      in pbkdf2_iterate pw (iter - 1) u u)"

definition pbkdf2_Key :: "bytes \<Rightarrow> bytes \<Rightarrow> nat \<Rightarrow> nat \<Rightarrow> bytes" where
  "pbkdf2_Key pw salt iter keyLen =
     take keyLen (concat (map (\<lambda>i. pbkdf2_block pw salt iter (Suc i)) [0..<(keyLen + 31) div 32]))"

lemma length_pbkdf2_iterate [simp]:
  "length acc = 32 \<Longrightarrow> length (pbkdf2_iterate pw n acc u) = 32"
  by (induction n arbitrary: acc u) (simp_all add: Let_def)

lemma length_pbkdf2_block [simp]: "length (pbkdf2_block pw salt iter i) = 32"
  by (simp add: pbkdf2_block_def Let_def)

lemma length_pbkdf2_Key [simp]: "length (pbkdf2_Key pw salt iter n) = n"
proof -
  have "length (concat (map (\<lambda>i. pbkdf2_block pw salt iter (Suc i)) [0..<(n + 31) div 32])) =
      32 * ((n + 31) div 32)"
    by (simp add: length_concat_const [where n = 32])
  then show ?thesis by (simp add: pbkdf2_Key_def)
qed

end
