(* ===== verification/Files.thy ===== *)
theory Files
  imports GoCrypto TransferModel
begin

text \<open>
  The payload store of \<^verbatim>\<open>server/internal/files/service.go\<close>: the in-memory adapter with HMAC-signed URLs,
  and the S3 adapter over a client that is a parameter (the MinIO library is third-party code). The
  signature binds action, transfer and expiry; the theory also packs the service as the URL provider the
  transfer service uses.
\<close>

section \<open>Parameters\<close>

text \<open>
  A parsed URL: everything before the path, the path, and the query values. Parsing and printing of
  URLs (net/url) are parameters; what the service does between the two is modelled.
\<close>

record url =
  url_origin :: string
  url_Path :: string
  url_Query :: "(string \<times> string) list"

record url_lib =
  ul_Parse :: "string \<Rightarrow> url option"
  ul_String :: "url \<Rightarrow> string"

text \<open>url.Values: Get yields the first value of a key or the empty string, Set leaves one value.\<close>

definition query_Get :: "(string \<times> string) list \<Rightarrow> string \<Rightarrow> string" where
  "query_Get q k = (case map_of q k of None \<Rightarrow> '''' | Some v \<Rightarrow> v)"

definition query_Set :: "(string \<times> string) list \<Rightarrow> string \<Rightarrow> string \<Rightarrow> (string \<times> string) list" where
  "query_Set q k v = filter (\<lambda>p. fst p \<noteq> k) q @ [(k, v)]"

lemma map_of_filter_other: "k \<noteq> k' \<Longrightarrow> map_of (filter (\<lambda>p. fst p \<noteq> k) q) k' = map_of q k'"
  by (induction q) auto

lemma query_Get_Set [simp]:
  "query_Get (query_Set q k v) k' = (if k' = k then v else query_Get q k')"
proof (cases "k' = k")
  case True
  have "map_of (filter (\<lambda>p. fst p \<noteq> k) q) k = None" by (induction q) auto
  with True show ?thesis by (simp add: query_Get_def query_Set_def map_add_def)
next
  case False
  then show ?thesis
    by (auto simp: query_Get_def query_Set_def map_add_def map_of_filter_other split: option.splits)
qed

text \<open>The calls the service makes on the object-storage client, by bucket and key.\<close>

record s3_error =
  s3_StatusCode :: int
  s3_Code :: string
  s3_Message :: string

record s3_info =
  s3_Size :: int
  s3_Metadata :: "string \<Rightarrow> string"
  s3_UserMetadata :: "(string \<times> string) list"

record s3_client =
  s3_BucketExists :: "string \<Rightarrow> (string, bool) result"
  s3_PresignHeader :: "string \<Rightarrow> string \<Rightarrow> duration \<Rightarrow> (string \<times> string) list \<Rightarrow> (string, string) result"
  s3_PresignedGetObject :: "string \<Rightarrow> string \<Rightarrow> duration \<Rightarrow> (string, string) result"
  s3_StatObject :: "string \<Rightarrow> string \<Rightarrow> (s3_error, s3_info) result"

section \<open>The service\<close>

datatype file_error = ErrInvalidSignature | ErrExpiredSignature | File_ErrNotFound

record files_Service =
  fs_baseURL :: string
  fs_secret :: bytes
  fs_ttl :: duration
  fs_blobs :: "string \<rightharpoonup> bytes"
  fs_s3 :: "s3_client option"
  fs_bucket :: string
  fs_prefix :: string

definition files_NewService :: "string \<Rightarrow> string \<Rightarrow> duration \<Rightarrow> files_Service" where
  "files_NewService baseURL secret ttl =
     \<lparr>fs_baseURL = baseURL, fs_secret = secret, fs_ttl = ttl, fs_blobs = Map.empty,
      fs_s3 = None, fs_bucket = '''', fs_prefix = ''''\<rparr>"

definition files_IsLocal :: "files_Service \<Rightarrow> bool" where
  "files_IsLocal s \<longleftrightarrow> fs_s3 s = None"

text \<open>Health fails because the client reported an error, or because the bucket is not there.\<close>

datatype health_error = Health_CheckFailed string | Health_BucketUnavailable string

definition files_Health :: "files_Service \<Rightarrow> (health_error, unit) result" where
  "files_Health s =
     (case fs_s3 s of
        None \<Rightarrow> Inr ()
      | Some client \<Rightarrow>
          (case s3_BucketExists client (fs_bucket s) of
             Inl e \<Rightarrow> Inl (Health_CheckFailed (''check object storage health: '' @ e))
           | Inr ex \<Rightarrow> if \<not> ex then Inl (Health_BucketUnavailable (fs_bucket s)) else Inr ()))"

definition files_objectKey :: "files_Service \<Rightarrow> string \<Rightarrow> string" where
  "files_objectKey s transferID =
     (if fs_prefix s = '''' then transferID else fs_prefix s @ ''/'' @ transferID)"

definition newline :: string where "newline = [CHR 0x0A]"

definition signing_payload :: "string \<Rightarrow> string \<Rightarrow> int \<Rightarrow> bytes" where
  "signing_payload action transferID expires =
     action @ newline @ transferID @ newline @ FormatInt expires"

definition files_signature :: "files_Service \<Rightarrow> string \<Rightarrow> string \<Rightarrow> int \<Rightarrow> string" where
  "files_signature s action transferID expires =
     hex_EncodeToString (hmac_sha256 (fs_secret s) (signing_payload action transferID expires))"

definition files_signedURL ::
  "url_lib \<Rightarrow> files_Service \<Rightarrow> instant \<Rightarrow> string \<Rightarrow> string \<Rightarrow> string \<Rightarrow> string" where
  "files_signedURL lib s now action transferID path =
     (let expires = unix_seconds (now + fs_ttl s) in
      case ul_Parse lib (fs_baseURL s) of
        None \<Rightarrow> ''''
      | Some u \<Rightarrow>
          let query = query_Set (url_Query u) ''exp'' (FormatInt expires);
              query = query_Set query ''sig'' (files_signature s action transferID expires)
          in ul_String lib (u\<lparr>url_Path := path, url_Query := query\<rparr>))"

definition files_UploadURL ::
  "url_lib \<Rightarrow> files_Service \<Rightarrow> instant \<Rightarrow> string \<Rightarrow> string \<Rightarrow> (string, string) result" where
  "files_UploadURL lib s now transferID checksum =
     (case fs_s3 s of
        None \<Rightarrow> Inr (files_signedURL lib s now ''upload'' transferID (''/dev-upload/'' @ transferID))
      | Some client \<Rightarrow>
          (case s3_PresignHeader client (fs_bucket s) (files_objectKey s transferID) (fs_ttl s)
                  [(''X-Amz-Meta-Sha256'', ToLower checksum)] of
             Inl e \<Rightarrow> Inl (''presign upload: '' @ e)
           | Inr u \<Rightarrow> Inr u))"

definition files_DownloadURL ::
  "url_lib \<Rightarrow> files_Service \<Rightarrow> instant \<Rightarrow> string \<Rightarrow> (string, string) result" where
  "files_DownloadURL lib s now transferID =
     (case fs_s3 s of
        None \<Rightarrow> Inr (files_signedURL lib s now ''download'' transferID (''/dev-download/'' @ transferID))
      | Some client \<Rightarrow>
          (case s3_PresignedGetObject client (fs_bucket s) (files_objectKey s transferID) (fs_ttl s) of
             Inl e \<Rightarrow> Inl (''presign download: '' @ e)
           | Inr u \<Rightarrow> Inr u))"

definition files_Put :: "string \<Rightarrow> bytes \<Rightarrow> files_Service \<Rightarrow> files_Service" where
  "files_Put transferID data s = s\<lparr>fs_blobs := (fs_blobs s)(transferID \<mapsto> data)\<rparr>"

definition files_Get :: "string \<Rightarrow> files_Service \<Rightarrow> (file_error, bytes) result" where
  "files_Get transferID s =
     (case fs_blobs s transferID of None \<Rightarrow> Inl File_ErrNotFound | Some data \<Rightarrow> Inr data)"

definition files_Exists :: "string \<Rightarrow> files_Service \<Rightarrow> bool" where
  "files_Exists transferID s \<longleftrightarrow> fs_blobs s transferID \<noteq> None"

text \<open>
  The checksum of a stored object: the canonical metadata entry, or else the first user metadata entry
  whose key is sha256 up to letter case.
\<close>

definition s3_checksum :: "s3_info \<Rightarrow> string" where
  "s3_checksum info =
     (let checksum = s3_Metadata info ''X-Amz-Meta-Sha256'' in
      if checksum = '''' then
        (case List.find (\<lambda>(key, _). EqualFold key ''sha256'') (s3_UserMetadata info) of
           None \<Rightarrow> '''' | Some (_, value) \<Rightarrow> value)
      else checksum)"

definition files_InspectUploaded ::
  "files_Service \<Rightarrow> string \<Rightarrow> (fs_error, int \<times> string) result" where
  "files_InspectUploaded s transferID =
     (case fs_s3 s of
        None \<Rightarrow>
          (case files_Get transferID s of
             Inl e \<Rightarrow> Inl Fs_ErrNotExist
           | Inr data \<Rightarrow> Inr (int (length data), hex_EncodeToString (sha256_Sum256 data)))
      | Some client \<Rightarrow>
          (case s3_StatObject client (fs_bucket s) (files_objectKey s transferID) of
             Inl response \<Rightarrow>
               if s3_StatusCode response = 404 \<or> s3_Code response = ''NoSuchKey'' \<or>
                  s3_Code response = ''NoSuchObject''
               then Inl Fs_ErrNotExist
               else Inl (Fs_Err (''stat uploaded object: '' @ s3_Message response))
           | Inr info \<Rightarrow> Inr (s3_Size info, ToLower (TrimSpace (s3_checksum info)))))"

definition files_Verify ::
  "files_Service \<Rightarrow> instant \<Rightarrow> string \<Rightarrow> string \<Rightarrow> string \<Rightarrow> string \<Rightarrow> (file_error, unit) result" where
  "files_Verify s now action transferID expires sig =
     (case ParseInt expires of
        None \<Rightarrow> Inl ErrInvalidSignature
      | Some expUnix \<Rightarrow>
          if unix_seconds now > expUnix then Inl ErrExpiredSignature
          else
            let expected = files_signature s action transferID expUnix in
            (case hex_DecodeString sig of
               None \<Rightarrow> Inl ErrInvalidSignature
             | Some provided \<Rightarrow>
                 let expectedBytes = (case hex_DecodeString expected of None \<Rightarrow> [] | Some b \<Rightarrow> b)
                 in if provided \<noteq> expectedBytes then Inl ErrInvalidSignature else Inr ()))"

text \<open>The service as the transfer service's URL provider, at one time.\<close>

definition files_provider :: "url_lib \<Rightarrow> files_Service \<Rightarrow> instant \<Rightarrow> url_provider" where
  "files_provider lib s now =
     \<lparr>urls_UploadURL = (\<lambda>c i h. files_UploadURL lib s now i h),
      urls_DownloadURL = (\<lambda>c i. files_DownloadURL lib s now i),
      urls_InspectUploaded = (\<lambda>c i. files_InspectUploaded s i)\<rparr>"

section \<open>The signed payload is read back unambiguously\<close>

lemma newline_not_in_FormatInt: "CHR 0x0A \<notin> set (FormatInt i)"
  using FormatInt_chars [of "CHR 0x0A" i] by (auto simp: dec_value_def)

lemma signing_payload_inject:
  assumes "signing_payload a i e = signing_payload a' i' e'"
    and "CHR 0x0A \<notin> set a" and "CHR 0x0A \<notin> set a'" and "int64 e" and "int64 e'"
  shows "a = a' \<and> i = i' \<and> e = e'"
proof -
  have "a @ CHR 0x0A # (i @ CHR 0x0A # FormatInt e) = a' @ CHR 0x0A # (i' @ CHR 0x0A # FormatInt e')"
    using assms(1) by (simp add: signing_payload_def newline_def)
  from append_eq_append_sep [OF this assms(2,3)]
  have a: "a = a'" and rest: "i @ CHR 0x0A # FormatInt e = i' @ CHR 0x0A # FormatInt e'" by simp_all
  from append_eq_append_sep_last [OF rest newline_not_in_FormatInt newline_not_in_FormatInt]
  show ?thesis using a assms(4,5) by (simp add: FormatInt_inject)
qed

lemma files_Verify_ok:
  "files_Verify s now action i expires sig = Inr () \<longleftrightarrow>
     (\<exists>e. ParseInt expires = Some e \<and> unix_seconds now \<le> e \<and>
        hex_DecodeString sig = Some (hmac_sha256 (fs_secret s) (signing_payload action i e)))"
  by (auto simp: files_Verify_def files_signature_def Let_def split: option.splits if_splits)

end
