(* ===== verification/FileProps.thy ===== *)
theory FileProps
  imports Files
begin

text \<open>
  Properties of the payload store: a signed URL admits exactly its own action, transfer and time, and
  what was put is what is read, measured and hashed.
\<close>

section \<open>Signed URLs\<close>

text \<open>
  C30: a URL signed for an action and a transfer is accepted for them until it expires and rejected as
  expired afterwards. Whatever base URL is configured, the link handed out carries an expiry and a
  signature that Verify accepts at every time up to the expiry, which is the time of signing plus the
  configured lifetime, in whole seconds.
\<close>

theorem signed_url_verifies_until_expiry:
  assumes "ul_Parse lib (fs_baseURL s) = Some u" and "int64 (unix_seconds (now + fs_ttl s))"
  shows "\<exists>q. files_signedURL lib s now action i path = ul_String lib (u\<lparr>url_Path := path, url_Query := q\<rparr>) \<and>
    (\<forall>later. files_Verify s later action i (query_Get q ''exp'') (query_Get q ''sig'') =
       (if unix_seconds later \<le> unix_seconds (now + fs_ttl s) then Inr () else Inl ErrExpiredSignature))"
proof (intro exI conjI allI)
  let ?e = "unix_seconds (now + fs_ttl s)"
  let ?q = "query_Set (query_Set (url_Query u) ''exp'' (FormatInt ?e)) ''sig'' (files_signature s action i ?e)"
  show "files_signedURL lib s now action i path = ul_String lib (u\<lparr>url_Path := path, url_Query := ?q\<rparr>)"
    using assms(1) by (simp add: files_signedURL_def Let_def)
  fix later
  show "files_Verify s later action i (query_Get ?q ''exp'') (query_Get ?q ''sig'') =
       (if unix_seconds later \<le> ?e then Inr () else Inl ErrExpiredSignature)"
    using assms(2) by (simp add: files_Verify_def files_signature_def Let_def)
qed

definition demo_lib :: url_lib where
  "demo_lib = \<lparr>ul_Parse = (\<lambda>s. Some \<lparr>url_origin = s, url_Path = '''', url_Query = []\<rparr>),
     ul_String = (\<lambda>u. url_origin u @ url_Path u)\<rparr>"

definition demo_files :: files_Service where
  "demo_files = files_NewService ''http://h'' ''k'' (10 * minute)"

lemma signed_url_verifies_until_expiry_witness:
  "\<exists>q. files_signedURL demo_lib demo_files 0 ''upload'' ''tr_1'' ''/dev-upload/tr_1'' =
      ul_String demo_lib (\<lparr>url_origin = ''http://h'', url_Path = '''', url_Query = []\<rparr>
        \<lparr>url_Path := ''/dev-upload/tr_1'', url_Query := q\<rparr>) \<and>
    (\<forall>later. files_Verify demo_files later ''upload'' ''tr_1'' (query_Get q ''exp'') (query_Get q ''sig'') =
       (if unix_seconds later \<le> unix_seconds (0 + fs_ttl demo_files) then Inr ()
        else Inl ErrExpiredSignature))"
  by (rule signed_url_verifies_until_expiry)
    (simp_all add: demo_lib_def demo_files_def files_NewService_def unix_seconds_def int64_def)



section \<open>Payloads\<close>

text \<open>
  What was put is what is read. After a Put, Get returns exactly those bytes, the transfer exists,
  InspectUploaded reports their number and their SHA-256 in hexadecimal (64 digits), and every other
  transfer's payload is as before; a transfer that never got a payload is reported as missing.
\<close>

lemma put_get_inspect:
  assumes "files_IsLocal s"
  shows "files_Get i (files_Put i data s) = Inr data \<and>
    files_Exists i (files_Put i data s) \<and>
    files_InspectUploaded (files_Put i data s) i =
      Inr (int (length data), hex_EncodeToString (sha256_Sum256 data)) \<and>
    length (hex_EncodeToString (sha256_Sum256 data)) = 64 \<and>
    (\<forall>j. j \<noteq> i \<longrightarrow> files_Get j (files_Put i data s) = files_Get j s \<and>
       files_InspectUploaded (files_Put i data s) j = files_InspectUploaded s j) \<and>
    (\<not> files_Exists i s \<longrightarrow> files_InspectUploaded s i = Inl Fs_ErrNotExist)"
  using assms
  by (simp add: files_IsLocal_def files_Get_def files_Put_def files_Exists_def files_InspectUploaded_def)

lemma put_get_inspect_example:
  "files_Get ''tr_1'' (files_Put ''tr_1'' ''hello'' demo_files) = Inr ''hello''"
  using put_get_inspect [of demo_files "''tr_1''" "''hello''"]
  by (simp add: demo_files_def files_NewService_def files_IsLocal_def)

end
