(* ===== verification/GoBase64.thy ===== *)
theory GoBase64
  imports GoEncoding
begin

text \<open>
  Go's encoding/base64 in the two unpadded variants the server uses, RawStdEncoding and RawURLEncoding,
  with the round trip. As in Go, decoding skips carriage returns and newlines and ignores the unused low
  bits of the last digit.
\<close>

definition std_alphabet :: string where
  "std_alphabet = ''ABCDEFGHIJKLMNOPQRSTUVWXYZabcdefghijklmnopqrstuvwxyz0123456789+/''"

definition url_alphabet :: string where
  "url_alphabet = ''ABCDEFGHIJKLMNOPQRSTUVWXYZabcdefghijklmnopqrstuvwxyz0123456789-_''"

fun b64_sextets :: "nat list \<Rightarrow> nat list" where
  "b64_sextets [] = []"
| "b64_sextets [a] = [a div 4, (a mod 4) * 16]"
| "b64_sextets [a, b] = [a div 4, (a mod 4) * 16 + b div 16, (b mod 16) * 4]"
| "b64_sextets (a # b # c # r) =
     a div 4 # ((a mod 4) * 16 + b div 16) # ((b mod 16) * 4 + c div 64) # c mod 64 # b64_sextets r"

fun b64_bytes :: "nat list \<Rightarrow> nat list option" where
  "b64_bytes [] = Some []"
| "b64_bytes [p] = None"
| "b64_bytes [p, q] = Some [p * 4 + q div 16]"
| "b64_bytes [p, q, r] = Some [p * 4 + q div 16, (q mod 16) * 16 + r div 4]"
| "b64_bytes (p # q # r # s # rest) =
     map_option (\<lambda>bs. (p * 4 + q div 16) # ((q mod 16) * 16 + r div 4) # ((r mod 4) * 64 + s) # bs)
       (b64_bytes rest)"

definition b64_value :: "string \<Rightarrow> char \<Rightarrow> nat option" where
  "b64_value abc c = map_of (zip abc [0..<length abc]) c"

fun b64_values :: "string \<Rightarrow> string \<Rightarrow> nat list option" where
  "b64_values abc [] = Some []"
| "b64_values abc (c # cs) =
     (case b64_value abc c of
        None \<Rightarrow> None
      | Some v \<Rightarrow> map_option (\<lambda>vs. v # vs) (b64_values abc cs))"

definition b64_EncodeToString :: "string \<Rightarrow> bytes \<Rightarrow> string" where
  "b64_EncodeToString abc bs = map (\<lambda>n. abc ! n) (b64_sextets (map of_char bs))"

definition b64_DecodeString :: "string \<Rightarrow> string \<Rightarrow> bytes option" where
  "b64_DecodeString abc s =
     (case b64_values abc (filter (\<lambda>c. c \<noteq> CHR 0x0A \<and> c \<noteq> CHR 0x0D) s) of
        None \<Rightarrow> None
      | Some vs \<Rightarrow> map_option (map char_of) (b64_bytes vs))"

definition good_alphabet :: "string \<Rightarrow> bool" where
  "good_alphabet abc \<longleftrightarrow> length abc = 64 \<and> distinct abc \<and> CHR 0x0A \<notin> set abc \<and> CHR 0x0D \<notin> set abc"

lemma good_alphabets [simp]: "good_alphabet std_alphabet" "good_alphabet url_alphabet"
  by (simp_all add: good_alphabet_def std_alphabet_def url_alphabet_def)

lemma b64_sextets_bound: "\<forall>x \<in> set bs. x < 256 \<Longrightarrow> x \<in> set (b64_sextets bs) \<Longrightarrow> x < 64"
  by (induction bs rule: b64_sextets.induct) auto

lemma b64_bytes_sextets: "\<forall>x \<in> set bs. x < 256 \<Longrightarrow> b64_bytes (b64_sextets bs) = Some bs"
  by (induction bs rule: b64_sextets.induct) auto

lemma b64_value_nth: "good_alphabet abc \<Longrightarrow> n < 64 \<Longrightarrow> b64_value abc (abc ! n) = Some n"
  by (simp add: b64_value_def good_alphabet_def map_of_zip_nth)

lemma b64_values_encode:
  "good_alphabet abc \<Longrightarrow> \<forall>n \<in> set ns. n < 64 \<Longrightarrow> b64_values abc (map (\<lambda>n. abc ! n) ns) = Some ns"
  by (induction ns) (simp_all add: b64_value_nth)

lemma b64_EncodeToString_chars:
  "good_alphabet abc \<Longrightarrow> set (b64_EncodeToString abc bs) \<subseteq> set abc"
  using b64_sextets_bound [of "map of_char bs"]
  by (force simp: b64_EncodeToString_def good_alphabet_def)

theorem b64_roundtrip [simp]:
  assumes "good_alphabet abc"
  shows "b64_DecodeString abc (b64_EncodeToString abc bs) = Some bs"
proof -
  let ?ns = "b64_sextets (map of_char bs)"
  have small: "\<forall>x \<in> set (map of_char bs). x < (256 :: nat)" by simp
  then have "\<forall>n \<in> set ?ns. n < 64" using b64_sextets_bound by blast
  then have v: "b64_values abc (b64_EncodeToString abc bs) = Some ?ns"
    by (simp add: b64_EncodeToString_def b64_values_encode [OF assms])
  have "c \<noteq> CHR 0x0A \<and> c \<noteq> CHR 0x0D" if "c \<in> set (b64_EncodeToString abc bs)" for c
    using that b64_EncodeToString_chars [OF assms] assms by (auto simp: good_alphabet_def)
  then have "filter (\<lambda>c. c \<noteq> CHR 0x0A \<and> c \<noteq> CHR 0x0D) (b64_EncodeToString abc bs) =
      b64_EncodeToString abc bs"
    by (simp add: filter_id_conv)
  with v b64_bytes_sextets [OF small] show ?thesis
    by (simp add: b64_DecodeString_def comp_def)
qed

lemma b64_EncodeToString_inject:
  "good_alphabet abc \<Longrightarrow> b64_EncodeToString abc xs = b64_EncodeToString abc ys \<longleftrightarrow> xs = ys"
  by (metis b64_roundtrip option.inject)

end
