(* ===== verification/Password.thy ===== *)
theory Password
  imports GoBase64 GoCrypto
begin

text \<open>
  Password hashing of \<^verbatim>\<open>auth/password.go\<close>: PBKDF2-SHA256 with a random salt in the form
  $algorithm$iterations$salt$key, its parser, and the proof that what HashPassword writes VerifyPassword
  reads. (pbkdf2.Key fails only in FIPS mode or for impossible key lengths; that branch is not modelled.)
\<close>

datatype auth_error =
    ErrEmailTaken
  | ErrInvalidCredentials
  | ErrInvalidRefresh
  | ErrRefreshReuse
  | ErrInvalidAccess
  | ErrWeakPassword
  | ErrInvalidEmail
  | ErrInvalidPasswordHash
  | Auth_Err string

definition passwordAlgorithm :: string where "passwordAlgorithm = ''pbkdf2-sha256''"
definition passwordIterations :: int where "passwordIterations = 600000"
definition passwordSaltBytes :: nat where "passwordSaltBytes = 16"
definition passwordKeyBytes :: nat where "passwordKeyBytes = 32"

text \<open>The random source fills the salt of passwordSaltBytes bytes, or fails.\<close>

definition HashPassword :: "(string, bytes) result \<Rightarrow> string \<Rightarrow> (auth_error, string) result" where
  "HashPassword rnd password =
     (case rnd of
        Inl e \<Rightarrow> Inl (Auth_Err e)
      | Inr salt \<Rightarrow>
          let key = pbkdf2_Key password salt (nat passwordIterations) passwordKeyBytes
          in Inr (''$'' @ passwordAlgorithm @ ''$'' @ FormatInt passwordIterations @ ''$'' @
                  b64_EncodeToString std_alphabet salt @ ''$'' @ b64_EncodeToString std_alphabet key))"

definition VerifyPassword :: "string \<Rightarrow> string \<Rightarrow> (auth_error, bool) result" where
  "VerifyPassword encoded password =
     (let parts = Split (CHR ''$'') encoded in
      if length parts \<noteq> 5 \<or> parts ! 0 \<noteq> '''' \<or> parts ! 1 \<noteq> passwordAlgorithm
      then Inl ErrInvalidPasswordHash
      else case ParseInt (parts ! 2) of
        None \<Rightarrow> Inl ErrInvalidPasswordHash
      | Some iterations \<Rightarrow>
          if iterations < 1 then Inl ErrInvalidPasswordHash
          else case b64_DecodeString std_alphabet (parts ! 3) of
            None \<Rightarrow> Inl ErrInvalidPasswordHash
          | Some salt \<Rightarrow>
              if length salt < 8 then Inl ErrInvalidPasswordHash
              else case b64_DecodeString std_alphabet (parts ! 4) of
                None \<Rightarrow> Inl ErrInvalidPasswordHash
              | Some expected \<Rightarrow>
                  if length expected < 16 then Inl ErrInvalidPasswordHash
                  else
                    let actual = pbkdf2_Key password salt (nat iterations) (length expected)
                    in Inr (actual = expected))"

lemma dollar_not_in_b64: "CHR ''$'' \<notin> set (b64_EncodeToString std_alphabet bs)"
proof -
  have "CHR ''$'' \<notin> set std_alphabet" by (simp add: std_alphabet_def)
  with b64_EncodeToString_chars [OF good_alphabets(1), of bs] show ?thesis by blast
qed

lemma dollar_not_in_FormatInt: "CHR ''$'' \<notin> set (FormatInt i)"
  using FormatInt_chars [of "CHR ''$''" i] by (auto simp: dec_value_def)

lemma Split_password_hash:
  "Split (CHR ''$'')
     (''$'' @ passwordAlgorithm @ ''$'' @ FormatInt i @ ''$'' @ b64_EncodeToString std_alphabet a @ ''$'' @
      b64_EncodeToString std_alphabet b) =
   [[], passwordAlgorithm, FormatInt i, b64_EncodeToString std_alphabet a, b64_EncodeToString std_alphabet b]"
  by (simp add: Split_append Split_no_sep dollar_not_in_b64 dollar_not_in_FormatInt passwordAlgorithm_def)

lemma VerifyPassword_HashPassword:
  assumes "HashPassword (Inr salt) pw = Inr h" and "8 \<le> length salt"
  shows "VerifyPassword h pw' =
    Inr (pbkdf2_Key pw' salt 600000 32 = pbkdf2_Key pw salt 600000 32)"
proof -
  let ?key = "pbkdf2_Key pw salt 600000 32"
  have h: "h = ''$'' @ passwordAlgorithm @ ''$'' @ FormatInt 600000 @ ''$'' @
      b64_EncodeToString std_alphabet salt @ ''$'' @ b64_EncodeToString std_alphabet ?key"
    using assms(1) by (simp add: HashPassword_def Let_def passwordIterations_def passwordKeyBytes_def)
  have "ParseInt (FormatInt 600000) = Some 600000" by (simp add: int64_def)
  with assms(2) show ?thesis
    unfolding VerifyPassword_def h Split_password_hash by (simp add: Let_def)
qed

text \<open>
  A password hash admits the password it was made from. The string HashPassword builds from a
  16-byte salt parses, and VerifyPassword answers true for the hashed password; for any other password it
  answers true exactly when PBKDF2 with that salt derives the same 32-byte key, and never errs.
\<close>

lemma password_hash_roundtrip:
  assumes "length salt = passwordSaltBytes"
  shows "\<exists>h. HashPassword (Inr salt) pw = Inr h \<and> VerifyPassword h pw = Inr True \<and>
    (\<forall>pw'. VerifyPassword h pw' =
       Inr (pbkdf2_Key pw' salt 600000 32 = pbkdf2_Key pw salt 600000 32))"
proof -
  obtain h where h: "HashPassword (Inr salt) pw = Inr h" by (simp add: HashPassword_def Let_def)
  have "8 \<le> length salt" using assms by (simp add: passwordSaltBytes_def)
  from VerifyPassword_HashPassword [OF h this] h show ?thesis by simp
qed

lemma password_hash_roundtrip_example:
  "\<exists>h. HashPassword (Inr (replicate 16 (CHR ''s''))) ''correct horse'' = Inr h \<and>
     VerifyPassword h ''correct horse'' = Inr True"
proof -
  have "length (replicate 16 (CHR ''s'')) = passwordSaltBytes" by (simp add: passwordSaltBytes_def)
  from password_hash_roundtrip [OF this, of "''correct horse''"] show ?thesis by blast
qed

end
