(* ===== verification/AuthStore.thy ===== *)
theory AuthStore
  imports Password
begin

text \<open>
  Users and refresh tokens: the data of \<^verbatim>\<open>auth/model.go\<close>, the abstract table of refresh tokens with the
  rotation every repository must implement, the repository contract as the locale auth_store, and the
  in-memory repository of \<^verbatim>\<open>auth/memory_repository.go\<close>.
\<close>

section \<open>Data (model.go) and the Repository interface\<close>

record User =
  us_ID :: string
  us_Email :: string
  us_PasswordHash :: string
  us_CreatedAt :: instant

record TokenPair =
  tp_UserID :: string
  tp_AccessToken :: string
  tp_RefreshToken :: string
  tp_TokenType :: string
  tp_ExpiresInSeconds :: int

record Credentials =
  cr_Email :: string
  cr_Password :: string

text \<open>CreateUser also takes the time and the random bytes the repository draws for the id.\<close>

record 's auth_repo =
  ar_CreateUser :: "instant \<Rightarrow> (string, bytes) result \<Rightarrow> string \<Rightarrow> string \<Rightarrow> 's \<Rightarrow>
    (auth_error, User, 's) outcome"
  ar_GetUserByEmail :: "string \<Rightarrow> 's \<Rightarrow> (auth_error, User, 's) outcome"
  ar_CreateRefresh :: "string \<Rightarrow> string \<Rightarrow> string \<Rightarrow> instant \<Rightarrow> 's \<Rightarrow> (auth_error, unit, 's) outcome"
  ar_RotateRefresh :: "string \<Rightarrow> string \<Rightarrow> instant \<Rightarrow> instant \<Rightarrow> 's \<Rightarrow> (auth_error, string, 's) outcome"

section \<open>The abstract refresh table\<close>

record refresh_row =
  rr_userID :: string
  rr_familyID :: string
  rr_expiresAt :: instant
  rr_usedAt :: "instant option"
  rr_revokedAt :: "instant option"

type_synonym refresh_table = "string \<rightharpoonup> refresh_row"

definition new_row :: "string \<Rightarrow> string \<Rightarrow> instant \<Rightarrow> refresh_row" where
  "new_row userID familyID expiresAt =
     \<lparr>rr_userID = userID, rr_familyID = familyID, rr_expiresAt = expiresAt,
      rr_usedAt = None, rr_revokedAt = None\<rparr>"

definition revoke_row :: "string \<Rightarrow> instant \<Rightarrow> refresh_row \<Rightarrow> refresh_row" where
  "revoke_row fam now r =
     (if rr_familyID r = fam \<and> rr_revokedAt r = None then r\<lparr>rr_revokedAt := Some now\<rparr> else r)"

text \<open>What presenting a token does, and what it answers.\<close>

definition rotate_spec ::
  "string \<Rightarrow> string \<Rightarrow> instant \<Rightarrow> instant \<Rightarrow> refresh_table \<Rightarrow> (auth_error, string, refresh_table) outcome"
where
  "rotate_spec h h' expires' now T =
     (case T h of
        None \<Rightarrow> (Inl ErrInvalidRefresh, T)
      | Some r \<Rightarrow>
          if rr_revokedAt r \<noteq> None \<or> rr_expiresAt r \<le> now then (Inl ErrInvalidRefresh, T)
          else if rr_usedAt r \<noteq> None
            then (Inl ErrRefreshReuse, map_option (revoke_row (rr_familyID r) now) \<circ> T)
          else (Inr (rr_userID r),
                T(h \<mapsto> r\<lparr>rr_usedAt := Some now\<rparr>, h' \<mapsto> new_row (rr_userID r) (rr_familyID r) expires')))"

section \<open>The repository contract\<close>

locale auth_store =
  fixes repo :: "'s auth_repo"
    and users :: "'s \<Rightarrow> string \<rightharpoonup> User"
    and tokens :: "'s \<Rightarrow> refresh_table"
  assumes CreateUser_spec: "ar_CreateUser repo now rnd email hash s = (ru, s') \<Longrightarrow>
      tokens s' = tokens s \<and>
      (case ru of
         Inl e \<Rightarrow> users s' = users s
       | Inr u \<Rightarrow> email \<notin> dom (users s) \<and> us_Email u = email \<and> us_PasswordHash u = hash \<and>
           users s' = (users s)(email \<mapsto> u))"
    and CreateUser_taken: "email \<in> dom (users s) \<Longrightarrow>
      ar_CreateUser repo now rnd email hash s = (ru, s') \<Longrightarrow>
      ru = Inl ErrEmailTaken \<or> (\<exists>m. ru = Inl (Auth_Err m))"
    and GetUserByEmail_spec: "ar_GetUserByEmail repo email s = (ru, s') \<Longrightarrow>
      users s' = users s \<and> tokens s' = tokens s \<and>
      ((\<exists>m. ru = Inl (Auth_Err m)) \<or>
       ru = (case users s email of None \<Rightarrow> Inl ErrInvalidCredentials | Some u \<Rightarrow> Inr u))"
    and CreateRefresh_spec: "ar_CreateRefresh repo userID fam h expires s = (rn, s') \<Longrightarrow>
      users s' = users s \<and>
      (case rn of
         Inl e \<Rightarrow> tokens s' = tokens s
       | Inr _ \<Rightarrow> tokens s' = (tokens s)(h \<mapsto> new_row userID fam expires))"
    and RotateRefresh_spec: "ar_RotateRefresh repo h h' expires now s = (rs, s') \<Longrightarrow>
      users s' = users s \<and>
      (tokens s' = tokens s \<and> (\<exists>m. rs = Inl (Auth_Err m)) \<or>
       (rs, tokens s') = rotate_spec h h' expires now (tokens s))"

section \<open>The in-memory repository\<close>

record memoryRefresh =
  mr_userID :: string
  mr_familyID :: string
  mr_tokenHash :: string
  mr_expiresAt :: instant
  mr_usedAt :: "instant option"
  mr_revokedAt :: "instant option"

record auth_memory =
  am_users :: "string \<rightharpoonup> User"
  am_refresh :: "string \<rightharpoonup> memoryRefresh"

definition randomHex :: "(string, bytes) result \<Rightarrow> (auth_error, string) result" where
  "randomHex rnd = (case rnd of Inl e \<Rightarrow> Inl (Auth_Err e) | Inr raw \<Rightarrow> Inr (hex_EncodeToString raw))"

definition auth_NewMemoryRepository :: auth_memory where
  "auth_NewMemoryRepository = \<lparr>am_users = Map.empty, am_refresh = Map.empty\<rparr>"

definition am_CreateUser ::
  "instant \<Rightarrow> (string, bytes) result \<Rightarrow> string \<Rightarrow> string \<Rightarrow> auth_memory \<Rightarrow>
   (auth_error, User, auth_memory) outcome" where
  "am_CreateUser now rnd email passwordHash s =
     (if am_users s email \<noteq> None then (Inl ErrEmailTaken, s)
      else case randomHex rnd of
        Inl e \<Rightarrow> (Inl e, s)
      | Inr i \<Rightarrow>
          let user = \<lparr>us_ID = ''usr_memory_'' @ i, us_Email = email, us_PasswordHash = passwordHash,
                      us_CreatedAt = now\<rparr>
          in (Inr user, s\<lparr>am_users := (am_users s)(email \<mapsto> user)\<rparr>))"

definition am_GetUserByEmail ::
  "string \<Rightarrow> auth_memory \<Rightarrow> (auth_error, User, auth_memory) outcome" where
  "am_GetUserByEmail email s =
     (case am_users s email of None \<Rightarrow> (Inl ErrInvalidCredentials, s) | Some user \<Rightarrow> (Inr user, s))"

definition am_CreateRefresh ::
  "string \<Rightarrow> string \<Rightarrow> string \<Rightarrow> instant \<Rightarrow> auth_memory \<Rightarrow> (auth_error, unit, auth_memory) outcome"
where
  "am_CreateRefresh userID familyID tokenHash expiresAt s =
     (Inr (),
      s\<lparr>am_refresh := (am_refresh s)(tokenHash \<mapsto>
          \<lparr>mr_userID = userID, mr_familyID = familyID, mr_tokenHash = tokenHash,
           mr_expiresAt = expiresAt, mr_usedAt = None, mr_revokedAt = None\<rparr>)\<rparr>)"

text \<open>The loop over the map marks every record of the family that is not revoked yet.\<close>

definition am_revokeFamily :: "string \<Rightarrow> instant \<Rightarrow> (string \<rightharpoonup> memoryRefresh) \<Rightarrow> (string \<rightharpoonup> memoryRefresh)"
where
  "am_revokeFamily familyID now m =
     (\<lambda>k. map_option
        (\<lambda>item. if mr_familyID item = familyID \<and> mr_revokedAt item = None
                then item\<lparr>mr_revokedAt := Some now\<rparr> else item) (m k))"

definition am_RotateRefresh ::
  "string \<Rightarrow> string \<Rightarrow> instant \<Rightarrow> instant \<Rightarrow> auth_memory \<Rightarrow> (auth_error, string, auth_memory) outcome"
where
  "am_RotateRefresh tokenHash replacementHash replacementExpiresAt now s =
     (case am_refresh s tokenHash of
        None \<Rightarrow> (Inl ErrInvalidRefresh, s)
      | Some record \<Rightarrow>
          if mr_revokedAt record \<noteq> None \<or> \<not> now < mr_expiresAt record then (Inl ErrInvalidRefresh, s)
          else if mr_usedAt record \<noteq> None then
            (Inl ErrRefreshReuse,
             s\<lparr>am_refresh := am_revokeFamily (mr_familyID record) now (am_refresh s)\<rparr>)
          else
            (Inr (mr_userID record),
             s\<lparr>am_refresh := (am_refresh s)
                 (tokenHash \<mapsto> record\<lparr>mr_usedAt := Some now\<rparr>,
                  replacementHash \<mapsto>
                    \<lparr>mr_userID = mr_userID record, mr_familyID = mr_familyID record,
                     mr_tokenHash = replacementHash, mr_expiresAt = replacementExpiresAt,
                     mr_usedAt = None, mr_revokedAt = None\<rparr>)\<rparr>))"

definition auth_memory_repo :: "auth_memory auth_repo" where
  "auth_memory_repo =
     \<lparr>ar_CreateUser = am_CreateUser, ar_GetUserByEmail = am_GetUserByEmail,
      ar_CreateRefresh = am_CreateRefresh, ar_RotateRefresh = am_RotateRefresh\<rparr>"

lemma auth_memory_repo_simps [simp]:
  "ar_CreateUser auth_memory_repo = am_CreateUser"
  "ar_GetUserByEmail auth_memory_repo = am_GetUserByEmail"
  "ar_CreateRefresh auth_memory_repo = am_CreateRefresh"
  "ar_RotateRefresh auth_memory_repo = am_RotateRefresh"
  by (simp_all add: auth_memory_repo_def)

definition row_of :: "memoryRefresh \<Rightarrow> refresh_row" where
  "row_of r =
     \<lparr>rr_userID = mr_userID r, rr_familyID = mr_familyID r, rr_expiresAt = mr_expiresAt r,
      rr_usedAt = mr_usedAt r, rr_revokedAt = mr_revokedAt r\<rparr>"

definition am_tokens :: "auth_memory \<Rightarrow> refresh_table" where
  "am_tokens s = map_option row_of \<circ> am_refresh s"

lemma row_of_simps [simp]:
  "rr_userID (row_of r) = mr_userID r" "rr_familyID (row_of r) = mr_familyID r"
  "rr_expiresAt (row_of r) = mr_expiresAt r" "rr_usedAt (row_of r) = mr_usedAt r"
  "rr_revokedAt (row_of r) = mr_revokedAt r"
  by (simp_all add: row_of_def)

lemma am_RotateRefresh_spec:
  "am_RotateRefresh h h' expires now s = (r, s') \<Longrightarrow>
   am_users s' = am_users s \<and> (r, am_tokens s') = rotate_spec h h' expires now (am_tokens s)"
proof -
  assume e: "am_RotateRefresh h h' expires now s = (r, s')"
  show ?thesis
  proof (cases "am_refresh s h")
    case None
    with e show ?thesis by (auto simp: am_RotateRefresh_def rotate_spec_def am_tokens_def)
  next
    case (Some rec)
    have rev: "map_option row_of (am_revokeFamily f now (am_refresh s) k) =
        map_option (revoke_row f now) (map_option row_of (am_refresh s k))" for f k
      by (cases "am_refresh s k") (simp_all add: am_revokeFamily_def revoke_row_def row_of_def)
    from e Some rev show ?thesis
      by (auto simp: am_RotateRefresh_def rotate_spec_def am_tokens_def fun_eq_iff new_row_def
          row_of_def split: if_splits)
  qed
qed

lemma am_tokens_revoke:
  "am_tokens (s\<lparr>am_refresh := am_revokeFamily f now (am_refresh s)\<rparr>) =
   map_option (revoke_row f now) \<circ> am_tokens s"
proof
  fix k
  show "am_tokens (s\<lparr>am_refresh := am_revokeFamily f now (am_refresh s)\<rparr>) k =
      (map_option (revoke_row f now) \<circ> am_tokens s) k"
    by (cases "am_refresh s k") (simp_all add: am_tokens_def am_revokeFamily_def revoke_row_def row_of_def)
qed

interpretation amem: auth_store auth_memory_repo am_users am_tokens
proof unfold_locales
  fix h h' expires now s rs s'
  assume "ar_RotateRefresh auth_memory_repo h h' expires now s = (rs, s')"
  then show "am_users s' = am_users s \<and>
      (am_tokens s' = am_tokens s \<and> (\<exists>m. rs = Inl (Auth_Err m)) \<or>
       (rs, am_tokens s') = rotate_spec h h' expires now (am_tokens s))"
    using am_RotateRefresh_spec by simp
qed (auto simp: am_CreateUser_def am_GetUserByEmail_def am_CreateRefresh_def am_tokens_def new_row_def
      row_of_def randomHex_def fun_eq_iff Let_def split: option.splits sum.splits if_splits)

end
