(* ===== verification/AuthService.thy ===== *)
theory AuthService
  imports AuthStore
begin

text \<open>
  The authentication service of \<^verbatim>\<open>auth/service.go\<close> over any repository. The JWT library (golang-jwt) and,
  of net/mail and the Unicode case tables, address parsing and lower-casing are parameters.
\<close>

section \<open>Parameters and state\<close>

record jwt_claims =
  jc_Issuer :: string
  jc_Subject :: string
  jc_Audience :: "string list"
  jc_ExpiresAt :: instant
  jc_NotBefore :: instant
  jc_IssuedAt :: instant
  jc_ID :: string

text \<open>
  Signing claims with HS256, and parsing a token with the options ValidateAccess passes: the only valid
  method is HS256, issuer and audience must match, an expiry is required. Parsing yields the claims and
  whether the token is valid, or an error.
\<close>

record jwt_lib =
  jwt_Sign :: "jwt_claims \<Rightarrow> bytes \<Rightarrow> (string, string) result"
  jwt_ParseHS256 :: "instant \<Rightarrow> string \<Rightarrow> bytes \<Rightarrow> string \<Rightarrow> string \<Rightarrow> (string, jwt_claims \<times> bool) result"

record mail_lib =
  ml_ToLower :: "string \<Rightarrow> string"
  ml_ParseAddress :: "string \<Rightarrow> string option"

record 's auth_Service =
  as_repo :: "'s auth_repo"
  as_jwtSecret :: bytes
  as_issuer :: string
  as_audience :: string
  as_jwt :: jwt_lib
  as_mail :: mail_lib

definition auth_NewService :: "jwt_lib \<Rightarrow> mail_lib \<Rightarrow> 's auth_repo \<Rightarrow> bytes \<Rightarrow> 's auth_Service" where
  "auth_NewService jwt mail repo jwtSecret =
     \<lparr>as_repo = repo, as_jwtSecret = jwtSecret, as_issuer = ''pixelgo'',
      as_audience = ''pixelgo-mobile'', as_jwt = jwt, as_mail = mail\<rparr>"

text \<open>What one call draws from its surroundings: the time and the random bytes, by their use.\<close>

record auth_env =
  ae_now :: instant
  ae_salt :: "(string, bytes) result"
  ae_userid :: "(string, bytes) result"
  ae_jti :: "(string, bytes) result"
  ae_token :: "(string, bytes) result"
  ae_family :: "(string, bytes) result"

section \<open>The operations\<close>

definition accessTTL :: duration where "accessTTL = 15 * minute"
definition refreshTTL :: duration where "refreshTTL = 30 * 24 * hour"

definition normalizeEmail :: "mail_lib \<Rightarrow> string \<Rightarrow> (auth_error, string) result" where
  "normalizeEmail ml raw =
     (let email = ml_ToLower ml (TrimSpace raw) in
      case ml_ParseAddress ml email of
        None \<Rightarrow> Inl ErrInvalidEmail
      | Some address \<Rightarrow> if address \<noteq> email then Inl ErrInvalidEmail else Inr email)"

definition validatePassword :: "string \<Rightarrow> (auth_error, unit) result" where
  "validatePassword password =
     (let size = length password in if size < 12 \<or> size > 1024 then Inl ErrWeakPassword else Inr ())"

definition hashOpaqueToken :: "string \<Rightarrow> string" where
  "hashOpaqueToken token = hex_EncodeToString (sha256_Sum256 token)"

definition newOpaqueToken :: "(string, bytes) result \<Rightarrow> (auth_error, string \<times> string) result" where
  "newOpaqueToken rnd =
     (case rnd of
        Inl e \<Rightarrow> Inl (Auth_Err e)
      | Inr raw \<Rightarrow>
          let token = b64_EncodeToString url_alphabet raw in Inr (token, hashOpaqueToken token))"

definition issueAccess ::
  "'s auth_Service \<Rightarrow> (string, bytes) result \<Rightarrow> string \<Rightarrow> instant \<Rightarrow> (auth_error, string) result" where
  "issueAccess svc rnd userID now =
     (case randomHex rnd of
        Inl e \<Rightarrow> Inl e
      | Inr jti \<Rightarrow>
          (case jwt_Sign (as_jwt svc)
                  \<lparr>jc_Issuer = as_issuer svc, jc_Subject = userID, jc_Audience = [as_audience svc],
                   jc_ExpiresAt = now + accessTTL, jc_NotBefore = now - 5 * second,
                   jc_IssuedAt = now, jc_ID = jti\<rparr> (as_jwtSecret svc) of
             Inl e \<Rightarrow> Inl (Auth_Err e)
           | Inr token \<Rightarrow> Inr token))"

definition token_pair :: "string \<Rightarrow> string \<Rightarrow> string \<Rightarrow> TokenPair" where
  "token_pair userID access refresh =
     \<lparr>tp_UserID = userID, tp_AccessToken = access, tp_RefreshToken = refresh,
      tp_TokenType = ''Bearer'', tp_ExpiresInSeconds = accessTTL div second\<rparr>"

definition issueSession ::
  "'s auth_Service \<Rightarrow> auth_env \<Rightarrow> string \<Rightarrow> 's \<Rightarrow> (auth_error, TokenPair, 's) outcome" where
  "issueSession svc env userID s =
     (case issueAccess svc (ae_jti env) userID (ae_now env) of
        Inl e \<Rightarrow> (Inl e, s)
      | Inr access \<Rightarrow>
          (case newOpaqueToken (ae_token env) of
             Inl e \<Rightarrow> (Inl e, s)
           | Inr (refresh, refreshHash) \<Rightarrow>
               (case randomHex (ae_family env) of
                  Inl e \<Rightarrow> (Inl e, s)
                | Inr familyID \<Rightarrow>
                    (case ar_CreateRefresh (as_repo svc) userID familyID refreshHash
                            (ae_now env + refreshTTL) s of
                       (Inl e, s') \<Rightarrow> (Inl e, s')
                     | (Inr _, s') \<Rightarrow> (Inr (token_pair userID access refresh), s')))))"

definition auth_Register ::
  "'s auth_Service \<Rightarrow> auth_env \<Rightarrow> Credentials \<Rightarrow> 's \<Rightarrow> (auth_error, TokenPair, 's) outcome" where
  "auth_Register svc env inp s =
     (case normalizeEmail (as_mail svc) (cr_Email inp) of
        Inl e \<Rightarrow> (Inl e, s)
      | Inr email \<Rightarrow>
          (case validatePassword (cr_Password inp) of
             Inl e \<Rightarrow> (Inl e, s)
           | Inr _ \<Rightarrow>
               (case HashPassword (ae_salt env) (cr_Password inp) of
                  Inl e \<Rightarrow> (Inl e, s)
                | Inr hash \<Rightarrow>
                    (case ar_CreateUser (as_repo svc) (ae_now env) (ae_userid env) email hash s of
                       (Inl e, s') \<Rightarrow> (Inl e, s')
                     | (Inr user, s') \<Rightarrow> issueSession svc env (us_ID user) s'))))"

definition auth_Login ::
  "'s auth_Service \<Rightarrow> auth_env \<Rightarrow> Credentials \<Rightarrow> 's \<Rightarrow> (auth_error, TokenPair, 's) outcome" where
  "auth_Login svc env inp s =
     (case normalizeEmail (as_mail svc) (cr_Email inp) of
        Inl e \<Rightarrow> (Inl ErrInvalidCredentials, s)
      | Inr email \<Rightarrow>
          (case ar_GetUserByEmail (as_repo svc) email s of
             (Inl e, s') \<Rightarrow> (Inl ErrInvalidCredentials, s')
           | (Inr user, s') \<Rightarrow>
               (case VerifyPassword (us_PasswordHash user) (cr_Password inp) of
                  Inl e \<Rightarrow> (Inl ErrInvalidCredentials, s')
                | Inr ok \<Rightarrow>
                    if \<not> ok then (Inl ErrInvalidCredentials, s')
                    else issueSession svc env (us_ID user) s')))"

definition auth_Refresh ::
  "'s auth_Service \<Rightarrow> auth_env \<Rightarrow> string \<Rightarrow> 's \<Rightarrow> (auth_error, TokenPair, 's) outcome" where
  "auth_Refresh svc env refreshToken s =
     (if refreshToken = '''' then (Inl ErrInvalidRefresh, s)
      else case newOpaqueToken (ae_token env) of
        Inl e \<Rightarrow> (Inl e, s)
      | Inr (newRefresh, newHash) \<Rightarrow>
          let now = ae_now env in
          (case ar_RotateRefresh (as_repo svc) (hashOpaqueToken refreshToken) newHash
                  (now + refreshTTL) now s of
             (Inl e, s') \<Rightarrow> (Inl e, s')
           | (Inr userID, s') \<Rightarrow>
               (case issueAccess svc (ae_jti env) userID now of
                  Inl e \<Rightarrow> (Inl e, s')
                | Inr access \<Rightarrow> (Inr (token_pair userID access newRefresh), s'))))"

definition auth_ValidateAccess :: "'s auth_Service \<Rightarrow> instant \<Rightarrow> string \<Rightarrow> (auth_error, string) result"
where
  "auth_ValidateAccess svc now raw =
     (case jwt_ParseHS256 (as_jwt svc) now raw (as_jwtSecret svc) (as_issuer svc) (as_audience svc) of
        Inl e \<Rightarrow> Inl ErrInvalidAccess
      | Inr (claims, valid) \<Rightarrow>
          if \<not> valid \<or> jc_Subject claims = '''' then Inl ErrInvalidAccess else Inr (jc_Subject claims))"

section \<open>Effect on the refresh table\<close>

text \<open>
  A session starts with a fresh family and a fresh token; otherwise tokens are presented for rotation
  with a fresh replacement.
\<close>

inductive session_step :: "refresh_table \<Rightarrow> refresh_table \<Rightarrow> bool" where
  unchanged: "session_step T T"
| started: "T h = None \<Longrightarrow> (\<forall>k r. T k = Some r \<longrightarrow> rr_familyID r \<noteq> fam) \<Longrightarrow>
     session_step T (T(h \<mapsto> new_row u fam expires))"
| presented: "T h' = None \<Longrightarrow> rotate_spec h h' expires now T = (r, T') \<Longrightarrow> session_step T T'"

inductive_cases session_stepE: "session_step T T'"

datatype auth_call =
    CallRegister auth_env Credentials
  | CallLogin auth_env Credentials
  | CallRefresh auth_env string

fun call_env :: "auth_call \<Rightarrow> auth_env" where
  "call_env (CallRegister env inp) = env"
| "call_env (CallLogin env inp) = env"
| "call_env (CallRefresh env t) = env"

fun auth_exec :: "'s auth_Service \<Rightarrow> auth_call \<Rightarrow> 's \<Rightarrow> 's" where
  "auth_exec svc (CallRegister env inp) s = snd (auth_Register svc env inp s)"
| "auth_exec svc (CallLogin env inp) s = snd (auth_Login svc env inp s)"
| "auth_exec svc (CallRefresh env t) s = snd (auth_Refresh svc env t s)"

text \<open>The draws of a call are fresh: the new token's hash and the family id are not in use.\<close>

definition fresh_draws :: "auth_env \<Rightarrow> refresh_table \<Rightarrow> bool" where
  "fresh_draws env T \<longleftrightarrow>
     (\<forall>t h. newOpaqueToken (ae_token env) = Inr (t, h) \<longrightarrow> T h = None) \<and>
     (\<forall>f k r. randomHex (ae_family env) = Inr f \<and> T k = Some r \<longrightarrow> rr_familyID r \<noteq> f)"

fun auth_run :: "'s auth_Service \<Rightarrow> auth_call list \<Rightarrow> 's \<Rightarrow> 's" where
  "auth_run svc [] s = s"
| "auth_run svc (x # xs) s = auth_run svc xs (auth_exec svc x s)"

fun all_fresh :: "('s \<Rightarrow> refresh_table) \<Rightarrow> 's auth_Service \<Rightarrow> auth_call list \<Rightarrow> 's \<Rightarrow> bool" where
  "all_fresh tokens svc [] s = True"
| "all_fresh tokens svc (x # xs) s =
     (fresh_draws (call_env x) (tokens s) \<and> all_fresh tokens svc xs (auth_exec svc x s))"

context auth_store begin

lemma issueSession_step:
  assumes "as_repo svc = repo" and "fresh_draws env (tokens s)"
  shows "session_step (tokens s) (tokens (snd (issueSession svc env u s)))"
proof -
  have fresh: "tokens s h = None" "\<forall>k r. tokens s k = Some r \<longrightarrow> rr_familyID r \<noteq> f"
    if "newOpaqueToken (ae_token env) = Inr (t, h)" "randomHex (ae_family env) = Inr f" for t h f
    using that assms(2) by (auto simp: fresh_draws_def)
  show ?thesis
    using assms(1) CreateRefresh_spec [of u]
    by (auto simp: issueSession_def session_step.unchanged intro!: session_step.started fresh
        split: sum.splits prod.splits)
      (metis CreateRefresh_spec fresh session_step.started session_step.unchanged sum.simps(5,6))+
qed

end

end
