(* ===== verification/AuthSessions.thy ===== *)
theory AuthSessions
  imports AuthService
begin

text \<open>
  Rotating refresh tokens: every call of the service moves the refresh table by one session step, each
  family has at most one live token in every reachable table, and a family whose replayed token was
  detected is dead for good.
\<close>

section \<open>Live tokens and dead families\<close>

definition live :: "refresh_table \<Rightarrow> string \<Rightarrow> string \<Rightarrow> bool" where
  "live T fam h \<longleftrightarrow>
     (\<exists>r. T h = Some r \<and> rr_familyID r = fam \<and> rr_usedAt r = None \<and> rr_revokedAt r = None)"

definition one_live :: "refresh_table \<Rightarrow> bool" where
  "one_live T \<longleftrightarrow> (\<forall>fam h h'. live T fam h \<and> live T fam h' \<longrightarrow> h = h')"

definition dead_family :: "refresh_table \<Rightarrow> string \<Rightarrow> bool" where
  "dead_family T fam \<longleftrightarrow>
     (\<exists>h r. T h = Some r \<and> rr_familyID r = fam) \<and>
     (\<forall>h r. T h = Some r \<and> rr_familyID r = fam \<longrightarrow> rr_revokedAt r \<noteq> None)"

text \<open>A token that can never succeed again: spent or revoked.\<close>

definition spent :: "refresh_table \<Rightarrow> string \<Rightarrow> bool" where
  "spent T h \<longleftrightarrow> (\<exists>r. T h = Some r \<and> (rr_usedAt r \<noteq> None \<or> rr_revokedAt r \<noteq> None))"

lemma revoke_row_simps [simp]:
  "rr_userID (revoke_row f now r) = rr_userID r" "rr_familyID (revoke_row f now r) = rr_familyID r"
  "rr_expiresAt (revoke_row f now r) = rr_expiresAt r" "rr_usedAt (revoke_row f now r) = rr_usedAt r"
  "rr_revokedAt (revoke_row f now r) =
     (if rr_familyID r = f \<and> rr_revokedAt r = None then Some now else rr_revokedAt r)"
  by (simp_all add: revoke_row_def)

lemma new_row_simps [simp]:
  "rr_userID (new_row u f e) = u" "rr_familyID (new_row u f e) = f" "rr_expiresAt (new_row u f e) = e"
  "rr_usedAt (new_row u f e) = None" "rr_revokedAt (new_row u f e) = None"
  by (simp_all add: new_row_def)

text \<open>The four outcomes of presenting a token.\<close>

lemma rotate_cases:
  assumes "rotate_spec h h' expires now T = (r, T')"
  obtains (invalid) "r = Inl ErrInvalidRefresh" "T' = T"
      "\<And>row. T h = Some row \<Longrightarrow> rr_revokedAt row \<noteq> None \<or> rr_expiresAt row \<le> now"
  | (reuse) row where "T h = Some row" "r = Inl ErrRefreshReuse" "rr_revokedAt row = None"
      "now < rr_expiresAt row" "rr_usedAt row \<noteq> None"
      "T' = map_option (revoke_row (rr_familyID row) now) \<circ> T"
  | (rotated) row where "T h = Some row" "r = Inr (rr_userID row)" "rr_revokedAt row = None"
      "now < rr_expiresAt row" "rr_usedAt row = None"
      "T' = T(h \<mapsto> row\<lparr>rr_usedAt := Some now\<rparr>, h' \<mapsto> new_row (rr_userID row) (rr_familyID row) expires)"
  using assms that by (fastforce simp: rotate_spec_def split: option.splits if_splits)

lemma live_revoke: "live (map_option (revoke_row f now) \<circ> T) fam h \<Longrightarrow> live T fam h"
  by (auto simp: live_def split: if_splits)

lemma one_live_step: "session_step T T' \<Longrightarrow> one_live T \<Longrightarrow> one_live T'"
proof (induction rule: session_step.induct)
  case (started T h fam u expires)
  have other: "k = h \<and> f = fam \<or> k \<noteq> h \<and> f \<noteq> fam \<and> live T f k"
    if "live (T(h \<mapsto> new_row u fam expires)) f k" for f k
    using that started(2) by (auto simp: live_def split: if_splits)
  show ?case
    unfolding one_live_def using other started(3) unfolding one_live_def by metis
next
  case (presented T h' h expires now r T')
  from presented.hyps(2) show ?case
  proof (cases rule: rotate_cases)
    case invalid
    with presented show ?thesis by simp
  next
    case (reuse row)
    with presented.prems show ?thesis unfolding one_live_def by (metis live_revoke)
  next
    case (rotated row)
    with presented.hyps(1) have "h \<noteq> h'" by auto
    have rowlive: "live T (rr_familyID row) h" using rotated by (simp add: live_def)
    have other: "k = h' \<and> f = rr_familyID row \<or> k \<noteq> h' \<and> k \<noteq> h \<and> live T f k" if "live T' f k" for f k
      using that rotated(6) \<open>h \<noteq> h'\<close> by (auto simp: live_def split: if_splits)
    show ?thesis
      unfolding one_live_def
    proof (intro allI impI)
      fix f k k'
      assume "live T' f k \<and> live T' f k'"
      with other [of f k] other [of f k'] rowlive presented.prems show "k = k'"
        unfolding one_live_def by metis
    qed
  qed
qed simp

lemma dead_family_step: "session_step T T' \<Longrightarrow> dead_family T fam \<Longrightarrow> dead_family T' fam"
proof (induction rule: session_step.induct)
  case (started T h fam' u expires)
  then have "fam' \<noteq> fam" by (auto simp: dead_family_def)
  with started show ?case
    unfolding dead_family_def by (metis fun_upd_other fun_upd_same new_row_simps(2) option.inject option.simps(3))
next
  case (presented T h' h expires now r T')
  from presented.hyps(2) show ?case
  proof (cases rule: rotate_cases)
    case invalid
    with presented show ?thesis by simp
  next
    case (reuse row)
    from presented.prems obtain k r0 where k: "T k = Some r0" "rr_familyID r0 = fam"
      and all: "\<And>h r. T h = Some r \<Longrightarrow> rr_familyID r = fam \<Longrightarrow> rr_revokedAt r \<noteq> None"
      by (auto simp: dead_family_def)
    have "T' k = Some (revoke_row (rr_familyID row) now r0)" using reuse(6) k by simp
    moreover have "rr_revokedAt r2 \<noteq> None" if "T' h2 = Some r2" "rr_familyID r2 = fam" for h2 r2
      using that reuse(6) all by auto
    ultimately show ?thesis using k unfolding dead_family_def by fastforce
  next
    case (rotated row)
    from presented.prems have "rr_familyID row = fam \<Longrightarrow> rr_revokedAt row \<noteq> None"
      using rotated(1) unfolding dead_family_def by blast
    with rotated(3) have fam: "rr_familyID row \<noteq> fam" by blast
    from presented.prems obtain k r0 where k: "T k = Some r0" "rr_familyID r0 = fam"
      by (auto simp: dead_family_def)
    with fam rotated presented.hyps(1) have "k \<noteq> h" "k \<noteq> h'" by auto
    with k rotated have "T' k = Some r0" by simp
    moreover have "rr_revokedAt r2 \<noteq> None" if "T' h2 = Some r2" "rr_familyID r2 = fam" for h2 r2
      using that rotated(6) fam presented.prems by (auto simp: dead_family_def split: if_splits)
    ultimately show ?thesis using k unfolding dead_family_def by blast
  qed
qed simp

lemma spent_step: "session_step T T' \<Longrightarrow> spent T h \<Longrightarrow> spent T' h"
proof (induction rule: session_step.induct)
  case (started T k fam u expires)
  then show ?case by (auto simp: spent_def)
next
  case (presented T h' k expires now r T')
  from presented.hyps(2) show ?case
    by (cases rule: rotate_cases) (use presented in \<open>auto simp: spent_def\<close>)
qed simp

lemma spent_rotate:
  "spent T h \<Longrightarrow> fst (rotate_spec h h' expires now T) \<in> {Inl ErrInvalidRefresh, Inl ErrRefreshReuse}"
  by (cases "T h"; cases "rr_revokedAt (the (T h)) = None"; cases "rr_expiresAt (the (T h)) \<le> now")
    (auto simp: spent_def rotate_spec_def)

lemma dead_family_rotate:
  "dead_family T fam \<Longrightarrow> T h = Some r \<Longrightarrow> rr_familyID r = fam \<Longrightarrow>
   rotate_spec h h' expires now T = (Inl ErrInvalidRefresh, T)"
  by (auto simp: dead_family_def rotate_spec_def)

section \<open>The service moves by session steps\<close>

context auth_store begin

lemma exec_step:
  assumes "as_repo svc = repo" and "fresh_draws (call_env x) (tokens s)"
  shows "session_step (tokens s) (tokens (auth_exec svc x s))"
proof (cases x)
  case (CallRegister env inp)
  have iss: "session_step (tokens s) (tokens (snd (issueSession svc env u s')))"
    if "tokens s' = tokens s" for u s'
    using issueSession_step [OF assms(1), of env s' u] that assms(2) CallRegister by simp
  show ?thesis
    using CreateUser_spec assms(1) CallRegister
    by (simp add: auth_Register_def session_step.unchanged split: sum.splits prod.splits)
      (metis iss session_step.unchanged snd_conv)
next
  case (CallLogin env inp)
  have iss: "session_step (tokens s) (tokens (snd (issueSession svc env u s')))"
    if "tokens s' = tokens s" for u s'
    using issueSession_step [OF assms(1), of env s' u] that assms(2) CallLogin by simp
  show ?thesis
    using GetUserByEmail_spec assms(1) CallLogin
    by (simp add: auth_Login_def session_step.unchanged split: sum.splits prod.splits)
      (metis iss session_step.unchanged snd_conv)
next
  case (CallRefresh env t)
  show ?thesis
  proof (cases "t = '''' \<or> (\<exists>e. newOpaqueToken (ae_token env) = Inl e)")
    case True
    with CallRefresh show ?thesis by (auto simp: auth_Refresh_def session_step.unchanged)
  next
    case False
    then obtain nt nh where n: "newOpaqueToken (ae_token env) = Inr (nt, nh)"
      by (cases "newOpaqueToken (ae_token env)") auto
    obtain r s' where rot: "ar_RotateRefresh repo (hashOpaqueToken t) nh (ae_now env + refreshTTL)
        (ae_now env) s = (r, s')"
      by (metis prod.exhaust)
    have out: "auth_exec svc x s = s'"
      using CallRefresh False n rot assms(1)
      by (auto simp: auth_Refresh_def Let_def split: sum.splits)
    have fresh: "tokens s nh = None" using assms(2) n CallRefresh by (simp add: fresh_draws_def)
    from RotateRefresh_spec [OF rot] have
      "tokens s' = tokens s \<or>
       rotate_spec (hashOpaqueToken t) nh (ae_now env + refreshTTL) (ae_now env) (tokens s) = (r, tokens s')"
      by auto
    then show ?thesis
      unfolding out using session_step.presented [where T = "tokens s" and h' = nh] fresh
        session_step.unchanged [of "tokens s"]
      by metis
  qed
qed

lemma run_keeps:
  assumes "\<And>T T'. session_step T T' \<Longrightarrow> P T \<Longrightarrow> P T'"
    and "as_repo svc = repo" and "all_fresh tokens svc xs s" and "P (tokens s)"
  shows "P (tokens (auth_run svc xs s))"
  using assms(3,4)
proof (induction xs arbitrary: s)
  case Nil
  then show ?case by simp
next
  case (Cons x xs)
  then have "session_step (tokens s) (tokens (auth_exec svc x s))" by (simp add: exec_step [OF assms(2)])
  with Cons assms(1) show ?case by simp
qed

lemma Refresh_result:
  assumes "as_repo svc = repo" and "auth_Refresh svc env t s = (r, s')"
  obtains (early) e where "r = Inl e" "tokens s' = tokens s" "e = ErrInvalidRefresh \<or> (\<exists>m. e = Auth_Err m)"
  | (table) nt nh q where "newOpaqueToken (ae_token env) = Inr (nt, nh)"
      "(q, tokens s') = rotate_spec (hashOpaqueToken t) nh (ae_now env + refreshTTL) (ae_now env) (tokens s)"
      "case q of Inl e \<Rightarrow> r = Inl e
       | Inr u \<Rightarrow> (case issueAccess svc (ae_jti env) u (ae_now env) of
           Inl e \<Rightarrow> r = Inl e | Inr a \<Rightarrow> r = Inr (token_pair u a nt))"
proof (cases "t = ''''")
  case True
  with assms(2) early [of ErrInvalidRefresh] show ?thesis by (simp add: auth_Refresh_def)
next
  case t: False
  show ?thesis
  proof (cases "newOpaqueToken (ae_token env)")
    case (Inl e)
    then have "\<exists>m. e = Auth_Err m" by (auto simp: newOpaqueToken_def Let_def split: sum.splits)
    with Inl t assms(2) early [of e] show ?thesis by (simp add: auth_Refresh_def)
  next
    case (Inr p)
    obtain nt nh where p: "p = (nt, nh)" by (cases p)
    obtain q s0 where rot: "ar_RotateRefresh repo (hashOpaqueToken t) nh (ae_now env + refreshTTL)
        (ae_now env) s = (q, s0)"
      by (metis prod.exhaust)
    have r: "s' = s0 \<and> (case q of Inl e \<Rightarrow> r = Inl e
       | Inr u \<Rightarrow> (case issueAccess svc (ae_jti env) u (ae_now env) of
           Inl e \<Rightarrow> r = Inl e | Inr a \<Rightarrow> r = Inr (token_pair u a nt)))"
      using assms t Inr p rot by (auto simp: auth_Refresh_def Let_def split: sum.splits)
    from RotateRefresh_spec [OF rot] show ?thesis
    proof (elim conjE disjE)
      assume "tokens s0 = tokens s" "\<exists>m. q = Inl (Auth_Err m)"
      with r early show ?thesis by auto
    next
      assume "(q, tokens s0) = rotate_spec (hashOpaqueToken t) nh (ae_now env + refreshTTL) (ae_now env) (tokens s)"
      with r Inr p table show ?thesis by blast
    qed
  qed
qed

lemma issueSession_users:
  "as_repo svc = repo \<Longrightarrow> users (snd (issueSession svc env u s)) = users s"
  using CreateRefresh_spec by (auto simp: issueSession_def split: sum.splits prod.splits)

lemma exec_users:
  assumes "as_repo svc = repo" and "users s email = Some u"
  shows "users (auth_exec svc x s) email = Some u"
proof (cases x)
  case (CallRegister env inp)
  have "users s' email = Some u" if "ar_CreateUser repo n r e h s = (q, s')" for n r e h q s'
    using CreateUser_spec [OF that] assms(2) by (auto split: sum.splits)
  then show ?thesis
    using CallRegister assms issueSession_users [OF assms(1)]
    by (simp add: auth_Register_def split: sum.splits prod.splits)
next
  case (CallLogin env inp)
  have "users s' email = Some u" if "ar_GetUserByEmail repo e s = (q, s')" for e q s'
    using GetUserByEmail_spec [OF that] assms(2) by simp
  then show ?thesis
    using CallLogin assms issueSession_users [OF assms(1)]
    by (simp add: auth_Login_def split: sum.splits prod.splits)
next
  case (CallRefresh env t)
  have "users s' email = Some u" if "ar_RotateRefresh repo h h' e n s = (q, s')" for h h' e n q s'
    using RotateRefresh_spec [OF that] assms(2) by simp
  then show ?thesis
    using CallRefresh assms by (auto simp: auth_Refresh_def Let_def split: sum.splits prod.splits)
qed

lemma run_users:
  "as_repo svc = repo \<Longrightarrow> users s email = Some u \<Longrightarrow> users (auth_run svc xs s) email = Some u"
  by (induction xs arbitrary: s) (simp_all add: exec_users)

end

end
