(* ===== verification/CryptoVectors.thy ===== *)
theory CryptoVectors
  imports GoCrypto
begin

text \<open>
  An evaluator for SHA-256: the same function on integers, proved equal to the one on words and shaped so
  that the simplifier computes a digest. It checks the model of SHA-256 against a published digest, and
  lets concrete sessions be evaluated.
\<close>

section \<open>The round functions on integers\<close>

definition add32 :: "int \<Rightarrow> int \<Rightarrow> int" where
  "add32 x y = take_bit 32 (x + y)"

definition irotr :: "nat \<Rightarrow> int \<Rightarrow> int" where
  "irotr n x = drop_bit n x OR take_bit 32 (push_bit (32 - n) x)"

lemma take_bit_uint32 [simp]: "take_bit 32 (uint (x :: w32)) = uint x"
  using uint_bounded [of x] by (simp add: take_bit_int_eq_self)

lemma uint_add32: "uint (x + y :: w32) = add32 (uint x) (uint y)"
  by (simp add: add32_def uint_word_ariths take_bit_eq_mod)

lemma uint_rotr: "uint (rotr n x) = irotr n (uint x)"
  by (simp add: rotr_def irotr_def unsigned_or_eq unsigned_drop_bit_eq unsigned_push_bit_eq)

lemma uint_not32: "uint (NOT x :: w32) = 4294967295 - uint x"
proof -
  have "uint (NOT x) = take_bit 32 (NOT (uint x))" by (simp add: unsigned_not_eq)
  also have "\<dots> = take_bit 32 (- uint x - 1)" by (simp only: not_eq_complement)
  also have "\<dots> = (- uint x - 1 + 2 ^ 32) mod 2 ^ 32" by (simp only: take_bit_eq_mod mod_add_self2)
  also have "\<dots> = 4294967295 - uint x"
    using uint_ge_0 [of x] uint_lt2p [of x] by (subst mod_pos_pos_trivial) (auto intro: less_le_trans [of "- 1" 0])
  finally show ?thesis .
qed

definition istep :: "int \<Rightarrow> int \<Rightarrow> int \<Rightarrow> int \<Rightarrow> int \<Rightarrow> int \<Rightarrow> int \<Rightarrow> int \<Rightarrow> int \<Rightarrow> int list" where
  "istep t1 t2 a b c d e f g = [add32 t1 t2, a, b, c, add32 d t1, e, f, g]"

fun iround :: "int list \<Rightarrow> int \<times> int \<Rightarrow> int list" where
  "iround [a, b, c, d, e, f, g, h] (k, w) =
     istep
       (add32 (add32 (add32 (add32 h (irotr 6 e XOR irotr 11 e XOR irotr 25 e))
         ((e AND f) XOR ((4294967295 - e) AND g))) k) w)
       (add32 (irotr 2 a XOR irotr 13 a XOR irotr 22 a) ((a AND b) XOR (a AND c) XOR (b AND c)))
       a b c d e f g"
| "iround s _ = s"

definition inext :: "int list \<Rightarrow> int" where
  "inext w =
     add32 (add32 (add32 (irotr 17 (w ! 1) XOR irotr 19 (w ! 1) XOR drop_bit 10 (w ! 1)) (w ! 6))
       (irotr 7 (w ! 14) XOR irotr 18 (w ! 14) XOR drop_bit 3 (w ! 14))) (w ! 15)"

fun iexpand :: "nat \<Rightarrow> int list \<Rightarrow> int list" where
  "iexpand 0 w = w"
| "iexpand (Suc n) w = iexpand n (inext w # w)"

lemma iexpand_numeral: "iexpand (numeral k) w = iexpand (pred_numeral k) (inext w # w)"
  by (simp only: numeral_eq_Suc iexpand.simps)

lemmas uint_bits = unsigned_xor_eq unsigned_and_eq unsigned_or_eq unsigned_drop_bit_eq

lemma iround: "map uint (sha_round s (k, w)) = iround (map uint s) (uint k, uint w)"
  by (cases "(s, (k, w))" rule: sha_round.cases)
    (auto simp: Let_def istep_def uint_add32 uint_rotr uint_not32 uint_bits big_sigma0_def
      big_sigma1_def sha_ch_def sha_maj_def)

lemma iexpand: "16 \<le> length w \<Longrightarrow> map uint (sha_expand n w) = iexpand n (map uint w)"
  by (induction n arbitrary: w)
    (simp_all add: inext_def uint_add32 uint_rotr uint_bits small_sigma0_def small_sigma1_def)

lemma ifoldl_round:
  "length ws = length ks \<Longrightarrow>
   map uint (foldl sha_round s (zip ks ws)) = foldl iround (map uint s) (zip (map uint ks) (map uint ws))"
  by (induction ks arbitrary: s ws) (auto simp: iround length_Suc_conv)

section \<open>Blocks and digests\<close>

definition icompress :: "int list \<Rightarrow> int list \<Rightarrow> int list" where
  "icompress H ws = map2 add32 H (foldl iround H (zip (map uint sha_K) (rev (iexpand 48 (rev ws)))))"

definition iblock :: "bytes \<Rightarrow> int list" where
  "iblock block = map (\<lambda>c. uint (be_word c)) (chunks 16 4 block)"

lemma length_chunks [simp]: "length (chunks k n xs) = k"
  by (induction k arbitrary: xs) simp_all

lemma length_sha_expand [simp]: "length (sha_expand n w) = n + length w"
  by (induction n arbitrary: w) simp_all

lemma map_uint_plus: "map uint (map2 (+) xs ys) = map2 add32 (map uint xs) (map uint (ys :: w32 list))"
  by (induction xs arbitrary: ys) (simp, case_tac ys, auto simp: uint_add32)

lemma icompress: "map uint (sha_compress H block) = icompress (map uint H) (iblock block)"
proof -
  have ws: "map uint (sha_schedule block) = rev (iexpand 48 (rev (iblock block)))"
    by (simp add: sha_schedule_def iblock_def rev_map [of uint, symmetric] iexpand o_def)
  have "length (sha_schedule block) = length sha_K" by (simp add: sha_schedule_def sha_K_def)
  from ifoldl_round [OF this] show ?thesis
    by (simp only: sha_compress_def icompress_def map_uint_plus ws)
qed

definition ibe :: "int \<Rightarrow> bytes" where
  "ibe n = map (\<lambda>k. char_of (take_bit 8 (drop_bit k n))) [24, 16, 8, 0]"

lemma ibe: "word_be w = ibe (uint w)"
proof -
  have c: "char_of (int n) = char_of n" for n by (simp add: char_of_def bit_of_nat_iff_bit)
  have "int (unat (drop_bit k w AND 255)) = take_bit 8 (drop_bit k (uint w))" for k
    unfolding uint_nat [symmetric]
    by (simp add: unsigned_and_eq unsigned_drop_bit_eq take_bit_eq_mask [of 8] mask_eq_exp_minus_1)
  then have "char_of (unat (drop_bit k w AND 255)) = char_of (take_bit 8 (drop_bit k (uint w)))" for k
    by (metis c)
  then show ?thesis by (simp only: word_be_def ibe_def)
qed


lemma foldl_icompress:
  "map uint (foldl sha_compress H bs) = foldl icompress (map uint H) (map iblock bs)"
  by (induction bs arbitrary: H) (simp_all add: icompress)

text \<open>The digest of a message that fits one block.\<close>

lemma sha256_one_block:
  assumes "length (sha_pad m) = 64"
  shows "sha256_Sum256 m = concat (map ibe (icompress (map uint sha_H0) (iblock (sha_pad m))))"
proof -
  have "map word_be (foldl sha_compress sha_H0 [sha_pad m]) =
      map ibe (map uint (foldl sha_compress sha_H0 [sha_pad m]))"
    by (simp add: ibe)
  also have "\<dots> = map ibe (icompress (map uint sha_H0) (iblock (sha_pad m)))"
    by (simp only: foldl_icompress) simp
  finally show ?thesis using assms by (simp add: sha256_Sum256_def Let_def)
qed

lemma chunks_numeral:
  "chunks (numeral k) n xs = take n xs # chunks (pred_numeral k) n (drop n xs)"
  by (simp only: numeral_eq_Suc chunks.simps)

lemma replicate_numeral: "replicate (numeral k) x = x # replicate (pred_numeral k) x"
  by (simp only: numeral_eq_Suc replicate.simps)

lemmas block_eval = sha_pad_def iblock_def chunks_numeral replicate_numeral char_of_def bit_Suc_0_iff
lemmas digest_eval = icompress_def sha_K_def sha_H0_def iexpand_numeral inext_def irotr_def add32_def
  istep_def ibe_def char_of_def

text \<open>The digest of the three bytes abc, as FIPS 180 publishes it.\<close>

lemma sha256_abc:
  "hex_EncodeToString (sha256_Sum256 ''abc'') =
   ''ba7816bf8f01cfea414140de5dae2223b00361a396177a9cb410ff61f20015ad''"
proof -
  have pad: "length (sha_pad ''abc'') = 64" by (simp add: sha_pad_def)
  have block: "iblock (sha_pad ''abc'') = [0x61626380, 0, 0, 0, 0, 0, 0, 0, 0, 0, 0, 0, 0, 0, 0, 24]"
    by (simp add: block_eval)
  show ?thesis
    unfolding sha256_one_block [OF pad] block by (simp add: digest_eval hex_digit_eval)
qed

end
