(* ===== verification/AuthDemo.thy ===== *)
theory AuthDemo
  imports AuthSessions CryptoVectors
begin

text \<open>
  A concrete authentication service and one concrete session, for the witnesses of the properties. The
  SHA-256 digests of its two opaque tokens are computed by the evaluator of CryptoVectors.
\<close>

section \<open>A concrete session\<close>

text \<open>A signing library that signs the claims of one user at one time, and reads them back.\<close>

definition demo_claims :: jwt_claims where
  "demo_claims =
     \<lparr>jc_Issuer = ''pixelgo'', jc_Subject = ''usr_1'', jc_Audience = [''pixelgo-mobile''],
      jc_ExpiresAt = 1900 * second, jc_NotBefore = 995 * second, jc_IssuedAt = 1000 * second,
      jc_ID = ''6a''\<rparr>"

definition demo_jwt :: jwt_lib where
  "demo_jwt =
     \<lparr>jwt_Sign = (\<lambda>c k. if k = ''key'' \<and> c = demo_claims then Inr ''signed'' else Inr ''other''),
      jwt_ParseHS256 = (\<lambda>now tok k iss aud.
        if tok = ''signed'' \<and> k = ''key'' \<and> iss = ''pixelgo'' \<and> aud = ''pixelgo-mobile'' \<and>
           995 * second \<le> now \<and> now < 1900 * second
        then Inr (demo_claims, True) else Inl ''invalid'')\<rparr>"

definition demo_mail :: mail_lib where
  "demo_mail = \<lparr>ml_ToLower = ToLower, ml_ParseAddress = Some\<rparr>"

definition demo_auth :: "auth_memory auth_Service" where
  "demo_auth = auth_NewService demo_jwt demo_mail auth_memory_repo ''key''"

text \<open>A call at second 1000 that draws 32 zero bytes for its token; its text is 43 letters A.\<close>

definition demo_env :: auth_env where
  "demo_env =
     \<lparr>ae_now = 1000 * second, ae_salt = Inr (replicate 16 (CHR 0x00)), ae_userid = Inr ''u'',
      ae_jti = Inr ''j'', ae_token = Inr (replicate 32 (CHR 0x00)), ae_family = Inr ''f''\<rparr>"

definition token_A :: string where "token_A = replicate 43 (CHR ''A'')"
definition hash_A :: string where
  "hash_A = ''0f007385b6f9d4b7eeb2748605afe1a984a0a3bfa3f014d09e2a784ce9e5cd1a''"
definition hash_abc :: string where
  "hash_abc = ''ba7816bf8f01cfea414140de5dae2223b00361a396177a9cb410ff61f20015ad''"

lemma hashOpaqueToken_abc: "hashOpaqueToken ''abc'' = hash_abc"
  using sha256_abc by (simp add: hashOpaqueToken_def hash_abc_def)

lemma hashOpaqueToken_A: "hashOpaqueToken token_A = hash_A"
proof -
  have pad: "length (sha_pad token_A) = 64" by (simp add: sha_pad_def token_A_def)
  have block: "iblock (sha_pad token_A) =
      [0x41414141, 0x41414141, 0x41414141, 0x41414141, 0x41414141, 0x41414141, 0x41414141,
       0x41414141, 0x41414141, 0x41414141, 0x41414180, 0, 0, 0, 0, 344]"
    by (simp add: token_A_def block_eval)
  show ?thesis
    unfolding hashOpaqueToken_def sha256_one_block [OF pad] block
    by (simp add: digest_eval hex_digit_eval hash_A_def)
qed

lemma newOpaqueToken_demo: "newOpaqueToken (ae_token demo_env) = Inr (token_A, hash_A)"
proof -
  have "b64_EncodeToString url_alphabet (replicate 32 (CHR 0x00)) = token_A"
    by (simp add: b64_EncodeToString_def token_A_def url_alphabet_def replicate_numeral)
  then show ?thesis
    by (simp add: newOpaqueToken_def demo_env_def Let_def hashOpaqueToken_A)
qed

text \<open>A store with one live session of usr_1, whose refresh token is abc.\<close>

definition demo_refresh :: memoryRefresh where
  "demo_refresh =
     \<lparr>mr_userID = ''usr_1'', mr_familyID = ''f0'', mr_tokenHash = hash_abc,
      mr_expiresAt = 5000 * second, mr_usedAt = None, mr_revokedAt = None\<rparr>"

definition demo_sessions :: auth_memory where
  "demo_sessions = \<lparr>am_users = Map.empty, am_refresh = [hash_abc \<mapsto> demo_refresh]\<rparr>"

definition demo_rotated :: auth_memory where
  "demo_rotated =
     demo_sessions\<lparr>am_refresh :=
       [hash_abc \<mapsto> demo_refresh\<lparr>mr_usedAt := Some (1000 * second)\<rparr>,
        hash_A \<mapsto> demo_refresh\<lparr>mr_tokenHash := hash_A, mr_expiresAt := 1000 * second + refreshTTL\<rparr>]\<rparr>"

definition demo_pair :: TokenPair where
  "demo_pair = token_pair ''usr_1'' ''signed'' token_A"

lemma hashes_differ [simp]: "hash_A \<noteq> hash_abc" "hash_abc \<noteq> hash_A"
  by (simp_all add: hash_A_def hash_abc_def)

lemma demo_auth_simps [simp]:
  "as_repo demo_auth = auth_memory_repo" "as_jwt demo_auth = demo_jwt" "as_mail demo_auth = demo_mail"
  "as_issuer demo_auth = ''pixelgo''" "as_audience demo_auth = ''pixelgo-mobile''"
  "as_jwtSecret demo_auth = ''key''"
  by (simp_all add: demo_auth_def auth_NewService_def)

lemma demo_env_simps [simp]:
  "ae_now demo_env = 1000 * second" "ae_salt demo_env = Inr (replicate 16 (CHR 0x00))"
  "ae_userid demo_env = Inr ''u''" "ae_family demo_env = Inr ''f''"
  by (simp_all add: demo_env_def)

lemma issueAccess_demo: "issueAccess demo_auth (ae_jti demo_env) ''usr_1'' (1000 * second) = Inr ''signed''"
  by (simp add: issueAccess_def demo_env_def randomHex_def hex_digit_eval demo_jwt_def demo_claims_def
      accessTTL_def)

lemma demo_Refresh: "auth_Refresh demo_auth demo_env ''abc'' demo_sessions = (Inr demo_pair, demo_rotated)"
proof -
  have rot: "am_RotateRefresh hash_abc hash_A (1000 * second + refreshTTL) (1000 * second) demo_sessions =
      (Inr ''usr_1'', demo_rotated)"
    by (simp add: am_RotateRefresh_def demo_sessions_def demo_refresh_def demo_rotated_def)
  from rot issueAccess_demo show ?thesis
    by (simp add: auth_Refresh_def newOpaqueToken_demo hashOpaqueToken_abc Let_def demo_pair_def)
qed

lemma demo_fresh: "fresh_draws demo_env (am_tokens demo_sessions)"
  by (auto simp: fresh_draws_def newOpaqueToken_demo demo_sessions_def am_tokens_def randomHex_def
      hex_digit_eval demo_refresh_def split: if_splits)

lemma demo_one_live: "one_live (am_tokens demo_sessions)"
  by (auto simp: one_live_def live_def am_tokens_def demo_sessions_def split: if_splits)

end
