(* ===== verification/AuthProps.thy ===== *)
theory AuthProps
  imports AuthDemo
begin

text \<open>
  The properties of the authentication component: rotating refresh tokens over the in-memory repository,
  registration and login, and access tokens.
\<close>

section \<open>Refresh tokens\<close>

text \<open>
  Whatever sequence of registrations, logins and refreshes the service performs with fresh random
  draws, every token family keeps at most one token that can still be exchanged: rotation never leaves two
  usable tokens of one session.
\<close>

lemma one_usable_token_per_session:
  assumes "as_repo svc = auth_memory_repo" and "one_live (am_tokens s)"
    and "all_fresh am_tokens svc calls s"
  shows "one_live (am_tokens (auth_run svc calls s))"
  by (rule amem.run_keeps [of one_live, OF one_live_step assms(1,3,2)])

lemma one_usable_token_per_session_example:
  "one_live (am_tokens (auth_run demo_auth [CallRefresh demo_env ''abc''] demo_sessions)) \<and>
   live (am_tokens (auth_run demo_auth [CallRefresh demo_env ''abc''] demo_sessions)) ''f0'' hash_A"
proof
  show "one_live (am_tokens (auth_run demo_auth [CallRefresh demo_env ''abc''] demo_sessions))"
    by (rule one_usable_token_per_session [OF _ demo_one_live]) (simp_all add: demo_fresh)
  show "live (am_tokens (auth_run demo_auth [CallRefresh demo_env ''abc''] demo_sessions)) ''f0'' hash_A"
    by (simp add: demo_Refresh live_def demo_rotated_def am_tokens_def demo_refresh_def)
qed

text \<open>
  C3: presenting a refresh token that was already exchanged (and is neither revoked nor expired) is
  detected: the call fails with ErrRefreshReuse, and from then on no token of that session is ever
  accepted again, whatever calls come in between: each of them, the newest included, is answered
  ErrInvalidRefresh and leaves the store unchanged.
\<close>

theorem token_reuse_ends_session:
  assumes "as_repo svc = auth_memory_repo"
    and "t \<noteq> ''''" and "ae_token env = Inr raw"
    and "am_refresh s (hashOpaqueToken t) = Some r"
    and "mr_usedAt r \<noteq> None" and "mr_revokedAt r = None" and "ae_now env < mr_expiresAt r"
    and "all_fresh am_tokens svc calls (snd (auth_Refresh svc env t s))"
    and "s' = auth_run svc calls (snd (auth_Refresh svc env t s))"
    and "am_refresh s' (hashOpaqueToken t') = Some r'" and "mr_familyID r' = mr_familyID r"
    and "t' \<noteq> ''''" and "ae_token env' = Inr raw'"
  shows "fst (auth_Refresh svc env t s) = Inl ErrRefreshReuse \<and>
    auth_Refresh svc env' t' s' = (Inl ErrInvalidRefresh, s')"
proof -
  let ?s = "snd (auth_Refresh svc env t s)" and ?f = "mr_familyID r"
  have reuse: "auth_Refresh svc env t s =
      (Inl ErrRefreshReuse, s\<lparr>am_refresh := am_revokeFamily ?f (ae_now env) (am_refresh s)\<rparr>)"
    using assms(1-7) by (auto simp: auth_Refresh_def newOpaqueToken_def am_RotateRefresh_def Let_def)
  have "dead_family (am_tokens ?s) ?f"
    unfolding dead_family_def
  proof (intro conjI exI allI impI)
    have T: "am_tokens ?s = map_option (revoke_row ?f (ae_now env)) \<circ> am_tokens s"
      by (simp add: reuse am_tokens_revoke)
    show "am_tokens ?s (hashOpaqueToken t) = Some (revoke_row ?f (ae_now env) (row_of r))"
      unfolding T using assms(4) by (simp add: am_tokens_def)
    fix h row
    assume "am_tokens ?s h = Some row \<and> rr_familyID row = ?f"
    then show "rr_revokedAt row \<noteq> None" by (auto simp: T)
  qed simp
  from amem.run_keeps [of "\<lambda>T. dead_family T ?f", OF dead_family_step assms(1,8) this]
  have "dead_family (am_tokens s') ?f" by (simp add: assms(9))
  then have "mr_revokedAt r' \<noteq> None"
    using assms(10,11) unfolding dead_family_def am_tokens_def by fastforce
  then show ?thesis
    using reuse assms(1,10,12,13)
    by (auto simp: auth_Refresh_def newOpaqueToken_def am_RotateRefresh_def Let_def)
qed

lemma token_reuse_ends_session_witness:
  "auth_Refresh demo_auth demo_env token_A (snd (auth_Refresh demo_auth demo_env ''abc'' demo_rotated)) =
     (Inl ErrInvalidRefresh, snd (auth_Refresh demo_auth demo_env ''abc'' demo_rotated))"
proof -
  have "token_A \<noteq> ''''" by (simp add: token_A_def replicate_numeral)
  have tok: "ae_token demo_env = Inr (replicate 32 (CHR 0x00))" by (simp add: demo_env_def)
  have s: "snd (auth_Refresh demo_auth demo_env ''abc'' demo_rotated) =
      demo_rotated\<lparr>am_refresh := am_revokeFamily ''f0'' (1000 * second) (am_refresh demo_rotated)\<rparr>"
    by (simp add: auth_Refresh_def newOpaqueToken_demo hashOpaqueToken_abc am_RotateRefresh_def Let_def
        demo_rotated_def demo_refresh_def)
  show ?thesis
  proof (rule token_reuse_ends_session [THEN conjunct2, OF _ _ tok _ _ _ _ _ _ _ _ \<open>token_A \<noteq> ''''\<close> tok])
    show "am_refresh demo_rotated (hashOpaqueToken ''abc'') =
        Some (demo_refresh\<lparr>mr_usedAt := Some (1000 * second)\<rparr>)"
      by (simp add: hashOpaqueToken_abc demo_rotated_def)
    show "all_fresh am_tokens demo_auth [] (snd (auth_Refresh demo_auth demo_env ''abc'' demo_rotated))"
      by simp
    show "am_refresh (snd (auth_Refresh demo_auth demo_env ''abc'' demo_rotated))
        (hashOpaqueToken token_A) =
      Some (demo_refresh\<lparr>mr_tokenHash := hash_A, mr_expiresAt := 1000 * second + refreshTTL,
        mr_revokedAt := Some (1000 * second)\<rparr>)"
      unfolding s by (simp add: hashOpaqueToken_A am_revokeFamily_def demo_rotated_def demo_refresh_def)
  qed (simp_all add: demo_refresh_def)
qed

text \<open>
  A refresh token buys at most one new pair. If Refresh accepts a token (its replacement being
  freshly drawn), then after any further calls every new presentation of the same token fails, with
  ErrInvalidRefresh or ErrRefreshReuse.
\<close>

lemma refresh_token_works_once:
  assumes "as_repo svc = auth_memory_repo" and "fresh_draws env (am_tokens s)"
    and "auth_Refresh svc env t s = (Inr p, s1)"
    and "all_fresh am_tokens svc calls s1" and "ae_token env' = Inr raw'"
  shows "fst (auth_Refresh svc env' t (auth_run svc calls s1)) \<in> {Inl ErrInvalidRefresh, Inl ErrRefreshReuse}"
proof -
  let ?h = "hashOpaqueToken t"
  obtain nt nh where n: "newOpaqueToken (ae_token env) = Inr (nt, nh)" "t \<noteq> ''''"
    using assms(3) by (auto simp: auth_Refresh_def split: if_splits sum.splits)
  obtain r where r: "am_refresh s ?h = Some r" "mr_revokedAt r = None" "mr_usedAt r = None"
      "am_refresh s1 = (am_refresh s)(?h \<mapsto> r\<lparr>mr_usedAt := Some (ae_now env)\<rparr>,
         nh \<mapsto> \<lparr>mr_userID = mr_userID r, mr_familyID = mr_familyID r, mr_tokenHash = nh,
           mr_expiresAt = ae_now env + refreshTTL, mr_usedAt = None, mr_revokedAt = None\<rparr>)"
    using assms(1,3) n
    by (auto simp: auth_Refresh_def Let_def am_RotateRefresh_def split: option.splits if_splits sum.splits)
  have "?h \<noteq> nh" using assms(2) n r(1) by (auto simp: fresh_draws_def am_tokens_def)
  then have "spent (am_tokens s1) ?h" using r(4) by (simp add: spent_def am_tokens_def)
  from amem.run_keeps [of "\<lambda>T. spent T ?h", OF spent_step assms(1,4) this]
  have sp: "spent (am_tokens (auth_run svc calls s1)) ?h" .
  obtain nt' nh' where n': "newOpaqueToken (ae_token env') = Inr (nt', nh')"
    using assms(5) by (simp add: newOpaqueToken_def Let_def)
  obtain q s2 where q: "am_RotateRefresh ?h nh' (ae_now env' + refreshTTL) (ae_now env')
      (auth_run svc calls s1) = (q, s2)"
    by (metis prod.exhaust)
  from am_RotateRefresh_spec [OF q] spent_rotate [OF sp]
  have "q \<in> {Inl ErrInvalidRefresh, Inl ErrRefreshReuse}" by (metis fst_conv)
  with q n n' assms(1) show ?thesis by (auto simp: auth_Refresh_def Let_def)
qed

lemma refresh_token_works_once_example:
  "fst (auth_Refresh demo_auth demo_env ''abc'' (auth_run demo_auth [] demo_rotated)) \<in>
     {Inl ErrInvalidRefresh, Inl ErrRefreshReuse}"
  by (rule refresh_token_works_once [OF _ demo_fresh demo_Refresh]) (simp_all add: demo_env_def)

section \<open>Accounts\<close>



section \<open>Access tokens\<close>

text \<open>
  What is assumed of the JWT library: parsing a token it signed with the same key yields its claims, with
  times cut to whole seconds, when issuer and audience match, the expiry lies ahead and the not-before
  time is reached, and an error otherwise.
\<close>

definition whole_seconds :: "instant \<Rightarrow> instant" where
  "whole_seconds t = second * (t div second)"

definition jwt_law :: "jwt_lib \<Rightarrow> bool" where
  "jwt_law lib \<longleftrightarrow>
     (\<forall>c k tok now iss aud. jwt_Sign lib c k = Inr tok \<longrightarrow>
        (if iss = jc_Issuer c \<and> aud \<in> set (jc_Audience c) \<and> now < whole_seconds (jc_ExpiresAt c) \<and>
            whole_seconds (jc_NotBefore c) \<le> now
         then jwt_ParseHS256 lib now tok k iss aud =
           Inr (c\<lparr>jc_ExpiresAt := whole_seconds (jc_ExpiresAt c),
                  jc_NotBefore := whole_seconds (jc_NotBefore c),
                  jc_IssuedAt := whole_seconds (jc_IssuedAt c)\<rparr>, True)
         else \<exists>e. jwt_ParseHS256 lib now tok k iss aud = Inl e))"



end
