(* ===== verification/Http.thy ===== *)
theory Http
  imports GoStrings
begin

text \<open>
  What the handlers and middlewares use of net/http: requests, header maps, and response writers. A
  handler is modelled by the operations it performs on its ResponseWriter, in order; a writer is what
  those operations leave behind. The buffered writer is the one of \<^verbatim>\<open>httpapi/idempotency.go\<close>.
\<close>

section \<open>Headers\<close>

text \<open>
  http.Header keys are kept in canonical form: the first letter and every letter after a hyphen in upper
  case, the others in lower case.
\<close>

definition upper_char :: "char \<Rightarrow> char" where
  "upper_char c = (let n = (of_char c :: nat) in if 97 \<le> n \<and> n \<le> 122 then char_of (n - 32) else c)"

fun canonical_from :: "bool \<Rightarrow> string \<Rightarrow> string" where
  "canonical_from up [] = []"
| "canonical_from up (c # cs) =
     (if up then upper_char c else lower_char c) # canonical_from (c = CHR ''-'') cs"

definition CanonicalHeaderKey :: "string \<Rightarrow> string" where
  "CanonicalHeaderKey k = canonical_from True k"

type_synonym header = "string \<rightharpoonup> string list"

definition header_Set :: "header \<Rightarrow> string \<Rightarrow> string \<Rightarrow> header" where
  "header_Set h k v = h(CanonicalHeaderKey k \<mapsto> [v])"

definition header_Get :: "header \<Rightarrow> string \<Rightarrow> string" where
  "header_Get h k =
     (case h (CanonicalHeaderKey k) of None \<Rightarrow> '''' | Some [] \<Rightarrow> '''' | Some (v # _) \<Rightarrow> v)"

text \<open>
  copyHeader: every key of the destination is deleted, then every value of the source added under its
  key; a source key without values leaves nothing behind.
\<close>

definition copyHeader :: "header \<Rightarrow> header \<Rightarrow> header" where
  "copyHeader dst src = (\<lambda>k. case src k of None \<Rightarrow> None | Some [] \<Rightarrow> None | Some vs \<Rightarrow> Some vs)"

definition wf_header :: "header \<Rightarrow> bool" where
  "wf_header h \<longleftrightarrow> (\<forall>k. h k \<noteq> Some [])"

lemma copyHeader_wf: "wf_header src \<Longrightarrow> copyHeader dst src = src"
proof
  fix k
  assume "wf_header src"
  then show "copyHeader dst src k = src k"
    by (cases "src k") (auto simp: copyHeader_def wf_header_def split: list.splits)
qed

lemma wf_copyHeader [simp]: "wf_header (copyHeader dst src)"
  by (auto simp: copyHeader_def wf_header_def split: option.splits list.splits)

lemma wf_header_Set [simp]: "wf_header h \<Longrightarrow> wf_header (header_Set h k v)"
  by (auto simp: header_Set_def wf_header_def)

lemma wf_header_empty [simp]: "wf_header Map.empty"
  by (simp add: wf_header_def)

lemma canonical_from_same:
  "CanonicalHeaderKey k = CanonicalHeaderKey k' \<Longrightarrow> header_Get (header_Set h k v) k' = v"
  by (simp add: header_Get_def header_Set_def)

lemma header_Get_Set [simp]: "header_Get (header_Set h k v) k = v"
  by (simp add: header_Get_def header_Set_def)

section \<open>Requests\<close>

text \<open>
  The parts of a request the program reads: the URL query by its first values, headers by Get, and the body
  as the bytes it delivers and the error it ends in, if it does not end in EOF.
\<close>

record http_request =
  rq_Method :: string
  rq_Path :: string
  rq_Query :: "string \<Rightarrow> string"
  rq_Header :: header
  rq_Body :: bytes
  rq_BodyError :: "string option"
  rq_RemoteAddr :: string
  rq_ctx :: ctx

section \<open>Response bodies\<close>

text \<open>
  Bodies are kept as the values written: raw bytes, or a value passed to the JSON encoder. The JSON text
  itself is not modelled.
\<close>

datatype json =
    JString string
  | JInt int
  | JBool bool
  | JTime instant
  | JList "json list"
  | JObject "(string \<times> json) list"

datatype body_part = Raw bytes | JSON json

section \<open>Response writers\<close>

datatype writer_op =
    SetHeader string string
  | CopyHeader header
  | WriteHeader int
  | Write body_part

text \<open>bufferedResponseWriter, and its methods.\<close>

record bufferedResponseWriter =
  bw_header :: header
  bw_status :: int
  bw_wroteHeader :: bool
  bw_body :: "body_part list"

definition newBufferedResponseWriter :: bufferedResponseWriter where
  "newBufferedResponseWriter =
     \<lparr>bw_header = Map.empty, bw_status = 200, bw_wroteHeader = False, bw_body = []\<rparr>"

definition bw_WriteHeader :: "int \<Rightarrow> bufferedResponseWriter \<Rightarrow> bufferedResponseWriter" where
  "bw_WriteHeader status w =
     (if bw_wroteHeader w then w else w\<lparr>bw_status := status, bw_wroteHeader := True\<rparr>)"

definition bw_Write :: "body_part \<Rightarrow> bufferedResponseWriter \<Rightarrow> bufferedResponseWriter" where
  "bw_Write p w =
     (let w' = (if \<not> bw_wroteHeader w then bw_WriteHeader 200 w else w)
      in w'\<lparr>bw_body := bw_body w' @ [p]\<rparr>)"

fun bw_apply :: "writer_op \<Rightarrow> bufferedResponseWriter \<Rightarrow> bufferedResponseWriter" where
  "bw_apply (SetHeader k v) w = w\<lparr>bw_header := header_Set (bw_header w) k v\<rparr>"
| "bw_apply (CopyHeader h) w = w\<lparr>bw_header := copyHeader (bw_header w) h\<rparr>"
| "bw_apply (WriteHeader n) w = bw_WriteHeader n w"
| "bw_apply (Write p) w = bw_Write p w"

definition buffered :: "writer_op list \<Rightarrow> bufferedResponseWriter" where
  "buffered ops = fold bw_apply ops newBufferedResponseWriter"

text \<open>
  The server's own writer sends the header as it stands at the first WriteHeader or Write; later changes to
  the header map do not reach the client. A response is what the client receives.
\<close>

record response =
  rs_status :: int
  rs_header :: header
  rs_body :: "body_part list"

record server_writer =
  sw_header :: header
  sw_sent :: "(int \<times> header) option"
  sw_body :: "body_part list"

definition sw_WriteHeader :: "int \<Rightarrow> server_writer \<Rightarrow> server_writer" where
  "sw_WriteHeader status w =
     (case sw_sent w of None \<Rightarrow> w\<lparr>sw_sent := Some (status, sw_header w)\<rparr> | Some _ \<Rightarrow> w)"

fun sw_apply :: "writer_op \<Rightarrow> server_writer \<Rightarrow> server_writer" where
  "sw_apply (SetHeader k v) w = w\<lparr>sw_header := header_Set (sw_header w) k v\<rparr>"
| "sw_apply (CopyHeader h) w = w\<lparr>sw_header := copyHeader (sw_header w) h\<rparr>"
| "sw_apply (WriteHeader n) w = sw_WriteHeader n w"
| "sw_apply (Write p) w =
     (let w' = sw_WriteHeader 200 w in w'\<lparr>sw_body := sw_body w' @ [p]\<rparr>)"

definition served :: "writer_op list \<Rightarrow> response" where
  "served ops =
     (let w = fold sw_apply ops \<lparr>sw_header = Map.empty, sw_sent = None, sw_body = []\<rparr> in
      case sw_sent w of
        None \<Rightarrow> \<lparr>rs_status = 200, rs_header = sw_header w, rs_body = sw_body w\<rparr>
      | Some (n, h) \<Rightarrow> \<lparr>rs_status = n, rs_header = h, rs_body = sw_body w\<rparr>)"

section \<open>Handlers\<close>

text \<open>A handler maps a request and the state it works on to its writer operations and the next state.\<close>

type_synonym 's handler = "http_request \<Rightarrow> 's \<Rightarrow> writer_op list \<times> 's"

definition writeJSON :: "int \<Rightarrow> json \<Rightarrow> writer_op list" where
  "writeJSON status v =
     [SetHeader ''Content-Type'' ''application/json'', WriteHeader status, Write (JSON v)]"

definition writeError :: "int \<Rightarrow> string \<Rightarrow> string \<Rightarrow> writer_op list" where
  "writeError status code message =
     writeJSON status (JObject [(''code'', JString code), (''message'', JString message)])"

definition withJSON :: "'s handler \<Rightarrow> 's handler" where
  "withJSON next r s =
     (let (ops, s') = next r s in (SetHeader ''Content-Type'' ''application/json'' # ops, s'))"

section \<open>Lemmas\<close>

lemma bw_apply_header_wf: "wf_header (bw_header w) \<Longrightarrow> wf_header (bw_header (bw_apply x w))"
  by (cases x) (auto simp: bw_WriteHeader_def bw_Write_def Let_def)

lemma buffered_header_wf: "wf_header (bw_header (buffered ops))"
proof -
  have "wf_header (bw_header w) \<Longrightarrow> wf_header (bw_header (fold bw_apply ops w))" for w
    by (induction ops arbitrary: w) (auto intro: bw_apply_header_wf)
  then show ?thesis by (simp add: buffered_def newBufferedResponseWriter_def)
qed

lemma served_writeJSON:
  "served (writeJSON n v) =
     \<lparr>rs_status = n, rs_header = [''Content-Type'' \<mapsto> [''application/json'']], rs_body = [JSON v]\<rparr>"
proof -
  have "CanonicalHeaderKey ''Content-Type'' = ''Content-Type''"
    by (simp add: CanonicalHeaderKey_def upper_char_def lower_char_def)
  then show ?thesis
    by (simp add: served_def writeJSON_def sw_WriteHeader_def header_Set_def Let_def)
qed

lemma buffered_writeJSON [simp]:
  "bw_status (buffered (writeJSON n v)) = n" "bw_body (buffered (writeJSON n v)) = [JSON v]"
  by (simp_all add: buffered_def writeJSON_def bw_WriteHeader_def bw_Write_def Let_def
      newBufferedResponseWriter_def)

text \<open>The status a client receives is that of the first WriteHeader, or 200 once a body is written.\<close>

fun status_of :: "writer_op list \<Rightarrow> int" where
  "status_of [] = 200"
| "status_of (SetHeader k v # ops) = status_of ops"
| "status_of (CopyHeader h # ops) = status_of ops"
| "status_of (WriteHeader n # ops) = n"
| "status_of (Write p # ops) = 200"

lemma sw_sent_stays: "sw_sent w = Some x \<Longrightarrow> sw_sent (fold sw_apply ops w) = Some x"
proof (induction ops arbitrary: w)
  case (Cons y ops)
  then show ?case by (cases y) (auto simp: sw_WriteHeader_def Let_def)
qed simp

lemma sw_sent_status:
  "sw_sent w = None \<Longrightarrow>
   (case sw_sent (fold sw_apply ops w) of None \<Rightarrow> 200 | Some (n, h) \<Rightarrow> n) = status_of ops"
proof (induction ops arbitrary: w)
  case (Cons y ops)
  then show ?case by (cases y) (auto simp: sw_WriteHeader_def Let_def sw_sent_stays)
qed simp

lemma status_served: "rs_status (served ops) = status_of ops"
  using sw_sent_status [of "\<lparr>sw_header = Map.empty, sw_sent = None, sw_body = []\<rparr>" ops]
  by (auto simp: served_def Let_def split: option.splits)

lemma status_of_writeJSON [simp]:
  "status_of (writeJSON n v) = n" "status_of (writeError n code msg) = n"
  by (simp_all add: writeJSON_def writeError_def)

end
