(* ===== verification/Idempotency.thy ===== *)
theory Idempotency
  imports Http GoCrypto
begin

text \<open>
  The in-memory idempotency middleware of \<^verbatim>\<open>httpapi/idempotency.go\<close>: its two critical sections as
  functions, and concurrent requests as a step relation over the shared store. The handler behind the
  middleware is any handler.
\<close>

section \<open>Request keys\<close>

definition maxIdempotentBodyBytes :: int where "maxIdempotentBodyBytes = 2 ^ 20"

datatype body_error = BodyTooLarge | BodyFailed string

text \<open>
  readRequestBody reads one byte beyond the limit at most, and then replaces the body by what it read.
\<close>

definition readRequestBody :: "http_request \<Rightarrow> (body_error, bytes \<times> http_request) result" where
  "readRequestBody r =
     (if int (length (rq_Body r)) > maxIdempotentBodyBytes then Inl BodyTooLarge
      else case rq_BodyError r of
        Some e \<Rightarrow> Inl (BodyFailed e)
      | None \<Rightarrow> Inr (rq_Body r, r\<lparr>rq_BodyError := None\<rparr>))"

abbreviation nul :: string where "nul \<equiv> [CHR 0x00]"

definition requestFingerprint :: "http_request \<Rightarrow> bytes \<Rightarrow> string" where
  "requestFingerprint r body =
     hex_EncodeToString (sha256_Sum256
       (rq_Method r @ nul @ rq_Path r @ nul @ UserID (rq_ctx r) @ nul @ body))"

definition scopedIdempotencyKey :: "http_request \<Rightarrow> string \<Rightarrow> string" where
  "scopedIdempotencyKey r key = UserID (rq_ctx r) @ nul @ key"

text \<open>
  The guards both middlewares start with: which requests they pass through, which they reject, and the
  body, fingerprint and storage key of the others.
\<close>

definition idempotency_bypassed :: "http_request \<Rightarrow> bool" where
  "idempotency_bypassed r \<longleftrightarrow>
     header_Get (rq_Header r) ''Idempotency-Key'' = '''' \<or> rq_Method r \<noteq> ''POST'' \<or>
     HasPrefix (rq_Path r) ''/v1/auth/''"

definition idempotency_admit ::
  "http_request \<Rightarrow> (writer_op list, http_request \<times> string \<times> string) result" where
  "idempotency_admit r =
     (let key = header_Get (rq_Header r) ''Idempotency-Key'' in
      if length key > 128
      then Inl (writeError 400 ''invalid_idempotency_key'' ''idempotency key exceeds 128 characters'')
      else case readRequestBody r of
        Inl BodyTooLarge \<Rightarrow> Inl (writeError 413 ''request_too_large'' ''request body exceeds 1 MiB'')
      | Inl (BodyFailed _) \<Rightarrow> Inl (writeError 400 ''invalid_request'' ''could not read request body'')
      | Inr (body, r') \<Rightarrow> Inr (r', requestFingerprint r' body, scopedIdempotencyKey r' key))"

section \<open>The store\<close>

record idempotencyEntry =
  ie_fingerprint :: string
  ie_ready :: bool
  ie_status :: int
  ie_header :: header
  ie_body :: "body_part list"
  ie_expiresAt :: "instant option"

text \<open>
  Entries are shared by pointer: the store maps a key to an address, and a waiting request keeps the
  address even when the key is deleted. For the proofs an entry also carries the key, request and time it
  was created for, and the clock at that moment; the code never reads these.
\<close>

record tracked_entry = idempotencyEntry +
  te_key :: string
  te_request :: http_request
  te_now :: instant
  te_clock :: instant

type_synonym idem_entries = "string \<rightharpoonup> nat"
type_synonym idem_heap = "tracked_entry list"

definition entry_expired :: "instant \<Rightarrow> ('a) idempotencyEntry_scheme \<Rightarrow> bool" where
  "entry_expired now e = (case ie_expiresAt e of None \<Rightarrow> False | Some t \<Rightarrow> \<not> now < t)"

definition pruneExpiredLocked :: "instant \<Rightarrow> idem_heap \<Rightarrow> idem_entries \<Rightarrow> idem_entries" where
  "pruneExpiredLocked now heap entries =
     (\<lambda>k. case entries k of
        None \<Rightarrow> None
      | Some a \<Rightarrow> if entry_expired now (heap ! a) then None else Some a)"

text \<open>The first critical section decides what the request does.\<close>

datatype idem_decision = Conflict | Wait nat | Lead

definition idem_decide :: "idem_heap \<Rightarrow> idem_entries \<Rightarrow> string \<Rightarrow> string \<Rightarrow> idem_decision" where
  "idem_decide heap entries storageKey fingerprint =
     (case entries storageKey of
        Some a \<Rightarrow> if ie_fingerprint (heap ! a) \<noteq> fingerprint then Conflict else Wait a
      | None \<Rightarrow> Lead)"

definition new_entry :: "string \<Rightarrow> string \<Rightarrow> http_request \<Rightarrow> instant \<Rightarrow> instant \<Rightarrow> tracked_entry" where
  "new_entry fingerprint key r now clock =
     \<lparr>ie_fingerprint = fingerprint, ie_ready = False, ie_status = 0, ie_header = Map.empty, ie_body = [],
      ie_expiresAt = None, te_key = key, te_request = r, te_now = now, te_clock = clock\<rparr>"

text \<open>The second one stores what the handler wrote, then wakes the waiting requests.\<close>

definition fill_entry ::
  "duration \<Rightarrow> instant \<Rightarrow> bufferedResponseWriter \<Rightarrow> tracked_entry \<Rightarrow> tracked_entry" where
  "fill_entry ttl now rec e =
     e\<lparr>ie_status := bw_status rec, ie_header := bw_header rec, ie_body := bw_body rec,
       ie_expiresAt := Some (now + ttl), ie_ready := True\<rparr>"

definition commit_entries :: "string \<Rightarrow> bufferedResponseWriter \<Rightarrow> idem_entries \<Rightarrow> idem_entries" where
  "commit_entries storageKey rec entries =
     (if bw_status rec \<ge> 500 then entries(storageKey := None) else entries)"

text \<open>What the leader and a waiting request send.\<close>

definition own_reply :: "bufferedResponseWriter \<Rightarrow> writer_op list" where
  "own_reply rec = CopyHeader (bw_header rec) # WriteHeader (bw_status rec) # map Write (bw_body rec)"

definition replay_reply :: "('a) idempotencyEntry_scheme \<Rightarrow> writer_op list" where
  "replay_reply e =
     CopyHeader (ie_header e) # SetHeader ''Idempotency-Replayed'' ''true'' # WriteHeader (ie_status e) #
     map Write (ie_body e)"

definition conflict_reply :: "writer_op list" where
  "conflict_reply =
     writeError 409 ''idempotency_key_reused'' ''idempotency key was already used with a different request''"

section \<open>Concurrent requests\<close>

datatype idem_proc =
    Leading nat http_request string instant
  | Ran nat http_request string instant bufferedResponseWriter
  | Waiting nat http_request

record 's idem_state =
  is_entries :: idem_entries
  is_heap :: idem_heap
  is_backend :: 's
  is_clock :: instant
  is_procs :: "nat \<rightharpoonup> idem_proc"
  is_execs :: "(nat \<times> bufferedResponseWriter) list"
  is_replies :: "(http_request \<times> nat \<times> writer_op list) list"

definition idem_start :: "'s \<Rightarrow> instant \<Rightarrow> 's idem_state" where
  "idem_start b t =
     \<lparr>is_entries = Map.empty, is_heap = [], is_backend = b, is_clock = t, is_procs = Map.empty,
      is_execs = [], is_replies = []\<rparr>"

abbreviation any_request :: "http_request \<Rightarrow> bool" where
  "any_request \<equiv> \<lambda>r. True"

text \<open>
  One step of one request, or of time. The lists of executions and of replies record what happened: a
  handler run for an entry, and an answer given from an entry. Requests that bypass the store, are
  rejected or conflict leave it alone, but for pruning. A handler may also panic: net/http ends that
  request and nothing after the handler call runs. Which requests arrive is up to what stands before the
  middleware.
\<close>

inductive idem_step ::
  "(http_request \<Rightarrow> bool) \<Rightarrow> 's handler \<Rightarrow> duration \<Rightarrow> 's idem_state \<Rightarrow> 's idem_state \<Rightarrow> bool"
  for arr :: "http_request \<Rightarrow> bool" and nxt :: "'s handler" and ttl :: duration where
  tick: "is_clock s \<le> t \<Longrightarrow> idem_step arr nxt ttl s (s\<lparr>is_clock := t\<rparr>)"
| bypass: "idempotency_bypassed r \<Longrightarrow> arr r \<Longrightarrow>
    idem_step arr nxt ttl s (s\<lparr>is_backend := snd (nxt r (is_backend s))\<rparr>)"
| conflict: "\<not> idempotency_bypassed r \<Longrightarrow> idempotency_admit r = Inr (r', fp, key) \<Longrightarrow> now \<le> is_clock s \<Longrightarrow>
    entries = pruneExpiredLocked now (is_heap s) (is_entries s) \<Longrightarrow>
    idem_decide (is_heap s) entries key fp = Conflict \<Longrightarrow> arr r \<Longrightarrow>
    idem_step arr nxt ttl s (s\<lparr>is_entries := entries\<rparr>)"
| wait: "\<not> idempotency_bypassed r \<Longrightarrow> idempotency_admit r = Inr (r', fp, key) \<Longrightarrow> now \<le> is_clock s \<Longrightarrow>
    entries = pruneExpiredLocked now (is_heap s) (is_entries s) \<Longrightarrow>
    idem_decide (is_heap s) entries key fp = Wait a \<Longrightarrow> is_procs s p = None \<Longrightarrow> arr r \<Longrightarrow>
    idem_step arr nxt ttl s (s\<lparr>is_entries := entries, is_procs := (is_procs s)(p \<mapsto> Waiting a r')\<rparr>)"
| lead: "\<not> idempotency_bypassed r \<Longrightarrow> idempotency_admit r = Inr (r', fp, key) \<Longrightarrow> now \<le> is_clock s \<Longrightarrow>
    entries = pruneExpiredLocked now (is_heap s) (is_entries s) \<Longrightarrow>
    idem_decide (is_heap s) entries key fp = Lead \<Longrightarrow> is_procs s p = None \<Longrightarrow>
    a = length (is_heap s) \<Longrightarrow> arr r \<Longrightarrow>
    idem_step arr nxt ttl s
      (s\<lparr>is_entries := entries(key \<mapsto> a), is_heap := is_heap s @ [new_entry fp key r' now (is_clock s)],
         is_procs := (is_procs s)(p \<mapsto> Leading a r' key now)\<rparr>)"
| run: "is_procs s p = Some (Leading a r key now) \<Longrightarrow> nxt r (is_backend s) = (ops, b) \<Longrightarrow>
    idem_step arr nxt ttl s
      (s\<lparr>is_execs := is_execs s @ [(a, buffered ops)],
         is_procs := (is_procs s)(p \<mapsto> Ran a r key now (buffered ops)), is_backend := b\<rparr>)"
| panic: "is_procs s p = Some (Leading a r key now) \<Longrightarrow>
    idem_step arr nxt ttl s (s\<lparr>is_procs := (is_procs s)(p := None), is_backend := b\<rparr>)"
| commit: "is_procs s p = Some (Ran a r key now rec) \<Longrightarrow>
    idem_step arr nxt ttl s
      (s\<lparr>is_heap := (is_heap s)[a := fill_entry ttl now rec (is_heap s ! a)],
         is_entries := commit_entries key rec (is_entries s), is_procs := (is_procs s)(p := None),
         is_replies := is_replies s @ [(r, a, own_reply rec)]\<rparr>)"
| replay: "is_procs s p = Some (Waiting a r) \<Longrightarrow> ie_ready (is_heap s ! a) \<Longrightarrow>
    idem_step arr nxt ttl s
      (s\<lparr>is_procs := (is_procs s)(p := None),
         is_replies := is_replies s @ [(r, a, replay_reply (is_heap s ! a))]\<rparr>)"

definition idem_reachable ::
  "(http_request \<Rightarrow> bool) \<Rightarrow> 's handler \<Rightarrow> duration \<Rightarrow> 's idem_state \<Rightarrow> bool" where
  "idem_reachable arr nxt ttl s \<longleftrightarrow> (\<exists>b t. (idem_step arr nxt ttl)\<^sup>*\<^sup>* (idem_start b t) s)"

end
