(* ===== verification/IdempotencyInv.thy ===== *)
theory IdempotencyInv
  imports Idempotency
begin

text \<open>
  The invariant of the in-memory idempotency store, and its preservation by every step.
\<close>

section \<open>The invariant\<close>

abbreviation fp_of :: "http_request \<Rightarrow> string" where
  "fp_of r \<equiv> requestFingerprint r (rq_Body r)"

definition replay_of :: "bufferedResponseWriter \<Rightarrow> writer_op list" where
  "replay_of rec =
     CopyHeader (bw_header rec) # SetHeader ''Idempotency-Replayed'' ''true'' #
     WriteHeader (bw_status rec) # map Write (bw_body rec)"

fun owned :: "idem_proc \<Rightarrow> nat option" where
  "owned (Leading a r k now) = Some a"
| "owned (Ran a r k now rec) = Some a"
| "owned (Waiting a r) = None"

text \<open>Entries: unfinished ones stay in the store, finished ones hold what was executed.\<close>

definition filled :: "duration \<Rightarrow> (nat \<times> bufferedResponseWriter) list \<Rightarrow> nat \<Rightarrow> tracked_entry \<Rightarrow> bool" where
  "filled ttl execs a e \<longleftrightarrow> (\<exists>rec e0. (a, rec) \<in> set execs \<and> e = fill_entry ttl (te_now e0) rec e0)"

definition entry_ok ::
  "duration \<Rightarrow> instant \<Rightarrow> idem_entries \<Rightarrow> (nat \<times> bufferedResponseWriter) list \<Rightarrow> nat \<Rightarrow> tracked_entry \<Rightarrow> bool"
where
  "entry_ok ttl clock entries execs a e \<longleftrightarrow>
     ie_fingerprint e = fp_of (te_request e) \<and>
     (if ie_ready e
      then filled ttl execs a e \<and>
        (entries (te_key e) = Some a \<or> ie_status e \<ge> 500 \<or> te_now e + ttl \<le> clock)
      else entries (te_key e) = Some a \<and> ie_expiresAt e = None)"

definition keys_ok :: "idem_heap \<Rightarrow> idem_entries \<Rightarrow> bool" where
  "keys_ok heap entries \<longleftrightarrow> (\<forall>k a. entries k = Some a \<longrightarrow> a < length heap \<and> te_key (heap ! a) = k)"

definition entries_ok :: "duration \<Rightarrow> 's idem_state \<Rightarrow> bool" where
  "entries_ok ttl s \<longleftrightarrow>
     keys_ok (is_heap s) (is_entries s) \<and>
     (\<forall>a < length (is_heap s). entry_ok ttl (is_clock s) (is_entries s) (is_execs s) a (is_heap s ! a))"

text \<open>Of two entries for one key the older one was finished, and failed or expired.\<close>

definition superseded :: "duration \<Rightarrow> tracked_entry \<Rightarrow> tracked_entry \<Rightarrow> bool" where
  "superseded ttl e e' \<longleftrightarrow> ie_ready e \<and> (ie_status e \<ge> 500 \<or> te_now e + ttl \<le> te_clock e')"

definition order_ok :: "duration \<Rightarrow> 's idem_state \<Rightarrow> bool" where
  "order_ok ttl s \<longleftrightarrow>
     (\<forall>a b. a < b \<and> b < length (is_heap s) \<and> te_key (is_heap s ! a) = te_key (is_heap s ! b) \<longrightarrow>
        superseded ttl (is_heap s ! a) (is_heap s ! b))"

fun proc_ok :: "idem_heap \<Rightarrow> (nat \<times> bufferedResponseWriter) list \<Rightarrow> idem_proc \<Rightarrow> bool" where
  "proc_ok heap execs (Leading a r k now) \<longleftrightarrow>
     a < length heap \<and> \<not> ie_ready (heap ! a) \<and> a \<notin> fst ` set execs \<and>
     te_request (heap ! a) = r \<and> te_key (heap ! a) = k \<and> te_now (heap ! a) = now"
| "proc_ok heap execs (Ran a r k now rec) \<longleftrightarrow>
     a < length heap \<and> \<not> ie_ready (heap ! a) \<and> (a, rec) \<in> set execs \<and>
     te_request (heap ! a) = r \<and> te_key (heap ! a) = k \<and> te_now (heap ! a) = now"
| "proc_ok heap execs (Waiting a r) \<longleftrightarrow>
     a < length heap \<and> ie_fingerprint (heap ! a) = fp_of r"

definition procs_ok :: "'s idem_state \<Rightarrow> bool" where
  "procs_ok s \<longleftrightarrow>
     (\<forall>p x. is_procs s p = Some x \<longrightarrow> proc_ok (is_heap s) (is_execs s) x) \<and>
     (\<forall>p q x y a. is_procs s p = Some x \<and> is_procs s q = Some y \<and>
        owned x = Some a \<and> owned y = Some a \<longrightarrow> p = q)"

definition execs_ok :: "'s idem_state \<Rightarrow> bool" where
  "execs_ok s \<longleftrightarrow>
     distinct (map fst (is_execs s)) \<and> (\<forall>a rec. (a, rec) \<in> set (is_execs s) \<longrightarrow> a < length (is_heap s))"

definition replies_ok :: "'s idem_state \<Rightarrow> bool" where
  "replies_ok s \<longleftrightarrow>
     (\<forall>r a ops. (r, a, ops) \<in> set (is_replies s) \<longrightarrow> a < length (is_heap s) \<and>
        fp_of r = fp_of (te_request (is_heap s ! a)) \<and>
        (\<exists>rec. (a, rec) \<in> set (is_execs s) \<and> (ops = own_reply rec \<or> ops = replay_of rec)))"

definition idem_inv :: "duration \<Rightarrow> 's idem_state \<Rightarrow> bool" where
  "idem_inv ttl s \<longleftrightarrow>
     entries_ok ttl s \<and> order_ok ttl s \<and> procs_ok s \<and> execs_ok s \<and> replies_ok s"

section \<open>Helper facts\<close>

lemma admit_fingerprint:
  "idempotency_admit r = Inr (r', fp, key) \<Longrightarrow> fp = fp_of r'"
  by (auto simp: idempotency_admit_def readRequestBody_def Let_def split: sum.splits body_error.splits
      if_splits option.splits)

lemma fill_entry_simps [simp]:
  "ie_fingerprint (fill_entry ttl now rec e) = ie_fingerprint e" "ie_ready (fill_entry ttl now rec e)"
  "ie_status (fill_entry ttl now rec e) = bw_status rec"
  "ie_expiresAt (fill_entry ttl now rec e) = Some (now + ttl)"
  "te_key (fill_entry ttl now rec e) = te_key e" "te_request (fill_entry ttl now rec e) = te_request e"
  "te_now (fill_entry ttl now rec e) = te_now e" "te_clock (fill_entry ttl now rec e) = te_clock e"
  by (simp_all add: fill_entry_def)

lemma replay_fill [simp]: "replay_reply (fill_entry ttl now rec e) = replay_of rec"
  by (simp add: replay_reply_def fill_entry_def replay_of_def)

lemma new_entry_simps [simp]:
  "ie_fingerprint (new_entry fp k r now c) = fp" "\<not> ie_ready (new_entry fp k r now c)"
  "ie_expiresAt (new_entry fp k r now c) = None" "te_key (new_entry fp k r now c) = k"
  "te_request (new_entry fp k r now c) = r" "te_now (new_entry fp k r now c) = now"
  "te_clock (new_entry fp k r now c) = c"
  by (simp_all add: new_entry_def)

lemma prune_Some:
  "pruneExpiredLocked now heap entries k = Some a \<longleftrightarrow> entries k = Some a \<and> \<not> entry_expired now (heap ! a)"
  by (auto simp: pruneExpiredLocked_def split: option.splits)

lemma prune_kept:
  "entries k = Some a \<Longrightarrow> ie_expiresAt (heap ! a) = None \<Longrightarrow> pruneExpiredLocked now heap entries k = Some a"
  by (simp add: prune_Some entry_expired_def)

lemma decide_iff:
  "idem_decide heap entries k fp = Wait a \<longleftrightarrow> entries k = Some a \<and> ie_fingerprint (heap ! a) = fp"
  "idem_decide heap entries k fp = Lead \<longleftrightarrow> entries k = None"
  by (auto simp: idem_decide_def split: option.splits)

lemma proc_ok_append:
  "proc_ok heap execs x \<Longrightarrow> proc_ok (heap @ [e]) execs x"
  by (cases x) (auto simp: nth_append)

section \<open>Preservation\<close>

lemma inv_start: "idem_inv ttl (idem_start b t)"
  by (simp add: idem_inv_def entries_ok_def keys_ok_def order_ok_def procs_ok_def execs_ok_def
      replies_ok_def idem_start_def)

lemma entry_ok_tick: "entry_ok ttl c entries execs a e \<Longrightarrow> c \<le> c' \<Longrightarrow> entry_ok ttl c' entries execs a e"
  by (auto simp: entry_ok_def)

lemma filled_mono: "filled ttl execs a e \<Longrightarrow> set execs \<subseteq> set execs' \<Longrightarrow> filled ttl execs' a e"
  unfolding filled_def by blast

lemma entry_ok_execs:
  "entry_ok ttl c entries execs a e \<Longrightarrow> set execs \<subseteq> set execs' \<Longrightarrow> entry_ok ttl c entries execs' a e"
  using filled_mono by (auto simp: entry_ok_def)

lemma entry_gone:
  assumes "entry_ok ttl c entries execs a e" and "now \<le> c" and "heap ! a = e"
    and "pruneExpiredLocked now heap entries (te_key e) \<noteq> Some a"
  shows "ie_ready e \<and> (ie_status e \<ge> 500 \<or> te_now e + ttl \<le> c)"
proof (cases "ie_ready e")
  case False
  with assms(1) have "entries (te_key e) = Some a" "ie_expiresAt (heap ! a) = None"
    by (simp_all add: entry_ok_def assms(3))
  from prune_kept [of entries, OF this] assms(4) show ?thesis by simp
next
  case True
  with assms(1) obtain rec e0 where e: "e = fill_entry ttl (te_now e0) rec e0"
    by (auto simp: entry_ok_def filled_def)
  show ?thesis
  proof (cases "entries (te_key e) = Some a")
    case True
    with assms(3,4) have "entry_expired now e" by (simp add: prune_Some)
    with assms(2) show ?thesis by (simp add: e entry_expired_def)
  next
    case False
    with \<open>ie_ready e\<close> assms(1) show ?thesis by (simp add: entry_ok_def)
  qed
qed

lemma entry_ok_prune:
  assumes "entry_ok ttl c entries execs a e" and "now \<le> c" and "heap ! a = e"
  shows "entry_ok ttl c (pruneExpiredLocked now heap entries) execs a e"
proof (cases "pruneExpiredLocked now heap entries (te_key e) = Some a")
  case True
  with assms(1) show ?thesis by (simp add: entry_ok_def)
next
  case False
  from entry_gone [OF assms False] assms(1) show ?thesis by (simp add: entry_ok_def)
qed

lemma inv_tick: "idem_inv ttl s \<Longrightarrow> is_clock s \<le> t \<Longrightarrow> idem_inv ttl (s\<lparr>is_clock := t\<rparr>)"
  by (auto simp: idem_inv_def entries_ok_def order_ok_def procs_ok_def execs_ok_def replies_ok_def
      intro: entry_ok_tick)

lemma inv_backend: "idem_inv ttl s \<Longrightarrow> idem_inv ttl (s\<lparr>is_backend := b\<rparr>)"
  by (simp add: idem_inv_def entries_ok_def order_ok_def procs_ok_def execs_ok_def replies_ok_def)

lemma inv_prune:
  assumes "idem_inv ttl s" and "now \<le> is_clock s"
  shows "idem_inv ttl (s\<lparr>is_entries := pruneExpiredLocked now (is_heap s) (is_entries s)\<rparr>)"
proof -
  have "entries_ok ttl (s\<lparr>is_entries := pruneExpiredLocked now (is_heap s) (is_entries s)\<rparr>)"
    using assms by (auto simp: idem_inv_def entries_ok_def keys_ok_def prune_Some intro: entry_ok_prune)
  with assms(1) show ?thesis
    by (simp add: idem_inv_def order_ok_def procs_ok_def execs_ok_def replies_ok_def)
qed

lemma procs_ok_drop: "procs_ok s \<Longrightarrow> procs_ok (s\<lparr>is_procs := (is_procs s)(p := None)\<rparr>)"
proof -
  assume ok: "procs_ok s"
  have sub: "is_procs s q = Some x" if "((is_procs s)(p := None)) q = Some x" for q x
    using that by (simp split: if_splits)
  show ?thesis
    using ok unfolding procs_ok_def by simp
qed

lemma inv_drop: "idem_inv ttl s \<Longrightarrow> idem_inv ttl (s\<lparr>is_procs := (is_procs s)(p := None)\<rparr>)"
  using procs_ok_drop [of s p]
  by (simp add: idem_inv_def entries_ok_def order_ok_def execs_ok_def replies_ok_def)

lemma procs_ok_add:
  assumes "procs_ok s" and "proc_ok (is_heap s) (is_execs s) x"
    and "\<And>q y a. q \<noteq> p \<Longrightarrow> is_procs s q = Some y \<Longrightarrow> owned x = Some a \<Longrightarrow> owned y \<noteq> Some a"
  shows "procs_ok (s\<lparr>is_procs := (is_procs s)(p \<mapsto> x)\<rparr>)"
proof -
  have sub: "q = p \<and> y = x \<or> q \<noteq> p \<and> is_procs s q = Some y"
    if "((is_procs s)(p \<mapsto> x)) q = Some y" for q y
    using that by (auto split: if_splits)
  show ?thesis
    unfolding procs_ok_def
  proof (intro conjI allI impI)
    fix q y
    assume "is_procs (s\<lparr>is_procs := (is_procs s)(p \<mapsto> x)\<rparr>) q = Some y"
    then show "proc_ok (is_heap (s\<lparr>is_procs := (is_procs s)(p \<mapsto> x)\<rparr>))
        (is_execs (s\<lparr>is_procs := (is_procs s)(p \<mapsto> x)\<rparr>)) y"
      using sub [of q y] assms(1,2) by (auto simp: procs_ok_def)
  next
    fix q q' y y' a
    assume "is_procs (s\<lparr>is_procs := (is_procs s)(p \<mapsto> x)\<rparr>) q = Some y \<and>
      is_procs (s\<lparr>is_procs := (is_procs s)(p \<mapsto> x)\<rparr>) q' = Some y' \<and> owned y = Some a \<and> owned y' = Some a"
    then have y: "((is_procs s)(p \<mapsto> x)) q = Some y" "((is_procs s)(p \<mapsto> x)) q' = Some y'"
      and a: "owned y = Some a" "owned y' = Some a"
      by simp_all
    have U: "q = q'" if "is_procs s q = Some y" "is_procs s q' = Some y'"
      using assms(1) that a unfolding procs_ok_def by blast
    show "q = q'"
      using sub [OF y(1)] sub [OF y(2)] U a assms(3) [of q y a] assms(3) [of q' y' a] by blast
  qed
qed

lemma inv_wait:
  assumes "idem_inv ttl s" and "idem_decide (is_heap s) (is_entries s) key fp = Wait a" and "fp = fp_of r"
  shows "idem_inv ttl (s\<lparr>is_procs := (is_procs s)(p \<mapsto> Waiting a r)\<rparr>)"
proof -
  have "a < length (is_heap s)" "ie_fingerprint (is_heap s ! a) = fp_of r"
    using assms by (auto simp: idem_inv_def entries_ok_def keys_ok_def decide_iff)
  with assms(1) have "procs_ok (s\<lparr>is_procs := (is_procs s)(p \<mapsto> Waiting a r)\<rparr>)"
    by (intro procs_ok_add) (simp_all add: idem_inv_def)
  with assms(1) show ?thesis
    by (simp add: idem_inv_def entries_ok_def order_ok_def execs_ok_def replies_ok_def)
qed

lemma inv_lead:
  assumes "idem_inv ttl s" and "is_entries s key = None" and "fp = fp_of r" and "is_procs s p = None"
    and "\<And>a. a < length (is_heap s) \<Longrightarrow> te_key (is_heap s ! a) = key \<Longrightarrow>
      superseded ttl (is_heap s ! a) (new_entry fp key r now (is_clock s))"
  shows "idem_inv ttl
    (s\<lparr>is_entries := (is_entries s)(key \<mapsto> length (is_heap s)),
       is_heap := is_heap s @ [new_entry fp key r now (is_clock s)],
       is_procs := (is_procs s)(p \<mapsto> Leading (length (is_heap s)) r key now)\<rparr>)"
    (is "idem_inv ttl (s\<lparr>is_entries := ?E, is_heap := ?H, is_procs := ?P\<rparr>)")
proof -
  let ?n = "length (is_heap s)" and ?e = "new_entry fp key r now (is_clock s)"
  let ?s = "s\<lparr>is_entries := ?E, is_heap := ?H\<rparr>"
  have inv: "keys_ok (is_heap s) (is_entries s)"
    "\<And>a. a < ?n \<Longrightarrow> entry_ok ttl (is_clock s) (is_entries s) (is_execs s) a (is_heap s ! a)"
    "order_ok ttl s" "procs_ok s" "execs_ok s" "replies_ok s"
    using assms(1) by (simp_all add: idem_inv_def entries_ok_def)
  have keys: "keys_ok ?H ?E" using inv(1) by (auto simp: keys_ok_def nth_append less_SucI)
  have old: "entry_ok ttl (is_clock s) ?E (is_execs s) a (is_heap s ! a)" if a: "a < ?n" for a
  proof (cases "te_key (is_heap s ! a) = key")
    case True
    with assms(5) [OF a True] have "ie_ready (is_heap s ! a) \<and>
        (ie_status (is_heap s ! a) \<ge> 500 \<or> te_now (is_heap s ! a) + ttl \<le> is_clock s)"
      by (simp add: superseded_def)
    with inv(2) [OF a] show ?thesis by (simp add: entry_ok_def)
  next
    case False
    with inv(2) [OF a] show ?thesis by (simp add: entry_ok_def)
  qed
  have "entry_ok ttl (is_clock s) ?E (is_execs s) ?n ?e"
    using assms(3) by (simp add: entry_ok_def)
  with keys old have E: "entries_ok ttl ?s"
    by (auto simp: entries_ok_def nth_append less_Suc_eq)
  have O: "order_ok ttl ?s"
    using inv(3) assms(5) by (auto simp: order_ok_def nth_append less_Suc_eq)
  have X: "execs_ok ?s" using inv(5) unfolding execs_ok_def by fastforce
  have "proc_ok ?H (is_execs s) x" if "is_procs s q = Some x" for q x
    using inv(4) that proc_ok_append unfolding procs_ok_def by blast
  with inv(4) have P: "procs_ok ?s" unfolding procs_ok_def by simp
  have fresh: "?n \<notin> fst ` set (is_execs s)" using inv(5) unfolding execs_ok_def by fastforce
  have own: "owned y \<noteq> Some ?n" if "is_procs s q = Some y" for q y
  proof -
    have "proc_ok (is_heap s) (is_execs s) y" using inv(4) that unfolding procs_ok_def by blast
    then show ?thesis by (cases y) auto
  qed
  have "procs_ok (?s\<lparr>is_procs := (is_procs ?s)(p \<mapsto> Leading ?n r key now)\<rparr>)"
    using fresh own by (intro procs_ok_add [OF P]) auto
  moreover have "replies_ok ?s"
    unfolding replies_ok_def
  proof (intro allI impI)
    fix r' a ops
    assume "(r', a, ops) \<in> set (is_replies ?s)"
    with inv(6) have "a < ?n \<and> fp_of r' = fp_of (te_request (is_heap s ! a)) \<and>
        (\<exists>rec. (a, rec) \<in> set (is_execs s) \<and> (ops = own_reply rec \<or> ops = replay_of rec))"
      unfolding replies_ok_def by simp
    then show "a < length (is_heap ?s) \<and> fp_of r' = fp_of (te_request (is_heap ?s ! a)) \<and>
        (\<exists>rec. (a, rec) \<in> set (is_execs ?s) \<and> (ops = own_reply rec \<or> ops = replay_of rec))"
      by (simp add: nth_append)
  qed
  ultimately show ?thesis using E O X
    by (simp add: idem_inv_def entries_ok_def order_ok_def execs_ok_def replies_ok_def)
qed

lemma inv_run:
  assumes "idem_inv ttl s" and "is_procs s p = Some (Leading a r key now)"
  shows "idem_inv ttl
    (s\<lparr>is_execs := is_execs s @ [(a, rec)], is_procs := (is_procs s)(p \<mapsto> Ran a r key now rec)\<rparr>)"
proof -
  let ?X = "is_execs s @ [(a, rec)]"
  let ?s = "s\<lparr>is_procs := (is_procs s)(p := None), is_execs := ?X\<rparr>"
  have inv: "entries_ok ttl s" "order_ok ttl s" "procs_ok s" "execs_ok s" "replies_ok s"
    using assms(1) by (simp_all add: idem_inv_def)
  have lead: "proc_ok (is_heap s) (is_execs s) (Leading a r key now)"
    using inv(3) assms(2) unfolding procs_ok_def by blast
  have own: "owned y \<noteq> Some a" if "q \<noteq> p" "is_procs s q = Some y" for q y
    using inv(3) assms(2) that unfolding procs_ok_def by (metis owned.simps(1))
  have "proc_ok (is_heap s) ?X y" if "q \<noteq> p" "is_procs s q = Some y" for q y
  proof -
    have "proc_ok (is_heap s) (is_execs s) y" using inv(3) that unfolding procs_ok_def by blast
    with own [OF that] show ?thesis by (cases y) auto
  qed
  with inv(3) have P: "procs_ok ?s" unfolding procs_ok_def by (auto split: if_splits)
  have "procs_ok (?s\<lparr>is_procs := (is_procs ?s)(p \<mapsto> Ran a r key now rec)\<rparr>)"
    using lead own by (intro procs_ok_add [OF P]) (auto split: if_splits)
  moreover have "entries_ok ttl ?s"
    using inv(1) by (auto simp: entries_ok_def intro: entry_ok_execs)
  moreover have "execs_ok ?s" using inv(4) lead by (auto simp: execs_ok_def)
  moreover have "replies_ok ?s" using inv(5) unfolding replies_ok_def by fastforce
  ultimately show ?thesis using inv(2)
    by (simp add: idem_inv_def entries_ok_def order_ok_def execs_ok_def replies_ok_def)
qed

lemma inv_commit:
  assumes "idem_inv ttl s" and "is_procs s p = Some (Ran a r key now rec)"
  shows "idem_inv ttl
    (s\<lparr>is_heap := (is_heap s)[a := fill_entry ttl now rec (is_heap s ! a)],
       is_entries := commit_entries key rec (is_entries s), is_procs := (is_procs s)(p := None),
       is_replies := is_replies s @ [(r, a, own_reply rec)]\<rparr>)"
    (is "idem_inv ttl (s\<lparr>is_heap := ?H, is_entries := ?E, is_procs := ?P, is_replies := ?R\<rparr>)")
proof -
  let ?s = "s\<lparr>is_heap := ?H, is_entries := ?E, is_procs := ?P, is_replies := ?R\<rparr>"
  have inv: "keys_ok (is_heap s) (is_entries s)"
    "\<And>b. b < length (is_heap s) \<Longrightarrow> entry_ok ttl (is_clock s) (is_entries s) (is_execs s) b (is_heap s ! b)"
    "order_ok ttl s" "procs_ok s" "execs_ok s" "replies_ok s"
    using assms(1) by (simp_all add: idem_inv_def entries_ok_def)
  have ran: "a < length (is_heap s)" "\<not> ie_ready (is_heap s ! a)" "(a, rec) \<in> set (is_execs s)"
    "te_request (is_heap s ! a) = r" "te_key (is_heap s ! a) = key" "te_now (is_heap s ! a) = now"
    using inv(4) assms(2) unfolding procs_ok_def by fastforce+
  from inv(2) [OF ran(1)] ran have cur: "is_entries s key = Some a" by (simp add: entry_ok_def)
  have te: "te_key (?H ! b) = te_key (is_heap s ! b)" "te_request (?H ! b) = te_request (is_heap s ! b)"
    "te_now (?H ! b) = te_now (is_heap s ! b)" "te_clock (?H ! b) = te_clock (is_heap s ! b)"
    "ie_fingerprint (?H ! b) = ie_fingerprint (is_heap s ! b)" for b
    using ran(1) by (cases "b = a"; simp add: nth_list_update)+
  have keys: "keys_ok ?H ?E"
    using inv(1) by (auto simp: keys_ok_def te commit_entries_def split: if_splits)
  have ent: "entry_ok ttl (is_clock s) ?E (is_execs s) b (?H ! b)" if b: "b < length (is_heap s)" for b
  proof (cases "b = a")
    case True
    have "filled ttl (is_execs s) a (fill_entry ttl now rec (is_heap s ! a))"
      unfolding filled_def using ran by blast
    then show ?thesis
      using True ran inv(2) [OF ran(1)] cur by (auto simp: entry_ok_def commit_entries_def)
  next
    case False
    with inv(2) [OF b] cur show ?thesis
      by (cases "ie_ready (is_heap s ! b)") (auto simp: entry_ok_def commit_entries_def)
  qed
  have E: "entries_ok ttl ?s" using keys ent by (simp add: entries_ok_def)
  have O: "order_ok ttl ?s"
    using inv(3) ran(1,2) unfolding order_ok_def
    by (auto simp: nth_list_update superseded_def)
  have "proc_ok ?H (is_execs s) y" if y: "q \<noteq> p" "is_procs s q = Some y" for q y
  proof -
    have "proc_ok (is_heap s) (is_execs s) y" using inv(4) that unfolding procs_ok_def by blast
    moreover have "owned y \<noteq> Some a"
      using inv(4) assms(2) that unfolding procs_ok_def by (metis owned.simps(2))
    ultimately show ?thesis by (cases y) (auto simp: te nth_list_update)
  qed
  with inv(4) have P: "procs_ok ?s" unfolding procs_ok_def by (auto split: if_splits)
  have X: "execs_ok ?s" using inv(5) by (simp add: execs_ok_def)
  have R: "replies_ok ?s"
    using inv(6) ran by (auto simp: replies_ok_def te)
  from E O P X R show ?thesis by (simp add: idem_inv_def)
qed

lemma inv_replay:
  assumes "idem_inv ttl s" and "is_procs s p = Some (Waiting a r)" and "ie_ready (is_heap s ! a)"
  shows "idem_inv ttl
    (s\<lparr>is_procs := (is_procs s)(p := None),
       is_replies := is_replies s @ [(r, a, replay_reply (is_heap s ! a))]\<rparr>)"
proof -
  let ?e = "is_heap s ! a"
  have a: "a < length (is_heap s)" "ie_fingerprint ?e = fp_of r"
    using assms(1,2) unfolding idem_inv_def procs_ok_def by fastforce+
  have "entry_ok ttl (is_clock s) (is_entries s) (is_execs s) a ?e"
    using assms(1) a(1) by (simp add: idem_inv_def entries_ok_def)
  with assms(3) obtain rec e0 where rec: "(a, rec) \<in> set (is_execs s)"
      "?e = fill_entry ttl (te_now e0) rec e0" "ie_fingerprint ?e = fp_of (te_request ?e)"
    by (auto simp: entry_ok_def filled_def)
  then have "replay_reply ?e = replay_of rec" by simp
  moreover from inv_drop [OF assms(1), of p]
  have "idem_inv ttl (s\<lparr>is_procs := (is_procs s)(p := None)\<rparr>)" .
  ultimately show ?thesis
    using a rec
    by (simp add: idem_inv_def entries_ok_def order_ok_def procs_ok_def execs_ok_def replies_ok_def) blast
qed

section \<open>Every step\<close>

lemma idem_step_inv: "idem_step arr nxt ttl s s' \<Longrightarrow> idem_inv ttl s \<Longrightarrow> idem_inv ttl s'"
proof (induction rule: idem_step.induct)
  case (tick s t)
  then show ?case by (simp add: inv_tick)
next
  case (bypass r s)
  then show ?case by (simp add: inv_backend)
next
  case (conflict r r' fp key now s entries)
  then show ?case by (simp add: inv_prune)
next
  case (wait r r' fp key now s entries a p)
  let ?s = "s\<lparr>is_entries := entries\<rparr>"
  have "idem_inv ttl ?s" using wait by (simp add: inv_prune)
  from inv_wait [OF this, of key fp a r' p] wait admit_fingerprint [OF wait(2)] show ?case by simp
next
  case (lead r r' fp key now s entries p a)
  let ?s = "s\<lparr>is_entries := entries\<rparr>"
  have inv: "idem_inv ttl ?s" using lead by (simp add: inv_prune)
  have none: "entries key = None" using lead(5) by (simp add: decide_iff)
  have sup: "superseded ttl (is_heap s ! b) (new_entry fp key r' now (is_clock s))"
    if "b < length (is_heap s)" "te_key (is_heap s ! b) = key" for b
  proof -
    have "entry_ok ttl (is_clock s) (is_entries s) (is_execs s) b (is_heap s ! b)"
      using lead.prems that(1) by (simp add: idem_inv_def entries_ok_def)
    from entry_gone [OF this lead(3) refl] none lead(4) that(2) show ?thesis
      by (simp add: superseded_def)
  qed
  from inv_lead [OF inv, of key fp r' p now] none sup lead admit_fingerprint [OF lead(2)]
  show ?case by simp
next
  case (run s p a r key now ops b)
  from inv_backend [OF inv_run [OF run.prems run.hyps(1), of "buffered ops"], of b]
  show ?case by simp
next
  case (panic s p a r key now b)
  from inv_backend [OF inv_drop [OF panic.prems, of p], of b] show ?case by simp
next
  case (commit s p a r key now rec)
  from inv_commit [OF commit.prems commit.hyps] show ?case .
next
  case (replay s p a r)
  from inv_replay [OF replay.prems replay.hyps] show ?case .
qed

lemma idem_steps_inv: "(idem_step arr nxt ttl)\<^sup>*\<^sup>* s s' \<Longrightarrow> idem_inv ttl s \<Longrightarrow> idem_inv ttl s'"
  by (induction rule: rtranclp_induct) (auto intro: idem_step_inv)

lemma idem_reachable_inv: "idem_reachable arr nxt ttl s \<Longrightarrow> idem_inv ttl s"
  unfolding idem_reachable_def by (elim exE) (rule idem_steps_inv [OF _ inv_start])

end
