(* ===== verification/IdempotencyProps.thy ===== *)
theory IdempotencyProps
  imports IdempotencyInv
begin

text \<open>
  The properties of the in-memory idempotency middleware, for any handler behind it and any interleaving
  of requests.
\<close>

section \<open>What an execution recorded\<close>

definition execs_ran :: "'s handler \<Rightarrow> 's idem_state \<Rightarrow> bool" where
  "execs_ran nxt s \<longleftrightarrow>
     (\<forall>a rec. (a, rec) \<in> set (is_execs s) \<longrightarrow>
        (\<exists>b. rec = buffered (fst (nxt (te_request (is_heap s ! a)) b))))"

lemma execs_ran_step:
  "idem_step arr nxt ttl s s' \<Longrightarrow> idem_inv ttl s \<Longrightarrow> execs_ran nxt s \<Longrightarrow> execs_ran nxt s'"
proof (induction rule: idem_step.induct)
  case (lead r r' fp key now s entries p a)
  show ?case
    unfolding execs_ran_def
  proof (intro allI impI)
    fix b rec
    assume "(b, rec) \<in> set (is_execs (s\<lparr>is_entries := entries(key \<mapsto> a),
      is_heap := is_heap s @ [new_entry fp key r' now (is_clock s)],
      is_procs := (is_procs s)(p \<mapsto> Leading a r' key now)\<rparr>))"
    then have b: "(b, rec) \<in> set (is_execs s)" by simp
    with lead.prems(1) have "b < length (is_heap s)" unfolding idem_inv_def execs_ok_def by blast
    with b lead.prems(2) show "\<exists>ba. rec = buffered (fst (nxt (te_request (is_heap (s\<lparr>is_entries :=
        entries(key \<mapsto> a), is_heap := is_heap s @ [new_entry fp key r' now (is_clock s)],
        is_procs := (is_procs s)(p \<mapsto> Leading a r' key now)\<rparr>) ! b)) ba))"
      by (simp add: execs_ran_def nth_append)
  qed
next
  case (run s p a r key now ops b)
  then have "te_request (is_heap s ! a) = r" unfolding idem_inv_def procs_ok_def by fastforce
  with run(2) have "buffered ops = buffered (fst (nxt (te_request (is_heap s ! a)) (is_backend s)))" by simp
  with run.prems(2) show ?case by (auto simp: execs_ran_def)
next
  case (commit s p a r key now rec)
  have "te_request ((is_heap s)[a := fill_entry ttl now rec (is_heap s ! a)] ! b) =
      te_request (is_heap s ! b)" for b
    by (cases "a < length (is_heap s)") (auto simp: nth_list_update list_update_beyond)
  with commit.prems(2) show ?case by (simp add: execs_ran_def)
qed (simp_all add: execs_ran_def)

lemma reachable_execs_ran:
  assumes "idem_reachable arr nxt ttl s"
  shows "execs_ran nxt s"
proof -
  obtain b t where st: "(idem_step arr nxt ttl)\<^sup>*\<^sup>* (idem_start b t) s"
    using assms unfolding idem_reachable_def by blast
  have "idem_inv ttl s \<and> execs_ran nxt s"
    using st
  proof (induction rule: rtranclp_induct)
    case base
    show ?case by (simp add: inv_start) (simp add: execs_ran_def idem_start_def)
  next
    case (step s1 s2)
    then show ?case using idem_step_inv execs_ran_step by blast
  qed
  then show ?thesis ..
qed

lemma entry_result:
  assumes "idem_inv ttl s" and "(a, rec) \<in> set (is_execs s)" and "ie_ready (is_heap s ! a)"
  shows "ie_status (is_heap s ! a) = bw_status rec"
proof -
  have "a < length (is_heap s)" and d: "distinct (map fst (is_execs s))"
    using assms(1,2) unfolding idem_inv_def execs_ok_def by blast+
  then have "filled ttl (is_execs s) a (is_heap s ! a)"
    using assms(1,3) by (simp add: idem_inv_def entries_ok_def entry_ok_def)
  then obtain rec' e where r: "(a, rec') \<in> set (is_execs s)" "is_heap s ! a = fill_entry ttl (te_now e) rec' e"
    unfolding filled_def by blast
  have "rec' = rec" using eq_key_imp_eq_value [OF d r(1) assms(2)] .
  with r(2) show ?thesis by simp
qed

section \<open>Running once\<close>

text \<open>
  C4: a request with an idempotency key takes effect once. Under any interleaving of any requests, two
  executions of the handler are never for the same store entry, and if two entries were made for the
  same user and key, then the execution for the older one had ended with a server error (status 500 or
  more), or the time to live counted from the older request had passed when the younger one was admitted.
\<close>

theorem idempotent_request_runs_once:
  assumes "idem_reachable arr nxt ttl s"
    and "i < j" and "j < length (is_execs s)"
    and "is_execs s ! i = (a, rec)" and "is_execs s ! j = (b, rec')"
    and "te_key (is_heap s ! a) = te_key (is_heap s ! b)"
  shows "a < b \<and> (bw_status rec \<ge> 500 \<or> te_now (is_heap s ! a) + ttl \<le> te_clock (is_heap s ! b)) \<or>
    b < a \<and> (bw_status rec' \<ge> 500 \<or> te_now (is_heap s ! b) + ttl \<le> te_clock (is_heap s ! a))"
proof -
  have inv: "idem_inv ttl s" using assms(1) by (rule idem_reachable_inv)
  have mem: "(a, rec) \<in> set (is_execs s)" "(b, rec') \<in> set (is_execs s)"
    using assms(2-5) nth_mem [of i "is_execs s"] nth_mem [of j "is_execs s"] by simp_all
  have "distinct (map fst (is_execs s))" using inv by (simp add: idem_inv_def execs_ok_def)
  from nth_eq_iff_index_eq [OF this, of i j] assms(2,3)
  have "map fst (is_execs s) ! i \<noteq> map fst (is_execs s) ! j" by (simp del: nth_map)
  then have ab: "a \<noteq> b" using assms(2-5) by simp
  have len: "a < length (is_heap s)" "b < length (is_heap s)"
    using inv mem unfolding idem_inv_def execs_ok_def by blast+
  have sup: "superseded ttl (is_heap s ! x) (is_heap s ! y)"
    if "x < y" "y < length (is_heap s)" "te_key (is_heap s ! x) = te_key (is_heap s ! y)" for x y
    using inv that by (simp add: idem_inv_def order_ok_def)
  show ?thesis
  proof (cases "a < b")
    case True
    from sup [OF True len(2) assms(6)] entry_result [OF inv mem(1)] show ?thesis
      using True by (auto simp: superseded_def)
  next
    case False
    with ab have ba: "b < a" by simp
    from sup [OF ba len(1) assms(6) [symmetric]] entry_result [OF inv mem(2)] show ?thesis
      using ba by (auto simp: superseded_def)
  qed
qed

text \<open>A handler that always answers 500, and a request with a key, for the witnesses.\<close>

definition failing :: "unit handler" where
  "failing r u = ([WriteHeader 500], u)"

definition post :: http_request where
  "post =
     \<lparr>rq_Method = ''POST'', rq_Path = ''/v1/transfers'', rq_Query = (\<lambda>_. ''''),
      rq_Header = header_Set Map.empty ''Idempotency-Key'' ''k'', rq_Body = ''{}'',
      rq_BodyError = None, rq_RemoteAddr = ''10.0.0.1:80'', rq_ctx = background\<rparr>"

abbreviation post_fp :: string where "post_fp \<equiv> fp_of post"
abbreviation post_key :: string where "post_key \<equiv> CHR 0x00 # ''k''"

lemma post_bypassed: "\<not> idempotency_bypassed post"
  by (simp add: idempotency_bypassed_def post_def HasPrefix_def)

lemma post_admit: "idempotency_admit post = Inr (post, post_fp, post_key)"
proof -
  have "requestFingerprint (post\<lparr>rq_BodyError := None\<rparr>) ''{}'' = requestFingerprint post ''{}''"
    by (simp add: requestFingerprint_def)
  moreover have "rq_Body post = ''{}''" "rq_BodyError post = None" "rq_ctx post = background"
    "header_Get (rq_Header post) ''Idempotency-Key'' = ''k''"
    by (simp_all add: post_def)
  ultimately show ?thesis
    by (simp add: idempotency_admit_def readRequestBody_def scopedIdempotencyKey_def
        maxIdempotentBodyBytes_def)
qed

definition failed_rec :: bufferedResponseWriter where
  "failed_rec = buffered [WriteHeader 500]"

lemma failed_rec_status: "bw_status failed_rec = 500"
  by (simp add: failed_rec_def buffered_def newBufferedResponseWriter_def bw_WriteHeader_def)

definition post_entry :: tracked_entry where
  "post_entry = new_entry post_fp post_key post 0 0"

definition post_leading :: "unit idem_state" where
  "post_leading =
     (idem_start () 0)\<lparr>is_entries := [post_key \<mapsto> 0], is_heap := [post_entry],
        is_procs := [0 \<mapsto> Leading 0 post post_key 0]\<rparr>"

definition post_ran :: "unit idem_state" where
  "post_ran = post_leading\<lparr>is_execs := [(0, failed_rec)], is_procs := [0 \<mapsto> Ran 0 post post_key 0 failed_rec]\<rparr>"

definition post_failed :: "unit idem_state" where
  "post_failed =
     (idem_start () 0)\<lparr>is_heap := [fill_entry 60 0 failed_rec post_entry], is_execs := [(0, failed_rec)],
        is_replies := [(post, 0, own_reply failed_rec)]\<rparr>"

definition post_again :: "unit idem_state" where
  "post_again =
     post_failed\<lparr>is_entries := [post_key \<mapsto> 1], is_heap := [fill_entry 60 0 failed_rec post_entry, post_entry],
        is_procs := [0 \<mapsto> Ran 1 post post_key 0 failed_rec],
        is_execs := [(0, failed_rec), (1, failed_rec)]\<rparr>"

lemma reach_leading: "idem_reachable any_request failing 60 post_leading"
proof -
  let ?s = "idem_start () 0"
  have "idem_step any_request failing 60 ?s (?s\<lparr>is_entries := Map.empty(post_key \<mapsto> 0),
      is_heap := is_heap ?s @ [new_entry post_fp post_key post 0 (is_clock ?s)],
      is_procs := (is_procs ?s)(0 \<mapsto> Leading 0 post post_key 0)\<rparr>)"
    by (rule idem_step.lead [OF post_bypassed post_admit])
      (auto simp: idem_start_def pruneExpiredLocked_def idem_decide_def)
  then have "idem_step any_request failing 60 ?s post_leading"
    by (simp add: post_leading_def idem_start_def post_entry_def)
  then show ?thesis unfolding idem_reachable_def by blast
qed

lemma idem_reachable_step:
  "idem_reachable arr nxt ttl s \<Longrightarrow> idem_step arr nxt ttl s s' \<Longrightarrow> idem_reachable arr nxt ttl s'"
  unfolding idem_reachable_def by (meson rtranclp.rtrancl_into_rtrancl)

lemma reach_ran: "idem_reachable any_request failing 60 post_ran"
proof (rule idem_reachable_step [OF reach_leading])
  have "is_procs post_leading 0 = Some (Leading 0 post post_key 0)" by (simp add: post_leading_def)
  from idem_step.run [OF this, of failing "[WriteHeader 500]" "()" any_request 60]
  show "idem_step any_request failing 60 post_leading post_ran"
    by (simp add: post_ran_def post_leading_def idem_start_def failing_def failed_rec_def)
qed

lemma reach_failed: "idem_reachable any_request failing 60 post_failed"
proof (rule idem_reachable_step [OF reach_ran])
  have "is_procs post_ran 0 = Some (Ran 0 post post_key 0 failed_rec)" by (simp add: post_ran_def)
  from idem_step.commit [OF this, of any_request failing 60] show "idem_step any_request failing 60 post_ran post_failed"
    by (simp add: post_failed_def post_ran_def post_leading_def idem_start_def commit_entries_def
        failed_rec_status)
qed

lemma reach_again: "idem_reachable any_request failing 60 post_again"
proof -
  let ?s = "post_failed"
  let ?t = "?s\<lparr>is_entries := Map.empty(post_key \<mapsto> 1),
      is_heap := is_heap ?s @ [new_entry post_fp post_key post 0 (is_clock ?s)],
      is_procs := (is_procs ?s)(0 \<mapsto> Leading 1 post post_key 0)\<rparr>"
  have "idem_step any_request failing 60 ?s ?t"
    by (rule idem_step.lead [OF post_bypassed post_admit])
      (auto simp: post_failed_def idem_start_def pruneExpiredLocked_def idem_decide_def)
  from idem_reachable_step [OF reach_failed this] have t: "idem_reachable any_request failing 60 ?t" .
  have "is_procs ?t 0 = Some (Leading 1 post post_key 0)" by simp
  from idem_step.run [OF this, of failing "[WriteHeader 500]" "()" any_request 60]
  have "idem_step any_request failing 60 ?t post_again"
    by (simp add: post_again_def post_failed_def idem_start_def failing_def failed_rec_def post_entry_def)
  from idem_reachable_step [OF t this] show ?thesis .
qed

lemma idempotent_request_runs_once_witness:
  "bw_status failed_rec \<ge> 500 \<or>
   te_now (is_heap post_again ! 0) + 60 \<le> te_clock (is_heap post_again ! 1)"
proof -
  have "0 < (1 :: nat) \<and> (bw_status failed_rec \<ge> 500 \<or>
      te_now (is_heap post_again ! 0) + 60 \<le> te_clock (is_heap post_again ! 1)) \<or>
    (1 :: nat) < 0 \<and> (bw_status failed_rec \<ge> 500 \<or>
      te_now (is_heap post_again ! 1) + 60 \<le> te_clock (is_heap post_again ! 0))"
    by (rule idempotent_request_runs_once [OF reach_again, where i = 0 and j = 1])
      (simp_all add: post_again_def post_entry_def)
  then show ?thesis by simp
qed

section \<open>Replaying the answer\<close>

text \<open>
  Every answer given from the store is the answer of the one execution for its entry. The request
  answered has the same method, path, user and body, up to a SHA-256 collision, as the one executed, and
  the client receives the status, headers and body the handler wrote, with at most the header
  Idempotency-Replayed added.
\<close>

lemma answers_replay_the_execution:
  assumes "idem_reachable arr nxt ttl s" and "(r, a, ops) \<in> set (is_replies s)"
  shows "\<exists>rec b. (a, rec) \<in> set (is_execs s) \<and> rec = buffered (fst (nxt (te_request (is_heap s ! a)) b)) \<and>
    requestFingerprint r (rq_Body r) =
      requestFingerprint (te_request (is_heap s ! a)) (rq_Body (te_request (is_heap s ! a))) \<and>
    served ops = \<lparr>rs_status = bw_status rec,
      rs_header = (if ops = own_reply rec then bw_header rec
                   else header_Set (bw_header rec) ''Idempotency-Replayed'' ''true''),
      rs_body = bw_body rec\<rparr>"
proof -
  have inv: "idem_inv ttl s" using assms(1) by (rule idem_reachable_inv)
  obtain rec where rec: "(a, rec) \<in> set (is_execs s)" "fp_of r = fp_of (te_request (is_heap s ! a))"
    "ops = own_reply rec \<or> ops = replay_of rec"
    using inv assms(2) unfolding idem_inv_def replies_ok_def by blast
  obtain b where b: "rec = buffered (fst (nxt (te_request (is_heap s ! a)) b))"
    using reachable_execs_ran [OF assms(1)] rec(1) unfolding execs_ran_def by blast
  have wf: "copyHeader h (bw_header rec) = bw_header rec" for h
    by (rule copyHeader_wf) (simp add: b buffered_header_wf)
  have body: "fold sw_apply (map Write ps) w = w\<lparr>sw_body := sw_body w @ ps\<rparr>"
    if "sw_sent w \<noteq> None" for ps w
    using that by (induction ps arbitrary: w) (auto simp: sw_WriteHeader_def Let_def split: option.splits)
  have own: "served (own_reply rec) =
      \<lparr>rs_status = bw_status rec, rs_header = bw_header rec, rs_body = bw_body rec\<rparr>"
    by (simp add: served_def own_reply_def sw_WriteHeader_def wf body Let_def)
  have rep: "served (replay_of rec) = \<lparr>rs_status = bw_status rec,
      rs_header = header_Set (bw_header rec) ''Idempotency-Replayed'' ''true'', rs_body = bw_body rec\<rparr>"
    by (simp add: served_def replay_of_def sw_WriteHeader_def wf body Let_def)
  have ne: "replay_of rec \<noteq> own_reply rec" by (simp add: replay_of_def own_reply_def)
  from rec(3) have "served ops = \<lparr>rs_status = bw_status rec,
      rs_header = (if ops = own_reply rec then bw_header rec
                   else header_Set (bw_header rec) ''Idempotency-Replayed'' ''true''),
      rs_body = bw_body rec\<rparr>"
  proof
    assume "ops = own_reply rec"
    with own show ?thesis by simp
  next
    assume "ops = replay_of rec"
    with rep ne show ?thesis by simp
  qed
  with rec(1,2) b show ?thesis by blast
qed

lemma answers_replay_the_execution_example:
  "\<exists>rec. (0, rec) \<in> set (is_execs post_failed) \<and> rs_status (served (own_reply failed_rec)) = bw_status rec"
proof -
  have "(post, 0, own_reply failed_rec) \<in> set (is_replies post_failed)" by (simp add: post_failed_def)
  from answers_replay_the_execution [OF reach_failed this] show ?thesis by fastforce
qed

section \<open>A panicking handler\<close>

definition orphan :: "'s idem_state \<Rightarrow> nat \<Rightarrow> string \<Rightarrow> bool" where
  "orphan s a key \<longleftrightarrow>
     a < length (is_heap s) \<and> \<not> ie_ready (is_heap s ! a) \<and> te_key (is_heap s ! a) = key \<and>
     a \<notin> fst ` set (is_execs s) \<and> (\<forall>p x. is_procs s p = Some x \<longrightarrow> owned x \<noteq> Some a)"

lemma orphan_step:
  "idem_step arr nxt ttl s s' \<Longrightarrow> idem_inv ttl s \<Longrightarrow> orphan s a key \<Longrightarrow> orphan s' a key"
proof (induction rule: idem_step.induct)
  case (wait r r' fp k now s entries b p)
  then show ?case by (auto simp: orphan_def)
next
  case (lead r r' fp k now s entries p b)
  then show ?case by (auto simp: orphan_def nth_append)
next
  case (run s p b r k now ops t)
  then have "b \<noteq> a" by (metis orphan_def owned.simps(1))
  with run show ?case by (auto simp: orphan_def)
next
  case (panic s p b r k now t)
  then show ?case by (auto simp: orphan_def)
next
  case (commit s p b r k now rec)
  then have "b \<noteq> a" by (metis orphan_def owned.simps(2))
  with commit show ?case by (auto simp: orphan_def nth_list_update)
next
  case (replay s p b r)
  then show ?case by (auto simp: orphan_def)
qed (simp_all add: orphan_def)



end
