(* ===== verification/Redis.thy ===== *)
theory Redis
  imports GoEncoding
begin

text \<open>
  The Redis commands the server issues, as a parameter: a record of functions on the server's state, and the
  documented behaviour of the commands as the locale redis_server. Times are the Redis clock in
  milliseconds; a command of a script runs at the script's time, and a script runs atomically.
\<close>

section \<open>Commands\<close>

record 'r redis =
  rd_GET :: "int \<Rightarrow> string \<Rightarrow> 'r \<Rightarrow> (string, string option) result"
  rd_EXISTS :: "int \<Rightarrow> string \<Rightarrow> 'r \<Rightarrow> int"
  rd_PTTL :: "int \<Rightarrow> string \<Rightarrow> 'r \<Rightarrow> int"
  rd_SET :: "int \<Rightarrow> string \<Rightarrow> string \<Rightarrow> int option \<Rightarrow> 'r \<Rightarrow> 'r"
  rd_SETNX :: "int \<Rightarrow> string \<Rightarrow> string \<Rightarrow> int \<Rightarrow> 'r \<Rightarrow> bool \<times> 'r"
  rd_DEL :: "int \<Rightarrow> string \<Rightarrow> 'r \<Rightarrow> int \<times> 'r"
  rd_INCR :: "int \<Rightarrow> string \<Rightarrow> 'r \<Rightarrow> (string, int, 'r) outcome"
  rd_PEXPIRE :: "int \<Rightarrow> string \<Rightarrow> int \<Rightarrow> 'r \<Rightarrow> 'r"

text \<open>
  Every exchange with the server can fail in two ways: the request is lost, or it takes effect and the reply
  is lost.
\<close>

datatype fault = NoFault | LostRequest string | LostReply string

definition exchange :: "fault \<Rightarrow> ('r \<Rightarrow> (string, 'a, 'r) outcome) \<Rightarrow> 'r \<Rightarrow> (string, 'a, 'r) outcome" where
  "exchange f cmd r =
     (case f of
        NoFault \<Rightarrow> cmd r
      | LostRequest e \<Rightarrow> (Inl e, r)
      | LostReply e \<Rightarrow> (Inl e, snd (cmd r)))"

lemma exchange_cases:
  "exchange f cmd r = (q, r') \<Longrightarrow>
   cmd r = (q, r') \<or> (\<exists>e. q = Inl e) \<and> (r' = r \<or> r' = snd (cmd r))"
  by (auto simp: exchange_def split: fault.splits)

section \<open>Documented behaviour\<close>

text \<open>
  A keyspace maps a key to its value and its deadline, if it has one. A key is gone once its deadline has
  passed and still there before; at the deadline itself nothing is promised.
\<close>

type_synonym keyspace = "string \<rightharpoonup> string \<times> int option"

locale redis_server =
  fixes rd :: "'r redis"
    and view :: "'r \<Rightarrow> int \<Rightarrow> keyspace"
  assumes expiry: "view r t k = Some (v, Some d) \<Longrightarrow> t \<le> d"
    and stays: "view r t k = Some (v, dl) \<Longrightarrow> t \<le> t' \<Longrightarrow> (\<And>e. dl = Some e \<Longrightarrow> t' < e) \<Longrightarrow>
      view r t' k = Some (v, dl)"
    and no_revival: "view r t k = None \<Longrightarrow> t \<le> t' \<Longrightarrow> view r t' k = None"
    and later: "view r t' k = Some (v, dl) \<Longrightarrow> t \<le> t' \<Longrightarrow> view r t k = Some (v, dl)"
    and GET: "rd_GET rd t k r = Inr (map_option fst (view r t k))"
    and EXISTS: "rd_EXISTS rd t k r = (if view r t k = None then 0 else 1)"
    and PTTL: "view r t k = Some (v, Some d) \<Longrightarrow> rd_PTTL rd t k r = d - t"
    and SET: "(\<And>m. px = Some m \<Longrightarrow> 0 < m) \<Longrightarrow> view (rd_SET rd t k v px r) t =
      (view r t)(k \<mapsto> (v, map_option (\<lambda>m. t + m) px))"
    and SETNX_free: "0 < ms \<Longrightarrow> view r t k = None \<Longrightarrow>
      fst (rd_SETNX rd t k v ms r) \<and> view (snd (rd_SETNX rd t k v ms r)) t = (view r t)(k \<mapsto> (v, Some (t + ms)))"
    and SETNX_taken: "view r t k \<noteq> None \<Longrightarrow>
      \<not> fst (rd_SETNX rd t k v ms r) \<and> view (snd (rd_SETNX rd t k v ms r)) t = view r t"
    and DEL: "view (snd (rd_DEL rd t k r)) t = (view r t)(k := None)"
    and INCR_new: "view r t k = None \<Longrightarrow>
      fst (rd_INCR rd t k r) = Inr 1 \<and> view (snd (rd_INCR rd t k r)) t = (view r t)(k \<mapsto> (''1'', None))"
    and INCR_old: "view r t k = Some (FormatInt n, dl) \<Longrightarrow> - (2 ^ 63) \<le> n \<Longrightarrow> n < 2 ^ 63 - 1 \<Longrightarrow>
      fst (rd_INCR rd t k r) = Inr (n + 1) \<and>
      view (snd (rd_INCR rd t k r)) t = (view r t)(k \<mapsto> (FormatInt (n + 1), dl))"
    and PEXPIRE: "0 < ms \<Longrightarrow> view r t k = Some (v, dl) \<Longrightarrow>
      view (rd_PEXPIRE rd t k ms r) t = (view r t)(k \<mapsto> (v, Some (t + ms)))"

section \<open>A keyspace server\<close>

text \<open>
  The plainest server that behaves as documented: it keeps every key with its deadline and forgets none; a key
  whose deadline has come is not seen.
\<close>

definition ks_view :: "keyspace \<Rightarrow> int \<Rightarrow> keyspace" where
  "ks_view K t =
     (\<lambda>k. case K k of
        None \<Rightarrow> None
      | Some (v, None) \<Rightarrow> Some (v, None)
      | Some (v, Some d) \<Rightarrow> if t < d then Some (v, Some d) else None)"

definition ks_redis :: "keyspace redis" where
  "ks_redis =
     \<lparr>rd_GET = (\<lambda>t k K. Inr (map_option fst (ks_view K t k))),
      rd_EXISTS = (\<lambda>t k K. if ks_view K t k = None then 0 else 1),
      rd_PTTL = (\<lambda>t k K. case ks_view K t k of
         None \<Rightarrow> - 2 | Some (_, None) \<Rightarrow> - 1 | Some (_, Some d) \<Rightarrow> d - t),
      rd_SET = (\<lambda>t k v ms K. K(k \<mapsto> (v, map_option (\<lambda>m. t + m) ms))),
      rd_SETNX = (\<lambda>t k v ms K.
         if ks_view K t k = None then (True, K(k \<mapsto> (v, Some (t + ms)))) else (False, K)),
      rd_DEL = (\<lambda>t k K. (if ks_view K t k = None then 0 else 1, K(k := None))),
      rd_INCR = (\<lambda>t k K. case ks_view K t k of
         None \<Rightarrow> (Inr 1, K(k \<mapsto> (''1'', None)))
       | Some (v, d) \<Rightarrow> (case ParseInt v of
            None \<Rightarrow> (Inl ''ERR value is not an integer or out of range'', K)
          | Some n \<Rightarrow> (Inr (n + 1), K(k \<mapsto> (FormatInt (n + 1), d))))),
      rd_PEXPIRE = (\<lambda>t k ms K. case ks_view K t k of
         None \<Rightarrow> K | Some (v, d) \<Rightarrow> K(k \<mapsto> (v, Some (t + ms))))\<rparr>"

lemma ks_view_upd:
  "ks_view (K(k \<mapsto> (v, dl))) t =
     (ks_view K t)(k := (case dl of None \<Rightarrow> Some (v, None) | Some d \<Rightarrow> if t < d then Some (v, Some d) else None))"
  by (auto simp: ks_view_def fun_eq_iff split: option.splits)

lemma ks_view_del: "ks_view (K(k := None)) t = (ks_view K t)(k := None)"
  by (auto simp: ks_view_def fun_eq_iff)

lemma ks_view_Some:
  "ks_view K t k = Some (v, dl) \<longleftrightarrow> K k = Some (v, dl) \<and> (\<forall>d. dl = Some d \<longrightarrow> t < d)"
  by (auto simp: ks_view_def split: option.splits if_splits)

lemma ks_view_None:
  "ks_view K t k = None \<longleftrightarrow> K k = None \<or> (\<exists>v d. K k = Some (v, Some d) \<and> d \<le> t)"
  by (auto simp: ks_view_def split: option.splits if_splits)

interpretation ks: redis_server ks_redis ks_view
proof unfold_locales
  fix r t k n dl
  assume v: "ks_view r t k = Some (FormatInt n, dl)" and n: "- (2 ^ 63) \<le> n" "n < 2 ^ 63 - 1"
  have "ParseInt (FormatInt n) = Some n" using n by (intro ParseInt_FormatInt) (simp add: int64_def)
  with v have i: "rd_INCR ks_redis t k r = (Inr (n + 1), r(k \<mapsto> (FormatInt (n + 1), dl)))"
    by (simp add: ks_redis_def)
  with v show "fst (rd_INCR ks_redis t k r) = Inr (n + 1) \<and>
      ks_view (snd (rd_INCR ks_redis t k r)) t = (ks_view r t)(k \<mapsto> (FormatInt (n + 1), dl))"
    by (auto simp: ks_view_upd ks_view_Some split: option.splits)
qed (auto simp: ks_redis_def ks_view_upd ks_view_del ks_view_Some ks_view_None split: option.splits)

end
