(* ===== verification/RateLimit.thy ===== *)
theory RateLimit
  imports Redis
begin

text \<open>
  The fixed-window rate limiters of \<^verbatim>\<open>ratelimit/limiter.go\<close>, the contract they share as the locale
  fixed_window_limiter, and the in-memory presence-like expiry of their windows.
\<close>

section \<open>Decisions\<close>

record Decision =
  dc_Allowed :: bool
  dc_Limit :: int
  dc_Remaining :: int
  dc_ResetAfter :: duration

text \<open>What both limiters answer for a count, a limit and the time until the window ends.\<close>

definition decide :: "int \<Rightarrow> int \<Rightarrow> duration \<Rightarrow> Decision" where
  "decide n limit resetAfter =
     (let remaining = wrap64 (limit - n) in
      \<lparr>dc_Allowed = (n \<le> limit), dc_Limit = limit,
       dc_Remaining = (if remaining < 0 then 0 else remaining), dc_ResetAfter = resetAfter\<rparr>)"

section \<open>The in-memory limiter\<close>

record memoryWindow =
  mw_count :: int
  mw_expiresAt :: instant

type_synonym memory_windows = "string \<rightharpoonup> memoryWindow"

definition NewMemoryLimiter :: memory_windows where
  "NewMemoryLimiter = Map.empty"

text \<open>The clock is read on entry and again for ResetAfter.\<close>

definition ml_Allow ::
  "instant \<Rightarrow> instant \<Rightarrow> string \<Rightarrow> int \<Rightarrow> duration \<Rightarrow> memory_windows \<Rightarrow>
   (string, Decision, memory_windows) outcome" where
  "ml_Allow until now key limit window W =
     (let fresh = \<lparr>mw_count = 0, mw_expiresAt = now + window\<rparr>;
          entry = (case W key of
                     None \<Rightarrow> fresh
                   | Some e \<Rightarrow> if \<not> now < mw_expiresAt e then fresh else e);
          entry = entry\<lparr>mw_count := wrap64 (mw_count entry + 1)\<rparr>
      in (Inr (decide (mw_count entry) limit (mw_expiresAt entry - until)), W(key \<mapsto> entry)))"

section \<open>The Redis limiter\<close>

definition redis_limit_prefix :: string where "redis_limit_prefix = ''pixelgo:ratelimit:''"

text \<open>fixedWindowScript: count the call, start the window with its first call, read what is left of it.\<close>

definition fixedWindowScript ::
  "'r redis \<Rightarrow> int \<Rightarrow> string \<Rightarrow> int \<Rightarrow> 'r \<Rightarrow> (string, int \<times> int, 'r) outcome" where
  "fixedWindowScript rd t key ms r =
     (case rd_INCR rd t key r of
        (Inl e, r1) \<Rightarrow> (Inl e, r1)
      | (Inr n, r1) \<Rightarrow>
          let r2 = (if n = 1 then rd_PEXPIRE rd t key ms r1 else r1)
          in (Inr (n, rd_PTTL rd t key r2), r2))"

definition rl_Allow ::
  "'r redis \<Rightarrow> fault \<Rightarrow> int \<Rightarrow> string \<Rightarrow> int \<Rightarrow> duration \<Rightarrow> 'r \<Rightarrow> (string, Decision, 'r) outcome" where
  "rl_Allow rd f t key limit window r =
     (case exchange f (fixedWindowScript rd t (redis_limit_prefix @ key) (window div 1000000)) r of
        (Inl e, r') \<Rightarrow> (Inl e, r')
      | (Inr (n, ttl), r') \<Rightarrow> (Inr (decide n limit (ttl * 1000000)), r'))"

section \<open>The limiter contract\<close>

text \<open>
  A limiter keeps, for each key, the count and the end of the window that is open at a time. A call counts
  in the open window, or opens one of the given length; it may fail, before or after it counted.
\<close>

definition open_window :: "(int \<times> int) option \<Rightarrow> int \<Rightarrow> int \<Rightarrow> int \<times> int" where
  "open_window w t len = (case w of None \<Rightarrow> (0, t + len) | Some ce \<Rightarrow> ce)"

locale fixed_window_limiter =
  fixes allow :: "'x \<Rightarrow> int \<Rightarrow> string \<Rightarrow> int \<Rightarrow> int \<Rightarrow> 's \<Rightarrow> (string, Decision, 's) outcome"
    and window :: "'s \<Rightarrow> int \<Rightarrow> string \<Rightarrow> (int \<times> int) option"
    and invar :: "'s \<Rightarrow> int \<Rightarrow> bool"
  assumes invar_later: "invar s t \<Longrightarrow> t \<le> t' \<Longrightarrow> invar s t'"
    and window_nonneg: "invar s t \<Longrightarrow> window s t k = Some (c, e) \<Longrightarrow> 0 \<le> c"
    and window_closed: "invar s t \<Longrightarrow> window s t k = None \<Longrightarrow> t \<le> t' \<Longrightarrow> window s t' k = None"
    and window_open: "invar s t \<Longrightarrow> window s t k = Some (c, e) \<Longrightarrow> t \<le> t' \<Longrightarrow>
      window s t' k = Some (c, e) \<or> window s t' k = None \<and> e \<le> t'"
    and allow_step: "invar s t \<Longrightarrow> allow x t k limit len s = (q, s') \<Longrightarrow> 0 < len \<Longrightarrow>
      open_window (window s t k) t len = (c, e) \<Longrightarrow> c < 2 ^ 63 - 1 \<Longrightarrow>
      invar s' t \<and>
      (window s' t = window s t \<and> (\<exists>err. q = Inl err) \<or>
       window s' t = (window s t)(k \<mapsto> (c + 1, e)) \<and>
       ((\<exists>err. q = Inl err) \<or> (\<exists>reset. q = Inr (decide (c + 1) limit reset))))"

text \<open>Runs of calls: the extra argument of a call, its time, key, limit and window length.\<close>

fun limiter_run ::
  "('x \<Rightarrow> int \<Rightarrow> string \<Rightarrow> int \<Rightarrow> int \<Rightarrow> 's \<Rightarrow> (string, Decision, 's) outcome) \<Rightarrow>
   ('x \<times> int \<times> string \<times> int \<times> int) list \<Rightarrow> 's \<Rightarrow> (string, Decision) result list" where
  "limiter_run allow [] s = []"
| "limiter_run allow ((x, t, k, limit, len) # calls) s =
     (let (q, s') = allow x t k limit len s in q # limiter_run allow calls s')"

definition granted :: "(string, Decision) result \<Rightarrow> bool" where
  "granted q \<longleftrightarrow> (case q of Inl _ \<Rightarrow> False | Inr d \<Rightarrow> dc_Allowed d)"

text \<open>How many calls of a run for one key were allowed.\<close>

fun grants :: "string \<Rightarrow> ('x \<times> int \<times> string \<times> int \<times> int) list \<Rightarrow> (string, Decision) result list \<Rightarrow> int" where
  "grants k ((x, t, k', limit, len) # calls) (q # qs) =
     (if k' = k \<and> granted q then 1 else 0) + grants k calls qs"
| "grants k _ _ = 0"

fun call_time :: "('x \<times> int \<times> string \<times> int \<times> int) \<Rightarrow> int" where
  "call_time (x, t, k, limit, len) = t"

fun call_conforms :: "string \<Rightarrow> int \<Rightarrow> int \<Rightarrow> ('x \<times> int \<times> string \<times> int \<times> int) \<Rightarrow> bool" where
  "call_conforms k L w (x, t, k', limit, len) \<longleftrightarrow> 0 < len \<and> (k' = k \<longrightarrow> limit = L \<and> len = w)"

lemma decide_simps [simp]:
  "dc_Allowed (decide c l r) = (c \<le> l)" "dc_Limit (decide c l r) = l"
  by (simp_all add: decide_def Let_def)

context fixed_window_limiter begin

text \<open>
  How many more calls a key may be granted before the time B, if every window opened from now on ends at B
  or later.
\<close>

definition room :: "'s \<Rightarrow> int \<Rightarrow> string \<Rightarrow> int \<Rightarrow> int \<Rightarrow> int" where
  "room s t k L B =
     (case window s t k of
        None \<Rightarrow> L
      | Some (c, e) \<Rightarrow> max 0 (L - c) + (if B \<le> e then 0 else L))"

lemma room_later:
  assumes "invar s t" and "t \<le> t'" and "t' < B" and "0 \<le> L"
  shows "room s t' k L B \<le> room s t k L B"
proof (cases "window s t k")
  case None
  with window_closed [OF assms(1) None assms(2)] show ?thesis by (simp add: room_def)
next
  case (Some ce)
  obtain c e where ce: "ce = (c, e)" by (cases ce)
  from window_open [OF assms(1) _ assms(2), of k c e] Some ce
  consider "window s t' k = Some (c, e)" | "window s t' k = None" "e \<le> t'" by auto
  then show ?thesis
    by cases (use Some ce assms(3,4) in \<open>auto simp: room_def\<close>)
qed

lemma room_step:
  assumes "invar s t" and "allow x t k' limit len s = (q, s')" and "0 < len" and "0 \<le> L"
    and "k' = k \<longrightarrow> limit = L \<and> B \<le> t + len"
    and "\<And>c e. window s t k' = Some (c, e) \<Longrightarrow> c < 2 ^ 63 - 1"
  shows "(if k' = k \<and> granted q then 1 else 0) + room s' t k L B \<le> room s t k L B"
proof -
  obtain c e where ce: "open_window (window s t k') t len = (c, e)" by (meson surj_pair)
  have c: "c < 2 ^ 63 - 1" using ce assms(6) by (auto simp: open_window_def split: option.splits)
  from allow_step [OF assms(1-3) ce c]
  consider "window s' t = window s t" "\<exists>err. q = Inl err"
    | "window s' t = (window s t)(k' \<mapsto> (c + 1, e))"
      "(\<exists>err. q = Inl err) \<or> (\<exists>reset. q = Inr (decide (c + 1) limit reset))" by blast
  then show ?thesis
  proof cases
    case 1
    then show ?thesis by (auto simp: room_def granted_def)
  next
    case 2
    have g: "granted q \<Longrightarrow> c + 1 \<le> limit" using 2(2) by (auto simp: granted_def)
    have pos: "0 \<le> c" using ce window_nonneg [OF assms(1), of k'] by (auto simp: open_window_def split: option.splits)
    show ?thesis
    proof (cases "k' = k")
      case False
      with 2(1) show ?thesis by (simp add: room_def)
    next
      case True
      with assms(5) have L: "limit = L" "B \<le> t + len" by simp_all
      show ?thesis
      proof (cases "window s t k")
        case None
        with ce True have "c = 0" "e = t + len" by (simp_all add: open_window_def)
        with None True 2(1) g L assms(4) show ?thesis by (auto simp: room_def)
      next
        case (Some w)
        with ce True have "w = (c, e)" by (simp add: open_window_def)
        with Some True 2(1) g L assms(4) show ?thesis by (auto simp: room_def)
      qed
    qed
  qed
qed

lemma counts_step:
  assumes "invar s t" and "allow x t k limit len s = (q, s')" and "0 < len"
    and "\<And>k c e. window s t k = Some (c, e) \<Longrightarrow> c + int (Suc n) < 2 ^ 63" and "int (Suc n) < 2 ^ 63"
  shows "invar s' t" and "window s' t k' = Some (c', e') \<Longrightarrow> c' + int n < 2 ^ 63"
proof -
  obtain c e where ce: "open_window (window s t k) t len = (c, e)" by (meson surj_pair)
  have c: "c + int (Suc n) < 2 ^ 63"
    using ce assms(4) [of k] assms(5) by (auto simp: open_window_def split: option.splits)
  then have "c < 2 ^ 63 - 1" by simp
  note st = allow_step [OF assms(1-3) ce this]
  from st show "invar s' t" by blast
  show "c' + int n < 2 ^ 63" if "window s' t k' = Some (c', e')"
  proof -
    from st that have "window s t k' = Some (c', e') \<or> c' = c + 1" by (auto split: if_splits)
    with assms(4) [of k' c' e'] c show ?thesis by auto
  qed
qed

text \<open>Within less than a window's length a key is granted at most twice its limit.\<close>

lemma grants_bound:
  assumes "invar s t0" and "0 \<le> L" and "a \<le> t0" and "t0 < a + w"
    and "sorted (map call_time calls)" and "\<forall>x \<in> set calls. t0 \<le> call_time x \<and> call_time x < a + w"
    and "\<forall>x \<in> set calls. call_conforms k L w x"
    and "\<And>k c e. window s t0 k = Some (c, e) \<Longrightarrow> c + int (length calls) < 2 ^ 63"
    and "int (length calls) < 2 ^ 63"
  shows "grants k calls (limiter_run allow calls s) \<le> room s t0 k L (a + w)"
  using assms
proof (induction calls arbitrary: s t0)
  case Nil
  then show ?case
    using window_nonneg [OF Nil.prems(1)] by (auto simp: room_def split: option.splits)
next
  case (Cons call calls)
  obtain x t k' limit len where call: "call = (x, t, k', limit, len)" by (cases call) auto
  obtain q s' where st: "allow x t k' limit len s = (q, s')" by (meson surj_pair)
  have t: "t0 \<le> t" "t < a + w" "0 < len" "k' = k \<longrightarrow> limit = L \<and> len = w"
    using Cons.prems(6,7) by (simp_all add: call)
  have cnt: "c + int (Suc (length calls)) < 2 ^ 63" if "window s t kk = Some (c, e)" for kk c e
  proof -
    have "window s t0 kk = Some (c, e)"
    proof (cases "window s t0 kk")
      case None
      with window_closed [OF Cons.prems(1) None t(1)] that show ?thesis by simp
    next
      case (Some w')
      with window_open [OF Cons.prems(1) _ t(1), of kk "fst w'" "snd w'"] that show ?thesis by auto
    qed
    from Cons.prems(8) [OF this] show ?thesis by simp
  qed
  have inv: "invar s t" by (rule invar_later [OF Cons.prems(1) t(1)])
  have c1: "c < 2 ^ 63 - 1" if "window s t k' = Some (c, e)" for c e using cnt [OF that] by simp
  have B: "k' = k \<longrightarrow> limit = L \<and> a + w \<le> t + len" using t Cons.prems(3) by auto
  have s': "invar s' t" "\<And>kk c e. window s' t kk = Some (c, e) \<Longrightarrow> c + int (length calls) < 2 ^ 63"
    using counts_step [OF inv st t(3), of "length calls"] cnt Cons.prems(9) by simp_all
  have "grants k calls (limiter_run allow calls s') \<le> room s' t k L (a + w)"
  proof (rule Cons.IH [OF s'(1) Cons.prems(2) _ t(2) _ _ _ s'(2)])
    show "a \<le> t" using t Cons.prems(3) by simp
    show "sorted (map call_time calls)" using Cons.prems(5) by simp
    show "\<forall>x\<in>set calls. t \<le> call_time x \<and> call_time x < a + w"
      using Cons.prems(5,6) by (simp add: call)
    show "\<forall>x\<in>set calls. call_conforms k L w x" using Cons.prems(7) by simp
  qed (use Cons.prems(9) in simp_all)
  moreover have "(if k' = k \<and> granted q then 1 else 0) + room s' t k L (a + w) \<le> room s t k L (a + w)"
    by (rule room_step [OF inv st t(3) Cons.prems(2) B c1])
  moreover have "room s t k L (a + w) \<le> room s t0 k L (a + w)"
    by (rule room_later [OF Cons.prems(1) t(1,2) Cons.prems(2)])
  ultimately show ?case using st by (simp add: call)
qed

lemma grants_twice_limit:
  assumes "invar s a" and "0 \<le> L" and "0 < w"
    and "sorted (map call_time calls)" and "\<forall>x \<in> set calls. a \<le> call_time x \<and> call_time x < a + w"
    and "\<forall>x \<in> set calls. call_conforms k L w x"
    and "\<And>k c e. window s a k = Some (c, e) \<Longrightarrow> c + int (length calls) < 2 ^ 63"
    and "int (length calls) < 2 ^ 63"
  shows "grants k calls (limiter_run allow calls s) \<le> 2 * L"
proof -
  have "grants k calls (limiter_run allow calls s) \<le> room s a k L (a + w)"
    by (rule grants_bound) (use assms in auto)
  also have "\<dots> \<le> 2 * L"
    using window_nonneg [OF assms(1), of k] assms(2) by (auto simp: room_def split: option.splits)
  finally show ?thesis .
qed

end

end
