(* ===== verification/RateLimitProps.thy ===== *)
theory RateLimitProps
  imports RateLimit
begin

text \<open>
  Both limiters satisfy the contract, the in-memory one on its map and the Redis one over any server that
  behaves as documented, and the bounds that follow.
\<close>

section \<open>The in-memory limiter\<close>

definition ml_window :: "memory_windows \<Rightarrow> instant \<Rightarrow> string \<Rightarrow> (int \<times> int) option" where
  "ml_window W t k =
     (case W k of
        None \<Rightarrow> None
      | Some e \<Rightarrow> if t < mw_expiresAt e then Some (mw_count e, mw_expiresAt e) else None)"

definition ml_invar :: "memory_windows \<Rightarrow> instant \<Rightarrow> bool" where
  "ml_invar W t \<longleftrightarrow> (\<forall>k e. W k = Some e \<longrightarrow> 0 \<le> mw_count e)"

lemma ml_Allow_step:
  assumes "ml_Allow u t k limit len W = (q, W')" and "0 < len"
    and "open_window (ml_window W t k) t len = (c, e)" and "0 \<le> c" and "c < 2 ^ 63 - 1"
  shows "q = Inr (decide (c + 1) limit (e - u))" and "W' = W(k \<mapsto> \<lparr>mw_count = c + 1, mw_expiresAt = e\<rparr>)"
proof -
  have "wrap64 (c + 1) = c + 1" using assms(4,5) by (simp add: int64_def)
  then show "q = Inr (decide (c + 1) limit (e - u))" and "W' = W(k \<mapsto> \<lparr>mw_count = c + 1, mw_expiresAt = e\<rparr>)"
    using assms(1,3)
    by (auto simp: ml_Allow_def ml_window_def open_window_def Let_def split: option.splits if_splits)
qed

interpretation mlim: fixed_window_limiter ml_Allow ml_window ml_invar
proof unfold_locales
  fix W t x k limit len q W' c e
  assume inv: "ml_invar W t" and a: "ml_Allow x t k limit len W = (q, W')" "0 < len"
    "open_window (ml_window W t k) t len = (c, e)" "c < 2 ^ 63 - 1"
  have c: "0 \<le> c" and e: "t < e"
    using inv a(2,3) by (auto simp: open_window_def ml_window_def ml_invar_def split: option.splits if_splits)
  note st = ml_Allow_step [OF a(1-3) c a(4)]
  have "ml_window W' t = (ml_window W t)(k \<mapsto> (c + 1, e))"
    using e by (auto simp: st(2) ml_window_def fun_eq_iff)
  moreover have "ml_invar W' t" using inv c by (simp add: st(2) ml_invar_def)
  ultimately show "ml_invar W' t \<and>
      (ml_window W' t = ml_window W t \<and> (\<exists>err. q = Inl err) \<or>
       ml_window W' t = (ml_window W t)(k \<mapsto> (c + 1, e)) \<and>
       ((\<exists>err. q = Inl err) \<or> (\<exists>reset. q = Inr (decide (c + 1) limit reset))))"
    using st(1) by blast
qed (auto simp: ml_window_def ml_invar_def split: option.splits if_splits)

text \<open>
  C35: the in-memory limiter never lets a key far beyond its limit. Of the calls for one key made within any
  span shorter than the window, whatever other keys do in between, at most twice the limit are allowed,
  from any state the limiter can be in (the counts being far from the 64-bit bound).
\<close>

theorem memory_limiter_bounds_rate:
  assumes "ml_invar W a" and "0 \<le> limit" and "0 < window"
    and "sorted (map call_time calls)"
    and "\<forall>x \<in> set calls. a \<le> call_time x \<and> call_time x < a + window"
    and "\<forall>x \<in> set calls. call_conforms k limit window x"
    and "\<And>k c e. ml_window W a k = Some (c, e) \<Longrightarrow> c + int (length calls) < 2 ^ 63"
    and "int (length calls) < 2 ^ 63"
  shows "grants k calls (limiter_run ml_Allow calls W) \<le> 2 * limit"
  by (rule mlim.grants_twice_limit [OF assms])

lemma memory_limiter_bounds_rate_witness:
  "grants ''k'' [(0 :: int, 0, ''k'', 1, 60), (0, 30, ''k'', 1, 60), (0, 40, ''j'', 5, 60)]
     (limiter_run ml_Allow [(0, 0, ''k'', 1, 60), (0, 30, ''k'', 1, 60), (0, 40, ''j'', 5, 60)]
        NewMemoryLimiter) \<le> 2 * 1"
  using memory_limiter_bounds_rate [of NewMemoryLimiter 0 1 60
      "[(0, 0, ''k'', 1, 60), (0, 30, ''k'', 1, 60), (0, 40, ''j'', 5, 60)]" "''k''"]
  by (simp add: ml_invar_def ml_window_def NewMemoryLimiter_def)

text \<open>The calls of one key within one window.\<close>

fun window_calls :: "string \<Rightarrow> int \<Rightarrow> duration \<Rightarrow> (instant \<times> instant) list \<Rightarrow>
  (instant \<times> int \<times> string \<times> int \<times> int) list" where
  "window_calls k limit len ts = map (\<lambda>(u, t). (u, t, k, limit, len)) ts"

lemma ml_run_open:
  assumes "W k = Some \<lparr>mw_count = c, mw_expiresAt = e\<rparr>" and "0 \<le> c" and "0 < len"
    and "\<forall>(u, t) \<in> set ts. t < e" and "c + int (length ts) < 2 ^ 63"
  shows "limiter_run ml_Allow (window_calls k limit len ts) W =
    map (\<lambda>(i, u, t). Inr (decide (c + int i + 1) limit (e - u))) (enumerate 0 ts)"
  using assms
proof (induction ts arbitrary: W c)
  case Nil
  then show ?case by simp
next
  case (Cons ut ts)
  obtain u t where ut: "ut = (u, t)" by (cases ut)
  let ?W = "W(k \<mapsto> \<lparr>mw_count = c + 1, mw_expiresAt = e\<rparr>)"
  have "open_window (ml_window W t k) t len = (c, e)"
    using Cons.prems(1,4) by (simp add: ml_window_def open_window_def ut)
  then have ow: "open_window (ml_window W t k) t len = (c, e)" .
  obtain q W' where call: "ml_Allow u t k limit len W = (q, W')" by (meson surj_pair)
  have "c < 2 ^ 63 - 1" using Cons.prems(5) by simp
  from ml_Allow_step [OF call Cons.prems(3) ow Cons.prems(2) this] call
  have st: "ml_Allow u t k limit len W = (Inr (decide (c + 1) limit (e - u)), ?W)" by simp
  have IH: "limiter_run ml_Allow (window_calls k limit len ts) ?W =
      map (\<lambda>(i, u, t). Inr (decide (c + 1 + int i + 1) limit (e - u))) (enumerate 0 ts)"
    by (rule Cons.IH) (use Cons.prems in auto)
  show ?case using st IH
    by (simp add: ut enumerate_Suc_eq o_def case_prod_unfold algebra_simps)
qed

text \<open>
  The decisions of one window, exactly. If no window is open for a key, then of the calls made before
  the window the first of them opens has ended, the first limit ones are allowed and the others are not;
  each decision carries the limit, what remains of it, and the time until the window ends.
\<close>

lemma memory_limiter_window_decisions:
  assumes "ml_window W t k = None" and "0 < window" and "ts = (u, t) # ts'"
    and "\<forall>(u, t') \<in> set ts'. t' < t + window" and "int (length ts) < 2 ^ 63" and "i < length ts"
    and "0 \<le> limit" and "limit < 2 ^ 63"
  shows "limiter_run ml_Allow (window_calls k limit window ts) W ! i =
    Inr \<lparr>dc_Allowed = (int i < limit), dc_Limit = limit,
         dc_Remaining = max 0 (limit - (int i + 1)), dc_ResetAfter = t + window - fst (ts ! i)\<rparr>"
proof -
  let ?W = "W(k \<mapsto> \<lparr>mw_count = 1, mw_expiresAt = t + window\<rparr>)"
  have "open_window (ml_window W t k) t window = (0, t + window)" using assms(1) by (simp add: open_window_def)
  then have ow: "open_window (ml_window W t k) t window = (0, t + window)" .
  obtain q W' where first: "ml_Allow u t k limit window W = (q, W')" by (meson surj_pair)
  from ml_Allow_step [OF first assms(2) ow]
  have q: "q = Inr (decide 1 limit (t + window - u))" and W': "W' = ?W" by simp_all
  have rest: "limiter_run ml_Allow (window_calls k limit window ts') ?W =
      map (\<lambda>(i, u, t'). Inr (decide (1 + int i + 1) limit (t + window - u))) (enumerate 0 ts')"
    by (rule ml_run_open) (use assms(2-5) in auto)
  have dec: "decide (int i + 1) limit r =
      \<lparr>dc_Allowed = (int i < limit), dc_Limit = limit, dc_Remaining = max 0 (limit - (int i + 1)),
       dc_ResetAfter = r\<rparr>" for r
  proof -
    have "int64 (limit - (int i + 1))" using assms(5-8) by (simp add: int64_def)
    then show ?thesis by (auto simp: decide_def Let_def)
  qed
  show ?thesis
  proof (cases i)
    case 0
    with first q dec show ?thesis by (simp add: assms(3))
  next
    case (Suc j)
    with assms(3,6) have j: "j < length ts'" by simp
    with first W' rest Suc dec show ?thesis
      by (simp add: assms(3) nth_enumerate_eq case_prod_unfold algebra_simps)
  qed
qed

lemma memory_limiter_window_decisions_example:
  "limiter_run ml_Allow (window_calls ''k'' 1 60 [(0, 0), (30, 30)]) NewMemoryLimiter ! 1 =
    Inr \<lparr>dc_Allowed = False, dc_Limit = 1, dc_Remaining = 0, dc_ResetAfter = 30\<rparr>"
  using memory_limiter_window_decisions [of NewMemoryLimiter 0 "''k''" 60 "[(0, 0), (30, 30)]" 0
      "[(30, 30)]" 1 1]
  by (simp add: ml_window_def NewMemoryLimiter_def)

section \<open>The Redis limiter\<close>

text \<open>
  The open window of a key as Redis holds it: the counter and the deadline, in Redis milliseconds.
\<close>

definition rl_window :: "('r \<Rightarrow> int \<Rightarrow> keyspace) \<Rightarrow> 'r \<Rightarrow> int \<Rightarrow> string \<Rightarrow> (int \<times> int) option" where
  "rl_window view r t k =
     (case view r t (redis_limit_prefix @ k) of
        Some (v, Some d) \<Rightarrow> map_option (\<lambda>n. (n, d)) (ParseInt v)
      | _ \<Rightarrow> None)"

definition rl_invar :: "('r \<Rightarrow> int \<Rightarrow> keyspace) \<Rightarrow> 'r \<Rightarrow> int \<Rightarrow> bool" where
  "rl_invar view r t \<longleftrightarrow>
     (\<forall>k v dl. view r t (redis_limit_prefix @ k) = Some (v, dl) \<longrightarrow>
        (\<exists>n d. v = FormatInt n \<and> dl = Some d \<and> 1 \<le> n \<and> n < 2 ^ 63))"

lemma rl_invarD:
  assumes "rl_invar view r t" and "view r t (redis_limit_prefix @ k) = Some (v, dl)"
  obtains n d where "v = FormatInt n" "dl = Some d" "1 \<le> n" "n < 2 ^ 63" "ParseInt v = Some n"
proof -
  obtain n d where n: "v = FormatInt n" "dl = Some d" "1 \<le> n" "n < 2 ^ 63"
    using assms unfolding rl_invar_def by blast
  then have "ParseInt v = Some n" by (simp add: int64_def)
  with n that show thesis by blast
qed

lemma FormatInt_1: "FormatInt 1 = ''1''"
  by (simp add: FormatInt_def nat_digits.simps dec_digit_def char_of_def bit_simps)

context redis_server begin

text \<open>The script counts the call in the open window, or opens one.\<close>

lemma script_counts:
  assumes "rl_invar view r t" and "0 < ms" and "fixedWindowScript rd t (redis_limit_prefix @ k) ms r = (q, r')"
    and "open_window (rl_window view r t k) t ms = (c, e)" and "c < 2 ^ 63 - 1"
  shows "(\<exists>ttl. q = Inr (c + 1, ttl))"
    and "view r' t = (view r t)(redis_limit_prefix @ k \<mapsto> (FormatInt (c + 1), Some e))"
proof -
  let ?k = "redis_limit_prefix @ k"
  have "(\<exists>ttl. q = Inr (c + 1, ttl)) \<and> view r' t = (view r t)(?k \<mapsto> (FormatInt (c + 1), Some e))"
  proof (cases "view r t ?k")
    case None
    then have ce: "c = 0" "e = t + ms" using assms(4) by (simp_all add: rl_window_def open_window_def)
    obtain q1 r1 where i: "rd_INCR rd t ?k r = (q1, r1)" by (meson surj_pair)
    from INCR_new [OF None] i have r1: "q1 = Inr 1" "view r1 t = (view r t)(?k \<mapsto> (''1'', None))" by simp_all
    have "view r1 t ?k = Some (''1'', None)" by (simp add: r1)
    from PEXPIRE [OF assms(2) this] r1 assms(3) i ce show ?thesis
      by (auto simp: fixedWindowScript_def Let_def FormatInt_1)
  next
    case (Some vd)
    obtain v dl where vd: "vd = (v, dl)" by (cases vd)
    from rl_invarD [OF assms(1)] Some vd obtain n d where n: "v = FormatInt n" "dl = Some d" "1 \<le> n" "ParseInt v = Some n"
      by metis
    have ce: "c = n" "e = d" using assms(4) Some vd n by (simp_all add: rl_window_def open_window_def)
    obtain q1 r1 where i: "rd_INCR rd t ?k r = (q1, r1)" by (meson surj_pair)
    have "- (2 ^ 63) \<le> n" "n < 2 ^ 63 - 1" using n(3) ce assms(5) by simp_all
    from INCR_old [OF _ this, of r t ?k "Some d"] Some vd n i
    have r1: "q1 = Inr (n + 1)" "view r1 t = (view r t)(?k \<mapsto> (FormatInt (n + 1), Some d))" by simp_all
    with assms(3) i ce n(3) show ?thesis by (auto simp: fixedWindowScript_def Let_def)
  qed
  then show "\<exists>ttl. q = Inr (c + 1, ttl)"
    and "view r' t = (view r t)(?k \<mapsto> (FormatInt (c + 1), Some e))" by simp_all
qed

end

text \<open>Windows are given to the Redis limiter in whole milliseconds here; the contract counts in them.\<close>

sublocale redis_server \<subseteq> rlim: fixed_window_limiter
  "\<lambda>f t k limit len. rl_Allow rd f t k limit (len * 1000000)" "rl_window view" "rl_invar view"
proof unfold_locales
  fix s :: 'r and t t' :: int
  assume inv: "rl_invar view s t" and le: "t \<le> t'"
  then show "rl_invar view s t'" using later unfolding rl_invar_def by metis
next
  fix s :: 'r and t k c e
  assume "rl_invar view s t" and "rl_window view s t k = Some (c, e)"
  then show "0 \<le> c"
    by (auto simp: rl_window_def split: option.splits elim!: rl_invarD)
next
  fix s :: 'r and t t' :: int and k
  assume inv: "rl_invar view s t" and none: "rl_window view s t k = None" and le: "t \<le> t'"
  have "view s t (redis_limit_prefix @ k) = None"
  proof (cases "view s t (redis_limit_prefix @ k)")
    case (Some vd)
    obtain v dl where "vd = (v, dl)" by (cases vd)
    with Some inv none show ?thesis by (auto simp: rl_window_def elim!: rl_invarD)
  qed simp
  from no_revival [OF this le] show "rl_window view s t' k = None" by (simp add: rl_window_def)
next
  fix s :: 'r and t t' c e :: int and k
  assume inv: "rl_invar view s t" and some: "rl_window view s t k = Some (c, e)" and le: "t \<le> t'"
  obtain v where v: "view s t (redis_limit_prefix @ k) = Some (v, Some e)" "ParseInt v = Some c"
    using some by (auto simp: rl_window_def split: option.splits)
  show "rl_window view s t' k = Some (c, e) \<or> rl_window view s t' k = None \<and> e \<le> t'"
  proof (cases "t' < e")
    case True
    with stays [OF v(1) le] v(2) show ?thesis by (simp add: rl_window_def)
  next
    case False
    show ?thesis
    proof (cases "view s t' (redis_limit_prefix @ k)")
      case None
      with False show ?thesis by (simp add: rl_window_def)
    next
      case (Some vd)
      obtain v' dl where "vd = (v', dl)" by (cases vd)
      with later [of s t' "redis_limit_prefix @ k" v' dl t] Some le v show ?thesis
        by (auto simp: rl_window_def split: option.splits)
    qed
  qed
next
  fix s s' :: 'r and t limit len c e :: int and x k q
  assume inv: "rl_invar view s t" and a: "rl_Allow rd x t k limit (len * 1000000) s = (q, s')"
    and len: "0 < len" and ow: "open_window (rl_window view s t k) t len = (c, e)" and c: "c < 2 ^ 63 - 1"
  let ?k = "redis_limit_prefix @ k"
  obtain q0 s0 where script: "fixedWindowScript rd t ?k len s = (q0, s0)" by (meson surj_pair)
  note sc = script_counts [OF inv len script ow c]
  have pos: "0 \<le> c"
    using ow inv by (auto simp: open_window_def rl_window_def split: option.splits elim!: rl_invarD)
  have inv0: "rl_invar view s0 t"
    unfolding rl_invar_def
  proof (intro allI impI)
    fix kk v dl
    assume "view s0 t (redis_limit_prefix @ kk) = Some (v, dl)"
    then show "\<exists>n d. v = FormatInt n \<and> dl = Some d \<and> 1 \<le> n \<and> n < 2 ^ 63"
      using inv pos c unfolding rl_invar_def sc(2) by (cases "kk = k") force+
  qed
  have win: "rl_window view s0 t = (rl_window view s t)(k \<mapsto> (c + 1, e))"
  proof
    fix kk
    have "ParseInt (FormatInt (c + 1)) = Some (c + 1)" using pos c by (intro ParseInt_FormatInt) (simp add: int64_def)
    then show "rl_window view s0 t kk = ((rl_window view s t)(k \<mapsto> (c + 1, e))) kk"
      by (simp add: rl_window_def sc(2))
  qed
  obtain q1 where ex: "exchange x (fixedWindowScript rd t ?k len) s = (q1, s')"
    using a by (auto simp: rl_Allow_def split: prod.splits sum.splits)
  from exchange_cases [OF ex] script
  consider "q1 = q0" "s' = s0" | err where "q1 = Inl err" "s' = s \<or> s' = s0" by auto
  then show "rl_invar view s' t \<and>
      (rl_window view s' t = rl_window view s t \<and> (\<exists>err. q = Inl err) \<or>
       rl_window view s' t = (rl_window view s t)(k \<mapsto> (c + 1, e)) \<and>
       ((\<exists>err. q = Inl err) \<or> (\<exists>reset. q = Inr (decide (c + 1) limit reset))))"
  proof cases
    case 1
    with sc(1) a ex have "\<exists>reset. q = Inr (decide (c + 1) limit reset)" by (auto simp: rl_Allow_def)
    with 1 inv0 win show ?thesis by blast
  next
    case 2
    with a ex have "\<exists>err. q = Inl err" by (auto simp: rl_Allow_def)
    with 2 inv inv0 win show ?thesis by metis
  qed
qed

context redis_server begin

lemmas redis_grants_twice_limit = rlim.grants_twice_limit

end

text \<open>
  The same bound for the limiter shared through Redis, for every Redis that behaves as documented and
  under any failures of the exchanges with it: within any span shorter than the window (in Redis
  milliseconds) a key is granted at most twice its limit. A call whose exchange fails is not granted here.
\<close>

lemma redis_limiter_bounds_rate:
  assumes "redis_server rd view"
    and "rl_invar view r a" and "0 \<le> limit" and "0 < window"
    and "sorted (map call_time calls)"
    and "\<forall>x \<in> set calls. a \<le> call_time x \<and> call_time x < a + window"
    and "\<forall>x \<in> set calls. call_conforms k limit window x"
    and "\<And>k c e. rl_window view r a k = Some (c, e) \<Longrightarrow> c + int (length calls) < 2 ^ 63"
    and "int (length calls) < 2 ^ 63"
  shows "grants k calls
    (limiter_run (\<lambda>f t k limit len. rl_Allow rd f t k limit (len * 1000000)) calls r) \<le> 2 * limit"
  by (rule redis_server.redis_grants_twice_limit [OF assms])

lemma redis_limiter_bounds_rate_example:
  "grants ''k'' [(NoFault, 0, ''k'', 1, 60), (LostReply ''eof'', 30, ''k'', 1, 60)]
     (limiter_run (\<lambda>f t k limit len. rl_Allow ks_redis f t k limit (len * 1000000))
        [(NoFault, 0, ''k'', 1, 60), (LostReply ''eof'', 30, ''k'', 1, 60)] Map.empty) \<le> 2 * 1"
  by (rule redis_limiter_bounds_rate [OF ks.redis_server_axioms, where a = 0 and window = 60])
    (simp_all add: rl_invar_def rl_window_def ks_view_def)

end
