(* ===== verification/Presence.thy ===== *)
theory Presence
  imports Redis
begin

text \<open>
  Device presence, \<^verbatim>\<open>presence/store.go\<close>: the interface and its contract (the locale presence_store), the
  in-memory store, and the store on Redis.
\<close>

section \<open>The stores\<close>

type_synonym presence_memory = "string \<rightharpoonup> instant"

definition NewMemoryStore :: presence_memory where
  "NewMemoryStore = Map.empty"

definition pm_Online :: "instant \<Rightarrow> string \<Rightarrow> duration \<Rightarrow> presence_memory \<Rightarrow> (string, unit, presence_memory) outcome"
where
  "pm_Online now deviceID ttl s = (Inr (), s(deviceID \<mapsto> now + ttl))"

definition pm_Offline :: "instant \<Rightarrow> string \<Rightarrow> presence_memory \<Rightarrow> (string, unit, presence_memory) outcome" where
  "pm_Offline now deviceID s = (Inr (), s(deviceID := None))"

definition pm_IsOnline :: "instant \<Rightarrow> string \<Rightarrow> presence_memory \<Rightarrow> (string, bool, presence_memory) outcome"
where
  "pm_IsOnline now deviceID s =
     (Inr (case s deviceID of None \<Rightarrow> False | Some expiresAt \<Rightarrow> now < expiresAt), s)"

text \<open>
  The Redis store: the value is the formatted time, which nothing reads; times are those of the Redis clock,
  in milliseconds.
\<close>

definition presence_key :: "string \<Rightarrow> string" where
  "presence_key deviceID = ''pixelgo:presence:'' @ deviceID"

definition pr_Online ::
  "'r redis \<Rightarrow> fault \<Rightarrow> string \<Rightarrow> int \<Rightarrow> string \<Rightarrow> duration \<Rightarrow> 'r \<Rightarrow> (string, unit, 'r) outcome" where
  "pr_Online rd f stamp t deviceID ttl r =
     exchange f (\<lambda>r. (Inr (), rd_SET rd t (presence_key deviceID) stamp (Some (ttl div 1000000)) r)) r"

definition pr_Offline :: "'r redis \<Rightarrow> fault \<Rightarrow> int \<Rightarrow> string \<Rightarrow> 'r \<Rightarrow> (string, unit, 'r) outcome" where
  "pr_Offline rd f t deviceID r =
     exchange f (\<lambda>r. (Inr (), snd (rd_DEL rd t (presence_key deviceID) r))) r"

definition pr_IsOnline :: "'r redis \<Rightarrow> fault \<Rightarrow> int \<Rightarrow> string \<Rightarrow> 'r \<Rightarrow> (string, bool, 'r) outcome" where
  "pr_IsOnline rd f t deviceID r =
     exchange f (\<lambda>r. (Inr (rd_EXISTS rd t (presence_key deviceID) r > 0), r)) r"

section \<open>The contract\<close>

text \<open>
  A store shows each device online or offline at a time. Between calls a device can only go offline, and only
  once the time to live of its last announcement has passed. The extra argument of a call is what it takes
  from its surroundings; a call that fails may or may not have taken effect.
\<close>

locale presence_store =
  fixes online :: "'x \<Rightarrow> int \<Rightarrow> string \<Rightarrow> int \<Rightarrow> 's \<Rightarrow> (string, unit, 's) outcome"
    and offline :: "'x \<Rightarrow> int \<Rightarrow> string \<Rightarrow> 's \<Rightarrow> (string, unit, 's) outcome"
    and is_online :: "'x \<Rightarrow> int \<Rightarrow> string \<Rightarrow> 's \<Rightarrow> (string, bool, 's) outcome"
    and up :: "'s \<Rightarrow> int \<Rightarrow> string \<Rightarrow> int option"
    and invar :: "'s \<Rightarrow> int \<Rightarrow> bool"
  assumes invar_later: "invar s t \<Longrightarrow> t \<le> t' \<Longrightarrow> invar s t'"
    and up_stays: "up s t d = Some e \<Longrightarrow> t \<le> t' \<Longrightarrow> t' < e \<Longrightarrow> up s t' d = Some e"
    and up_later: "up s t' d = Some e \<Longrightarrow> t \<le> t' \<Longrightarrow> up s t d = Some e \<and> t' \<le> e"
    and online_spec: "invar s t \<Longrightarrow> online x t d ttl s = (q, s') \<Longrightarrow> 0 < ttl \<Longrightarrow>
      invar s' t \<and> (up s' t = (up s t)(d \<mapsto> t + ttl) \<or> (\<exists>e. q = Inl e) \<and> s' = s)"
    and offline_spec: "invar s t \<Longrightarrow> offline x t d s = (q, s') \<Longrightarrow>
      invar s' t \<and> (up s' t = (up s t)(d := None) \<or> (\<exists>e. q = Inl e) \<and> s' = s)"
    and is_online_spec: "invar s t \<Longrightarrow> is_online x t d s = (ans, s') \<Longrightarrow>
      s' = s \<and> (ans = Inr (up s t d \<noteq> None) \<or> (\<exists>e. ans = Inl e))"

section \<open>Runs of calls\<close>

datatype presence_call = POnline string int | POffline string

fun presence_exec ::
  "('x \<Rightarrow> int \<Rightarrow> string \<Rightarrow> int \<Rightarrow> 's \<Rightarrow> (string, unit, 's) outcome) \<Rightarrow>
   ('x \<Rightarrow> int \<Rightarrow> string \<Rightarrow> 's \<Rightarrow> (string, unit, 's) outcome) \<Rightarrow>
   'x \<Rightarrow> int \<Rightarrow> presence_call \<Rightarrow> 's \<Rightarrow> (string, unit, 's) outcome" where
  "presence_exec on off x t (POnline d ttl) s = on x t d ttl s"
| "presence_exec on off x t (POffline d) s = off x t d s"

fun presence_run where
  "presence_run on off [] s = s"
| "presence_run on off ((x, t, c) # calls) s =
     presence_run on off calls (snd (presence_exec on off x t c s))"

text \<open>When a device announced by the calls, all of which succeed, would go offline.\<close>

fun announced :: "string \<Rightarrow> (int \<times> presence_call) list \<Rightarrow> int option \<Rightarrow> int option" where
  "announced d [] e = e"
| "announced d ((t, POnline d' ttl) # calls) e = announced d calls (if d' = d then Some (t + ttl) else e)"
| "announced d ((t, POffline d') # calls) e = announced d calls (if d' = d then None else e)"

fun call_ok :: "presence_call \<Rightarrow> bool" where
  "call_ok (POnline d ttl) \<longleftrightarrow> 0 < ttl"
| "call_ok (POffline d) \<longleftrightarrow> True"

context presence_store begin

text \<open>The state shows at least what was announced and not yet expired, and nothing else.\<close>

definition shows_announced :: "'s \<Rightarrow> int \<Rightarrow> string \<Rightarrow> int option \<Rightarrow> bool" where
  "shows_announced s t d a \<longleftrightarrow>
     (case a of None \<Rightarrow> up s t d = None
      | Some e \<Rightarrow> (t < e \<longrightarrow> up s t d = Some e) \<and> (e < t \<longrightarrow> up s t d = None) \<and>
          (up s t d = None \<or> up s t d = Some e))"

lemma shows_later: "shows_announced s t d a \<Longrightarrow> t \<le> t' \<Longrightarrow> shows_announced s t' d a"
proof -
  assume s: "shows_announced s t d a" and le: "t \<le> t'"
  show ?thesis
  proof (cases a)
    case None
    then have "up s t d = None" using s by (simp add: shows_announced_def)
    have "up s t' d = None"
    proof (rule ccontr)
      assume "up s t' d \<noteq> None"
      then obtain e where "up s t' d = Some e" by blast
      from up_later [OF this le] \<open>up s t d = None\<close> show False by simp
    qed
    with None show ?thesis by (simp add: shows_announced_def)
  next
    case (Some e)
    with s have p: "t < e \<longrightarrow> up s t d = Some e" "up s t d = None \<or> up s t d = Some e"
      by (simp_all add: shows_announced_def)
    have live: "t' < e \<longrightarrow> up s t' d = Some e" using p(1) le up_stays [of s t d e t'] by simp
    have e: "e' = e \<and> t' \<le> e" if "up s t' d = Some e'" for e'
      using up_later [OF that le] p(2) by auto
    have "up s t' d = None \<or> up s t' d = Some e \<and> t' \<le> e"
    proof (cases "up s t' d")
      case (Some e')
      from e [OF Some] Some show ?thesis by simp
    qed simp
    with live show ?thesis unfolding Some shows_announced_def by fastforce
  qed
qed

lemma exec_ok:
  assumes "invar s t" and "presence_exec online offline x t c s = (Inr u, s')" and "call_ok c"
  shows "invar s' t \<and> up s' t = (case c of POnline d ttl \<Rightarrow> (up s t)(d \<mapsto> t + ttl) | POffline d \<Rightarrow> (up s t)(d := None))"
proof (cases c)
  case (POnline d ttl)
  with assms online_spec [of s t x d ttl "Inr u" s'] show ?thesis by simp
next
  case (POffline d)
  with assms offline_spec [of s t x d "Inr u" s'] show ?thesis by simp
qed

lemma run_shows:
  assumes "invar s t0" and "shows_announced s t0 d a" and "sorted (t0 # map (fst \<circ> snd) calls)"
    and "\<forall>(x, t, c) \<in> set calls. call_ok c \<and> (\<forall>s. \<exists>s'. presence_exec online offline x t c s = (Inr (), s'))"
    and "\<forall>(x, t, c) \<in> set calls. t \<le> t1" and "t0 \<le> t1"
  shows "invar (presence_run online offline calls s) t1 \<and>
    shows_announced (presence_run online offline calls s) t1 d (announced d (map snd calls) a)"
  using assms
proof (induction calls arbitrary: s t0 a)
  case Nil
  then show ?case using shows_later invar_later by simp
next
  case (Cons call calls)
  obtain x t c where call: "call = (x, t, c)" by (cases call) auto
  have le: "t0 \<le> t" "t \<le> t1" using Cons.prems(3,5) by (simp_all add: call)
  have inv: "invar s t" and now: "shows_announced s t d a"
    using invar_later [OF Cons.prems(1) le(1)] shows_later [OF Cons.prems(2) le(1)] by simp_all
  obtain s' where st: "presence_exec online offline x t c s = (Inr (), s')" and ok: "call_ok c"
  proof -
    from Cons.prems(4) have "call_ok c \<and> (\<forall>s. \<exists>s'. presence_exec online offline x t c s = (Inr (), s'))"
      unfolding call by simp
    then show thesis using that by blast
  qed
  let ?a = "announced d [(t, c)] a"
  have inv': "invar s' t" and "shows_announced s' t d ?a"
    using now exec_ok [OF inv st ok] ok by (cases c; auto simp: shows_announced_def split: option.splits)+
  from Cons.IH [OF inv' this(2) _ _ _ le(2)] Cons.prems(3-5)
  have "invar (presence_run online offline calls s') t1 \<and>
      shows_announced (presence_run online offline calls s') t1 d (announced d (map snd calls) ?a)"
    by (simp add: call)
  moreover have "announced d (map snd calls) ?a = announced d (map snd (call # calls)) a"
    by (cases c) (simp_all add: call)
  ultimately show ?case using st by (simp add: call)
qed

lemma is_online_answer:
  assumes "invar s t" and "is_online x t d s = (Inr b, s')" and "shows_announced s t d a"
    and "\<And>e. a = Some e \<Longrightarrow> t \<noteq> e"
  shows "b \<longleftrightarrow> (\<exists>e. a = Some e \<and> t < e)"
proof -
  have b: "b \<longleftrightarrow> up s t d \<noteq> None" using is_online_spec [OF assms(1,2)] by blast
  show ?thesis
  proof (cases a)
    case None
    with assms(3) b show ?thesis by (simp add: shows_announced_def)
  next
    case (Some e)
    with assms(4) have "t \<noteq> e" by blast
    then have "t < e \<or> e < t" by linarith
    with Some assms(3) b show ?thesis by (auto simp: shows_announced_def)
  qed
qed

end

section \<open>Both stores\<close>

definition pm_up :: "presence_memory \<Rightarrow> instant \<Rightarrow> string \<Rightarrow> instant option" where
  "pm_up s t d = (case s d of None \<Rightarrow> None | Some e \<Rightarrow> if t < e then Some e else None)"

lemma pm_up_upd:
  "pm_up (s(d := x)) t = (pm_up s t)(d := (case x of None \<Rightarrow> None | Some e \<Rightarrow> if t < e then Some e else None))"
  by (simp add: pm_up_def fun_eq_iff)

lemma pm_up_Some: "pm_up s t d = Some e \<longleftrightarrow> s d = Some e \<and> t < e"
  by (auto simp: pm_up_def split: option.splits if_splits)

lemma pm_IsOnline_up: "pm_IsOnline t d s = (Inr (pm_up s t d \<noteq> None), s)"
  by (simp add: pm_IsOnline_def pm_up_def split: option.splits)

interpretation pmem: presence_store "\<lambda>x::unit. pm_Online" "\<lambda>x. pm_Offline" "\<lambda>x. pm_IsOnline" pm_up "\<lambda>s t. True"
  by unfold_locales
    (auto simp: pm_up_Some pm_IsOnline_up pm_Online_def pm_Offline_def pm_up_upd)

definition pr_up :: "('r \<Rightarrow> int \<Rightarrow> keyspace) \<Rightarrow> 'r \<Rightarrow> int \<Rightarrow> string \<Rightarrow> int option" where
  "pr_up view r t d = (case view r t (presence_key d) of Some (_, Some e) \<Rightarrow> Some e | _ \<Rightarrow> None)"

definition pr_invar :: "('r \<Rightarrow> int \<Rightarrow> keyspace) \<Rightarrow> 'r \<Rightarrow> int \<Rightarrow> bool" where
  "pr_invar view r t \<longleftrightarrow> (\<forall>d v. view r t (presence_key d) \<noteq> Some (v, None))"

lemma presence_key_inject [simp]: "presence_key d = presence_key d' \<longleftrightarrow> d = d'"
  by (simp add: presence_key_def)

lemma pr_up_Some: "pr_up view r t d = Some e \<longleftrightarrow> (\<exists>v. view r t (presence_key d) = Some (v, Some e))"
  by (auto simp: pr_up_def split: option.splits)

lemma pr_up_None: "pr_invar view r t \<Longrightarrow> pr_up view r t d = None \<longleftrightarrow> view r t (presence_key d) = None"
  by (auto simp: pr_up_def pr_invar_def split: option.splits)

text \<open>The calls on Redis take their failure and the stored time text from their surroundings; ttl in ms.\<close>

sublocale redis_server \<subseteq> predis: presence_store
  "\<lambda>(f, stamp) t d ttl. pr_Online rd f stamp t d (ttl * 1000000)" "\<lambda>(f, stamp). pr_Offline rd f"
  "\<lambda>(f, stamp). pr_IsOnline rd f" "pr_up view" "pr_invar view"
proof unfold_locales
  fix s s' :: 'r and x :: "fault \<times> string" and t ttl d q
  assume inv: "pr_invar view s t" and ttl: "0 < ttl"
    and o: "(case x of (f, stamp) \<Rightarrow> \<lambda>t d ttl. pr_Online rd f stamp t d (ttl * 1000000)) t d ttl s = (q, s')"
  obtain f stamp where x: "x = (f, stamp)" by (cases x)
  let ?s = "rd_SET rd t (presence_key d) stamp (Some ttl) s"
  have v: "view ?s t = (view s t)(presence_key d \<mapsto> (stamp, Some (t + ttl)))"
    using SET [of "Some ttl" t "presence_key d" stamp s] ttl by simp
  have "s' = ?s \<or> (\<exists>e. q = Inl e) \<and> s' = s"
    using o by (auto simp: x pr_Online_def exchange_def split: fault.splits)
  moreover have "pr_invar view ?s t" using inv by (auto simp: pr_invar_def v)
  moreover have "pr_up view ?s t = (pr_up view s t)(d \<mapsto> t + ttl)" by (auto simp: pr_up_def v fun_eq_iff)
  ultimately show "pr_invar view s' t \<and>
      (pr_up view s' t = (pr_up view s t)(d \<mapsto> t + ttl) \<or> (\<exists>e. q = Inl e) \<and> s' = s)"
    using inv by auto
next
  fix s s' :: 'r and x :: "fault \<times> string" and t d q
  assume inv: "pr_invar view s t"
    and o: "(case x of (f, stamp) \<Rightarrow> pr_Offline rd f) t d s = (q, s')"
  obtain f stamp where x: "x = (f, stamp)" by (cases x)
  let ?s = "snd (rd_DEL rd t (presence_key d) s)"
  have v: "view ?s t = (view s t)(presence_key d := None)" by (rule DEL)
  have "s' = ?s \<or> (\<exists>e. q = Inl e) \<and> s' = s"
    using o by (auto simp: x pr_Offline_def exchange_def split: fault.splits)
  moreover have "pr_invar view ?s t" using inv by (auto simp: pr_invar_def v)
  moreover have "pr_up view ?s t = (pr_up view s t)(d := None)" by (auto simp: pr_up_def v fun_eq_iff)
  ultimately show "pr_invar view s' t \<and>
      (pr_up view s' t = (pr_up view s t)(d := None) \<or> (\<exists>e. q = Inl e) \<and> s' = s)"
    using inv by auto
next
  fix s s' :: 'r and x :: "fault \<times> string" and t d ans
  assume inv: "pr_invar view s t"
    and o: "(case x of (f, stamp) \<Rightarrow> pr_IsOnline rd f) t d s = (ans, s')"
  then show "s' = s \<and> (ans = Inr (pr_up view s t d \<noteq> None) \<or> (\<exists>e. ans = Inl e))"
    using pr_up_None [OF inv, of d]
    by (auto simp: pr_IsOnline_def exchange_def EXISTS split: prod.splits fault.splits)
next
  fix s :: 'r and t t' :: int
  assume "pr_invar view s t" and "t \<le> t'"
  then show "pr_invar view s t'" using later unfolding pr_invar_def by blast
next
  fix s :: 'r and t t' e :: int and d
  assume "pr_up view s t d = Some e" and "t \<le> t'" and "t' < e"
  then show "pr_up view s t' d = Some e" using stays unfolding pr_up_Some by blast
next
  fix s :: 'r and t t' e :: int and d
  assume "pr_up view s t' d = Some e" and "t \<le> t'"
  then show "pr_up view s t d = Some e \<and> t' \<le> e" using later expiry unfolding pr_up_Some by blast
qed

section \<open>Both follow the announcements\<close>

definition pm_calls :: "(int \<times> presence_call) list \<Rightarrow> (unit \<times> int \<times> presence_call) list" where
  "pm_calls calls = map (\<lambda>(t, c). ((), t, c)) calls"

definition pr_calls :: "string \<Rightarrow> (int \<times> presence_call) list \<Rightarrow> ((fault \<times> string) \<times> int \<times> presence_call) list"
where
  "pr_calls stamp calls = map (\<lambda>(t, c). ((NoFault, stamp), t, c)) calls"

lemma calls_simps [simp]:
  "map snd (pm_calls calls) = calls" "map snd (pr_calls stamp calls) = calls"
  by (simp_all add: pm_calls_def pr_calls_def case_prod_unfold o_def)

lemma pm_exec_succeeds: "\<exists>s'. presence_exec (\<lambda>x. pm_Online) (\<lambda>x. pm_Offline) x t c s = (Inr (), s')"
  by (cases c) (simp_all add: pm_Online_def pm_Offline_def)

context redis_server begin

lemma redis_presence_run:
  assumes "pr_invar view r t0" and "\<And>d. pr_up view r t0 d = None"
    and "sorted (t0 # map fst calls)" and "\<forall>(t, c) \<in> set calls. call_ok c \<and> t \<le> t1" and "t0 \<le> t1"
    and "announced d calls None \<noteq> Some t1"
  shows "fst (pr_IsOnline rd NoFault t1 d
      (presence_run (\<lambda>(f, stamp) t d ttl. pr_Online rd f stamp t d (ttl * 1000000))
        (\<lambda>(f, stamp). pr_Offline rd f) (pr_calls stamp calls) r)) =
    Inr (\<exists>e. announced d calls None = Some e \<and> t1 < e)"
proof -
  let ?on = "\<lambda>(f, stamp) t d ttl. pr_Online rd f stamp t d (ttl * 1000000)"
  let ?off = "\<lambda>(f, stamp). pr_Offline rd f"
  let ?r = "presence_run ?on ?off (pr_calls stamp calls) r"
  have ok: "call_ok c" "t \<le> t1" if "(t, c) \<in> set calls" for t c using assms(4) that by auto
  have ex: "\<exists>s'. presence_exec ?on ?off (NoFault, stamp) t c s = (Inr (), s')" for t c s
    by (cases c) (simp_all add: pr_Online_def pr_Offline_def exchange_def)
  have r0: "predis.shows_announced r t0 d None" using assms(2) by (simp add: predis.shows_announced_def)
  have "pr_invar view ?r t1 \<and> predis.shows_announced ?r t1 d (announced d (map snd (pr_calls stamp calls)) None)"
    by (rule predis.run_shows [OF assms(1) r0])
      (use assms(3,5) ok ex in \<open>auto simp: pr_calls_def o_def case_prod_unfold\<close>)
  then have inv: "pr_invar view ?r t1" and r: "predis.shows_announced ?r t1 d (announced d calls None)"
    by simp_all
  obtain b where b: "pr_IsOnline rd NoFault t1 d ?r = (Inr b, ?r)"
    by (simp add: pr_IsOnline_def exchange_def)
  have t1: "\<And>e. announced d calls None = Some e \<Longrightarrow> t1 \<noteq> e" using assms(6) by auto
  show ?thesis
    using predis.is_online_answer [of ?r t1 "(NoFault, stamp)" d b ?r, OF inv _ r t1] b by simp
qed

end

text \<open>
  C36: whether a device is shown online depends on the announcements alone, and the two stores agree. After
  any calls in the order of time, starting with no device known, the in-memory store answers that a device is
  online exactly when its last Online call was not followed by an Offline call and its time to live has not
  run out; the Redis store, on any Redis that behaves as documented, gives the same answer (at any time but
  the very millisecond of the deadline).
\<close>

theorem presence_follows_announcements:
  assumes "redis_server rd view" and "pr_invar view r start" and "\<And>d. pr_up view r start d = None"
    and "sorted (start # map fst calls)" and "\<forall>(t, c) \<in> set calls. call_ok c \<and> t \<le> at" and "start \<le> at"
    and "announced d calls None \<noteq> Some at"
  shows "fst (pm_IsOnline at d (presence_run (\<lambda>x. pm_Online) (\<lambda>x. pm_Offline) (pm_calls calls) NewMemoryStore)) =
      Inr (\<exists>e. announced d calls None = Some e \<and> at < e) \<and>
    fst (pr_IsOnline rd NoFault at d
        (presence_run (\<lambda>(f, stamp) t d ttl. pr_Online rd f stamp t d (ttl * 1000000))
          (\<lambda>(f, stamp). pr_Offline rd f) (pr_calls stamp calls) r)) =
      Inr (\<exists>e. announced d calls None = Some e \<and> at < e)"
proof -
  let ?m = "presence_run (\<lambda>x. pm_Online) (\<lambda>x. pm_Offline) (pm_calls calls) NewMemoryStore"
  have ok: "call_ok c" "t \<le> at" if "(t, c) \<in> set calls" for t c using assms(5) that by auto
  have m0: "pmem.shows_announced NewMemoryStore start d None"
    by (simp add: pmem.shows_announced_def pm_up_def NewMemoryStore_def)
  have "pmem.shows_announced ?m at d (announced d (map snd (pm_calls calls)) None)"
    by (rule pmem.run_shows [THEN conjunct2, OF _ m0])
      (use assms(4,6) ok pm_exec_succeeds in \<open>auto simp: pm_calls_def o_def case_prod_unfold\<close>)
  then have m: "pmem.shows_announced ?m at d (announced d calls None)" by simp
  have am: "pm_IsOnline at d ?m = (Inr (pm_up ?m at d \<noteq> None), ?m)" by (rule pm_IsOnline_up)
  have at: "\<And>e. announced d calls None = Some e \<Longrightarrow> at \<noteq> e" using assms(7) by auto
  have "fst (pm_IsOnline at d ?m) = Inr (\<exists>e. announced d calls None = Some e \<and> at < e)"
    using pmem.is_online_answer [OF TrueI am m at] am by simp
  with redis_server.redis_presence_run [OF assms] show ?thesis by blast
qed

lemma presence_follows_announcements_witness:
  "fst (pm_IsOnline 15 ''d'' (presence_run (\<lambda>x. pm_Online) (\<lambda>x. pm_Offline)
      (pm_calls [(0, POnline ''d'' 10), (9, POnline ''d'' 10)]) NewMemoryStore)) =
    Inr (\<exists>e. announced ''d'' [(0, POnline ''d'' 10), (9, POnline ''d'' 10)] None = Some e \<and> 15 < e)"
  by (rule presence_follows_announcements [where r = Map.empty and start = 0 and view = ks_view and
        rd = ks_redis and stamp = "''''", THEN conjunct1, OF ks.redis_server_axioms])
    (simp_all add: pr_invar_def pr_up_def ks_view_def)

end
