(* ===== verification/Middleware.thy ===== *)
theory Middleware
  imports AuthService RateLimitProps Http
begin

text \<open>
  The middlewares around the routes: bearer authentication (\<^verbatim>\<open>httpapi/auth_middleware.go\<close>) and rate
  limiting (\<^verbatim>\<open>httpapi/ratelimit.go\<close>).
\<close>

section \<open>Bearer authentication\<close>

definition publicWithoutBearer :: "string \<Rightarrow> bool" where
  "publicWithoutBearer path \<longleftrightarrow>
     path \<in> {''/health'', ''/ready'', ''/metrics'', ''/v1/auth/register'', ''/v1/auth/login'', ''/v1/auth/refresh''} \<or>
     HasPrefix path ''/dev-upload/'' \<or> HasPrefix path ''/dev-download/''"

definition withAuthentication :: "'a auth_Service \<Rightarrow> instant \<Rightarrow> 's handler \<Rightarrow> 's handler" where
  "withAuthentication service now nxt r s =
     (if publicWithoutBearer (rq_Path r) then nxt r s
      else
        let header = TrimSpace (header_Get (rq_Header r) ''Authorization'') in
        if \<not> HasPrefix header ''Bearer ''
        then (writeError 401 ''unauthorized'' ''bearer access token required'', s)
        else
          let raw = TrimSpace (TrimPrefix header ''Bearer '') in
          case auth_ValidateAccess service now raw of
            Inl _ \<Rightarrow> (writeError 401 ''unauthorized'' ''access token is invalid or expired'', s)
          | Inr userID \<Rightarrow> nxt (r\<lparr>rq_ctx := ContextWithUserID (rq_ctx r) userID\<rparr>) s)"

section \<open>Rate limiting\<close>

definition readRequestLimit :: int where "readRequestLimit = 240"
definition mutationRequestLimit :: int where "mutationRequestLimit = 120"
definition rateLimitWindow :: duration where "rateLimitWindow = minute"

text \<open>
  net.SplitHostPort: the port follows the last colon; a host with colons stands in brackets. None is an
  error.
\<close>

fun last_colon :: "string \<Rightarrow> nat \<Rightarrow> nat option \<Rightarrow> nat option" where
  "last_colon [] i found = found"
| "last_colon (c # cs) i found = last_colon cs (Suc i) (if c = CHR '':'' then Some i else found)"

fun index_byte :: "char \<Rightarrow> string \<Rightarrow> nat option" where
  "index_byte c [] = None"
| "index_byte c (d # ds) = (if d = c then Some 0 else map_option Suc (index_byte c ds))"

definition SplitHostPort :: "string \<Rightarrow> (string \<times> string) option" where
  "SplitHostPort hostport =
     (case last_colon hostport 0 None of
        None \<Rightarrow> None
      | Some i \<Rightarrow>
          if hd hostport = CHR ''['' then
            (case index_byte (CHR '']'') hostport of
               None \<Rightarrow> None
             | Some e \<Rightarrow>
                 if e + 1 \<noteq> i then None
                 else if CHR ''['' \<in> set (drop 1 hostport) \<or> CHR '']'' \<in> set (drop (e + 1) hostport) then None
                 else Some (take (e - 1) (drop 1 hostport), drop (i + 1) hostport))
          else
            let host = take i hostport in
            if CHR '':'' \<in> set host then None
            else if CHR ''['' \<in> set hostport \<or> CHR '']'' \<in> set hostport then None
            else Some (host, drop (i + 1) hostport))"

definition is_read :: "http_request \<Rightarrow> bool" where
  "is_read r \<longleftrightarrow> \<not> (rq_Method r \<noteq> ''GET'' \<and> rq_Method r \<noteq> ''HEAD'')"

definition clientRateLimitKey :: "http_request \<Rightarrow> string" where
  "clientRateLimitKey r =
     (let host = (case SplitHostPort (rq_RemoteAddr r) of
                    None \<Rightarrow> rq_RemoteAddr r
                  | Some (host, _) \<Rightarrow> if host = '''' then rq_RemoteAddr r else host);
          host = (if host = '''' then ''unknown'' else host);
          scope = (if is_read r then ''read'' else ''mutation'')
      in scope @ '':'' @ host)"

text \<open>Duration.Round to a positive multiple: to the nearest, halves away from zero.\<close>

definition duration_Round :: "duration \<Rightarrow> duration \<Rightarrow> duration" where
  "duration_Round d m =
     (if d < 0 then - (m * ((- d + m div 2) div m)) else m * ((d + m div 2) div m))"

definition retry_after :: "duration \<Rightarrow> int" where
  "retry_after reset =
     (let s = duration_Round reset second div second in if s < 1 then 1 else s)"

text \<open>
  The limiter is given as its Allow at the time of the request, on the limiter's part of the state.
\<close>

definition withRateLimit ::
  "(string \<Rightarrow> int \<Rightarrow> duration \<Rightarrow> 'l \<Rightarrow> (string, Decision, 'l) outcome) \<Rightarrow> 's handler \<Rightarrow> ('l \<times> 's) handler" where
  "withRateLimit allow nxt r ls =
     (let (l, s) = ls in
      if \<not> HasPrefix (rq_Path r) ''/v1/'' then (let (ops, s') = nxt r s in (ops, (l, s')))
      else
        let limit = (if is_read r then readRequestLimit else mutationRequestLimit) in
        case allow (clientRateLimitKey r) limit rateLimitWindow l of
          (Inl _, l') \<Rightarrow> (let (ops, s') = nxt r s in (ops, (l', s')))
        | (Inr d, l') \<Rightarrow>
            let hdr = [SetHeader ''RateLimit-Limit'' (FormatInt (dc_Limit d)),
                       SetHeader ''RateLimit-Remaining'' (FormatInt (dc_Remaining d))] in
            if \<not> dc_Allowed d
            then (hdr @ [SetHeader ''Retry-After'' (FormatInt (retry_after (dc_ResetAfter d)))] @
                  writeError 429 ''rate_limited'' ''too many requests'', (l', s))
            else (let (ops, s') = nxt r s in (hdr @ ops, (l', s'))))"

section \<open>What they guarantee\<close>

text \<open>
  C26: no handler behind the authentication runs for a protected path without a user. For every handler and
  every path outside the public list, the handler runs only with the request's context carrying the non-empty
  user that the bearer token of the Authorization header validates to; in every other case the answer is 401
  with the code unauthorized, and the state is untouched.
\<close>

theorem protected_paths_require_valid_token:
  assumes "\<not> publicWithoutBearer (rq_Path r)"
  shows "(\<exists>tok u. TrimSpace (header_Get (rq_Header r) ''Authorization'') = ''Bearer '' @ tok \<and>
      auth_ValidateAccess service now (TrimSpace tok) = Inr u \<and> u \<noteq> '''' \<and>
      withAuthentication service now nxt r s = nxt (r\<lparr>rq_ctx := ContextWithUserID (rq_ctx r) u\<rparr>) s) \<or>
    (\<exists>msg. withAuthentication service now nxt r s = (writeError 401 ''unauthorized'' msg, s) \<and>
      rs_status (served (writeError 401 ''unauthorized'' msg)) = 401)"
proof -
  let ?h = "TrimSpace (header_Get (rq_Header r) ''Authorization'')"
  have st: "rs_status (served (writeError 401 ''unauthorized'' msg)) = 401" for msg
    by (simp add: writeError_def served_writeJSON)
  show ?thesis
  proof (cases "HasPrefix ?h ''Bearer ''")
    case False
    with assms have "withAuthentication service now nxt r s =
        (writeError 401 ''unauthorized'' ''bearer access token required'', s)"
      by (simp add: withAuthentication_def Let_def)
    with st show ?thesis by blast
  next
    case True
    then obtain tok where tok: "?h = ''Bearer '' @ tok" unfolding HasPrefix_iff by blast
    have trim: "TrimPrefix ?h ''Bearer '' = tok" unfolding tok by (rule TrimPrefix_append)
    show ?thesis
    proof (cases "auth_ValidateAccess service now (TrimSpace tok)")
      case (Inl e)
      with assms True trim have "withAuthentication service now nxt r s =
          (writeError 401 ''unauthorized'' ''access token is invalid or expired'', s)"
        by (simp add: withAuthentication_def Let_def)
      with st show ?thesis by blast
    next
      case (Inr u)
      have "u \<noteq> ''''"
        using Inr by (auto simp: auth_ValidateAccess_def split: sum.splits prod.splits if_splits)
      moreover from assms True trim Inr
      have "withAuthentication service now nxt r s = nxt (r\<lparr>rq_ctx := ContextWithUserID (rq_ctx r) u\<rparr>) s"
        by (simp add: withAuthentication_def Let_def)
      ultimately show ?thesis using tok Inr by blast
    qed
  qed
qed

definition one_token_auth :: "auth_memory auth_Service" where
  "one_token_auth = auth_NewService
     \<lparr>jwt_Sign = (\<lambda>c k. Inr ''tok''),
      jwt_ParseHS256 = (\<lambda>now raw k iss aud.
        if raw = ''tok''
        then Inr (\<lparr>jc_Issuer = iss, jc_Subject = ''u1'', jc_Audience = [aud], jc_ExpiresAt = now + 1,
                   jc_NotBefore = now, jc_IssuedAt = now, jc_ID = ''j''\<rparr>, True)
        else Inl ''invalid'')\<rparr>
     \<lparr>ml_ToLower = ToLower, ml_ParseAddress = Some\<rparr> auth_memory_repo ''key''"

definition get_devices :: "header \<Rightarrow> http_request" where
  "get_devices h =
     \<lparr>rq_Method = ''GET'', rq_Path = ''/v1/devices'', rq_Query = (\<lambda>_. ''''), rq_Header = h, rq_Body = [],
      rq_BodyError = None, rq_RemoteAddr = ''10.0.0.7:5000'', rq_ctx = background\<rparr>"

lemma protected_paths_require_valid_token_witness:
  "let r = get_devices [''Authorization'' \<mapsto> [''Bearer tok'']]; nxt = (\<lambda>r n. ([WriteHeader 204], Suc n))
   in (\<exists>tok u. TrimSpace (header_Get (rq_Header r) ''Authorization'') = ''Bearer '' @ tok \<and>
      auth_ValidateAccess one_token_auth 0 (TrimSpace tok) = Inr u \<and> u \<noteq> '''' \<and>
      withAuthentication one_token_auth 0 nxt r 0 = nxt (r\<lparr>rq_ctx := ContextWithUserID (rq_ctx r) u\<rparr>) 0) \<or>
    (\<exists>msg. withAuthentication one_token_auth 0 nxt r 0 = (writeError 401 ''unauthorized'' msg, 0) \<and>
      rs_status (served (writeError 401 ''unauthorized'' msg)) = 401)"
  unfolding Let_def
  by (rule protected_paths_require_valid_token) (simp add: publicWithoutBearer_def HasPrefix_def get_devices_def)

definition rate_limit_headers :: "Decision \<Rightarrow> writer_op list" where
  "rate_limit_headers d =
     [SetHeader ''RateLimit-Limit'' (FormatInt (dc_Limit d)),
      SetHeader ''RateLimit-Remaining'' (FormatInt (dc_Remaining d))]"

lemma retry_after_positive [simp]: "1 \<le> retry_after reset"
  by (simp add: retry_after_def Let_def)

lemma withRateLimit_other:
  "\<not> HasPrefix (rq_Path r) ''/v1/'' \<Longrightarrow>
   withRateLimit allow nxt r (l, s) = (fst (nxt r s), (l, snd (nxt r s)))"
  by (simp add: withRateLimit_def split: prod.split)

lemma withRateLimit_api:
  assumes "HasPrefix (rq_Path r) ''/v1/''"
    and "allow (clientRateLimitKey r) (if is_read r then 240 else 120) minute l = (q, l')"
  shows "withRateLimit allow nxt r (l, s) =
    (case q of
       Inl _ \<Rightarrow> (fst (nxt r s), (l', snd (nxt r s)))
     | Inr d \<Rightarrow>
         if dc_Allowed d then (rate_limit_headers d @ fst (nxt r s), (l', snd (nxt r s)))
         else (rate_limit_headers d @ [SetHeader ''Retry-After'' (FormatInt (retry_after (dc_ResetAfter d)))] @
               writeError 429 ''rate_limited'' ''too many requests'', (l', s)))"
proof -
  have limit: "allow (clientRateLimitKey r) (if is_read r then readRequestLimit else mutationRequestLimit)
      rateLimitWindow l = (q, l')"
    using assms(2) unfolding readRequestLimit_def mutationRequestLimit_def rateLimitWindow_def .
  show ?thesis
    unfolding withRateLimit_def Let_def prod.case limit rate_limit_headers_def using assms(1)
    by (cases q; cases "nxt r s") simp_all
qed

text \<open>
  Rate limiting is applied to the API and only there, and denies without running anything. For a path
  under /v1/ whose limiter answers, the request counts against a key made of its scope (read or mutation) and
  its client address, with 240 reads or 120 mutations per minute; if the decision denies it, no handler runs,
  the answer is 429 with Retry-After of at least one second, and otherwise the handler's answer is passed on
  with the two rate-limit headers put before it. If the limiter fails, the request is let through.
\<close>

lemma rate_limit_middleware_behaviour:
  assumes "allow (clientRateLimitKey r) (if is_read r then 240 else 120) minute l = (q, l')"
  shows "withRateLimit allow nxt r (l, s) =
    (if \<not> HasPrefix (rq_Path r) ''/v1/'' then (fst (nxt r s), (l, snd (nxt r s)))
     else case q of
       Inl _ \<Rightarrow> (fst (nxt r s), (l', snd (nxt r s)))
     | Inr d \<Rightarrow>
         if dc_Allowed d then (rate_limit_headers d @ fst (nxt r s), (l', snd (nxt r s)))
         else (rate_limit_headers d @ [SetHeader ''Retry-After'' (FormatInt (retry_after (dc_ResetAfter d)))] @
               writeError 429 ''rate_limited'' ''too many requests'', (l', s))) \<and>
    (\<forall>reset. 1 \<le> retry_after reset)"
  using withRateLimit_other [of r allow nxt l s] withRateLimit_api [of r allow l q l' nxt s, OF _ assms]
  by simp

lemma rate_limit_middleware_behaviour_example:
  "let d = \<lparr>dc_Allowed = False, dc_Limit = 240, dc_Remaining = 0, dc_ResetAfter = 3 * second\<rparr>;
       r = get_devices Map.empty
   in withRateLimit (\<lambda>k n w l. (Inr d, (k, n) # l)) (\<lambda>r s. ([], s)) r ([], ()) =
        (rate_limit_headers d @ [SetHeader ''Retry-After'' ''3''] @
         writeError 429 ''rate_limited'' ''too many requests'', ([(''read:10.0.0.7'', 240)], ()))"
proof -
  let ?d = "\<lparr>dc_Allowed = False, dc_Limit = 240, dc_Remaining = 0, dc_ResetAfter = 3 * second\<rparr>"
  let ?r = "get_devices Map.empty"
  have key: "clientRateLimitKey ?r = ''read:10.0.0.7''" by code_simp
  have get: "is_read ?r" by (simp add: is_read_def get_devices_def)
  have secs: "FormatInt (retry_after (dc_ResetAfter ?d)) = ''3''" by code_simp
  have path: "HasPrefix (rq_Path ?r) ''/v1/''" by code_simp
  show ?thesis
    using rate_limit_middleware_behaviour
      [where allow = "\<lambda>k n w l. (Inr ?d, (k, n) # l)" and r = "?r" and l = "[]" and q = "Inr ?d"
         and l' = "[(''read:10.0.0.7'', 240)]" and nxt = "\<lambda>r s. ([], s)" and s = "()"]
    using path secs by (simp add: key get)
qed

end
