(* ===== verification/Handlers.thy ===== *)
theory Handlers
  imports Middleware Files TransferService Devices Presence
begin

text \<open>
  The HTTP server of \<^verbatim>\<open>httpapi/server.go\<close> and \<^verbatim>\<open>httpapi/auth_handlers.go\<close>: what it is built from, the JSON
  values it writes, and its handlers, one definition each. The route table is in the theory Routes.
\<close>

section \<open>The server and its state\<close>

text \<open>The interface of the presence stores, at the time of a call.\<close>

record 'p presence_iface =
  ps_Online :: "instant \<Rightarrow> string \<Rightarrow> duration \<Rightarrow> 'p \<Rightarrow> (string, unit, 'p) outcome"
  ps_Offline :: "instant \<Rightarrow> string \<Rightarrow> 'p \<Rightarrow> (string, unit, 'p) outcome"
  ps_IsOnline :: "instant \<Rightarrow> string \<Rightarrow> 'p \<Rightarrow> (string, bool, 'p) outcome"

definition memory_presence :: "presence_memory presence_iface" where
  "memory_presence = \<lparr>ps_Online = pm_Online, ps_Offline = pm_Offline, ps_IsOnline = pm_IsOnline\<rparr>"

text \<open>What the handling of one request draws from its surroundings.\<close>

record http_env =
  he_now :: instant
  he_rnd :: "(string, bytes) result"
  he_keys :: "string list"
  he_auth :: auth_env

text \<open>The interface of the limiters: Allow, at the time and in the surroundings of a call.\<close>

record 'l Limiter =
  lm_Allow :: "http_env \<Rightarrow> string \<Rightarrow> int \<Rightarrow> duration \<Rightarrow> 'l \<Rightarrow> (string, Decision, 'l) outcome"

text \<open>
  The JSON decoder with unknown fields disallowed, for each type the server decodes: it is given the bytes
  the body delivers and the error the body ends in, if any. The text format itself is a parameter.
\<close>

type_synonym 'i decoder = "bytes \<Rightarrow> string option \<Rightarrow> (string, 'i) result"

record json_lib =
  jl_Credentials :: "Credentials decoder"
  jl_RefreshRequest :: "string decoder"
  jl_RegisterInput :: "RegisterInput decoder"
  jl_PushTokenInput :: "string decoder"
  jl_CreateInput :: "CreateInput decoder"

text \<open>
  The Server struct. The hub's part is its answer to the upgrade request (the connection itself is modelled
  in the theory Hub); a Redis client is the commands it sends; metrics and readiness are handlers given from outside. The payload service is part of
  the state because the in-memory adapter keeps the blobs.
\<close>

record ('t, 'd, 'a, 'p, 'r, 'l) Server =
  sv_devices :: "'d device_repo"
  sv_transfers :: "'t transfer_repo"
  sv_hub :: "http_request \<Rightarrow> writer_op list"
  sv_urls :: url_lib
  sv_json :: json_lib
  sv_presence :: "'p presence_iface option"
  sv_idempotencyRedis :: "'r redis option"
  sv_rateLimiter :: "'l Limiter option"
  sv_auth :: "'a auth_Service option"
  sv_authRequired :: bool
  sv_metrics :: "(http_request \<Rightarrow> writer_op list) option"
  sv_readiness :: "(http_request \<Rightarrow> writer_op list) option"

record ('t, 'd, 'a, 'p) server_state =
  ss_devices :: 'd
  ss_transfers :: 't
  ss_files :: files_Service
  ss_auth :: 'a
  ss_presence :: 'p
  ss_published :: "publication list"

text \<open>The options of New, each a change of the server under construction.\<close>

type_synonym ('t, 'd, 'a, 'p, 'r, 'l) option_fun = "('t, 'd, 'a, 'p, 'r, 'l) Server \<Rightarrow> ('t, 'd, 'a, 'p, 'r, 'l) Server"

definition WithPresence :: "'p presence_iface \<Rightarrow> ('t, 'd, 'a, 'p, 'r, 'l) option_fun" where
  "WithPresence store s = s\<lparr>sv_presence := Some store\<rparr>"

definition WithRedisIdempotency :: "'r redis \<Rightarrow> ('t, 'd, 'a, 'p, 'r, 'l) option_fun" where
  "WithRedisIdempotency client s = s\<lparr>sv_idempotencyRedis := Some client\<rparr>"

definition WithRateLimiter :: "'l Limiter \<Rightarrow> ('t, 'd, 'a, 'p, 'r, 'l) option_fun" where
  "WithRateLimiter limiter s = s\<lparr>sv_rateLimiter := Some limiter\<rparr>"

definition WithAuth :: "'a auth_Service \<Rightarrow> bool \<Rightarrow> ('t, 'd, 'a, 'p, 'r, 'l) option_fun" where
  "WithAuth service required s = s\<lparr>sv_auth := Some service, sv_authRequired := required\<rparr>"

definition WithMetrics :: "(http_request \<Rightarrow> writer_op list) \<Rightarrow> ('t, 'd, 'a, 'p, 'r, 'l) option_fun" where
  "WithMetrics h s = s\<lparr>sv_metrics := Some h\<rparr>"

definition WithReadiness :: "(http_request \<Rightarrow> writer_op list) \<Rightarrow> ('t, 'd, 'a, 'p, 'r, 'l) option_fun" where
  "WithReadiness h s = s\<lparr>sv_readiness := Some h\<rparr>"

definition new_server ::
  "'d device_repo \<Rightarrow> 't transfer_repo \<Rightarrow> (http_request \<Rightarrow> writer_op list) \<Rightarrow> url_lib \<Rightarrow> json_lib \<Rightarrow>
   ('t, 'd, 'a, 'p, 'r, 'l) option_fun list \<Rightarrow> ('t, 'd, 'a, 'p, 'r, 'l) Server" where
  "new_server devices transfers hub urls json options =
     fold (\<lambda>opt. opt) options
       \<lparr>sv_devices = devices, sv_transfers = transfers, sv_hub = hub, sv_urls = urls, sv_json = json,
        sv_presence = None, sv_idempotencyRedis = None, sv_rateLimiter = None, sv_auth = None,
        sv_authRequired = False, sv_metrics = None, sv_readiness = None\<rparr>"

type_synonym path_values = "string \<Rightarrow> string"

definition transfer_svc ::
  "('t, 'd, 'a, 'p, 'r, 'l) Server \<Rightarrow> http_env \<Rightarrow> ('t, 'd, 'a, 'p) server_state \<Rightarrow> 't transfer_service" where
  "transfer_svc sv env s =
     \<lparr>ts_repo = sv_transfers sv, ts_urls = files_provider (sv_urls sv) (ss_files s) (he_now env)\<rparr>"

section \<open>JSON values\<close>

text \<open>Fields tagged omitempty are left out when they are empty.\<close>

definition omitempty :: "string \<Rightarrow> string \<Rightarrow> (string \<times> json) list" where
  "omitempty name v = (if v = '''' then [] else [(name, JString v)])"

definition device_json :: "Device \<Rightarrow> json" where
  "device_json d = JObject
     [(''id'', JString (dv_ID d)), (''name'', JString (dv_Name d)), (''platform'', JString (dv_Platform d)),
      (''createdAt'', JTime (dv_CreatedAt d))]"

fun status_text :: "Status \<Rightarrow> string" where
  "status_text StatusCreated = ''created''"
| "status_text StatusUploading = ''uploading''"
| "status_text StatusReady = ''ready''"
| "status_text StatusDownloading = ''downloading''"
| "status_text StatusCompleted = ''completed''"
| "status_text StatusFailed = ''failed''"

definition transfer_json :: "Transfer \<Rightarrow> json" where
  "transfer_json t = JObject
     ([(''id'', JString (tr_ID t)), (''sourceDeviceId'', JString (tr_SourceDeviceID t)),
       (''destinationDeviceId'', JString (tr_DestinationDeviceID t)), (''kind'', JString (tr_Kind t)),
       (''status'', JString (status_text (tr_Status t)))] @
      omitempty ''displayName'' (tr_DisplayName t) @
      omitempty ''contentType'' (tr_ContentType t) @
      [(''sizeBytes'', JInt (tr_SizeBytes t)), (''sha256'', JString (tr_SHA256 t))] @
      omitempty ''uploadUrl'' (tr_UploadURL t) @
      omitempty ''downloadUrl'' (tr_DownloadURL t) @
      [(''createdAt'', JTime (tr_CreatedAt t)), (''updatedAt'', JTime (tr_UpdatedAt t))])"

definition pair_json :: "TokenPair \<Rightarrow> json" where
  "pair_json p = JObject
     [(''userId'', JString (tp_UserID p)), (''accessToken'', JString (tp_AccessToken p)),
      (''refreshToken'', JString (tp_RefreshToken p)), (''tokenType'', JString (tp_TokenType p)),
      (''expiresInSeconds'', JInt (tp_ExpiresInSeconds p))]"

section \<open>Error texts\<close>

fun transfer_error_text :: "transfer_error \<Rightarrow> string" where
  "transfer_error_text Tr_ErrNotFound = ''transfer not found''"
| "transfer_error_text Tr_ErrInvalidTransition = ''invalid transfer state transition''"
| "transfer_error_text Tr_ErrInvalidInput = ''invalid transfer input''"
| "transfer_error_text Tr_ErrUploadMissing = ''uploaded object is missing''"
| "transfer_error_text Tr_ErrUploadIntegrity = ''uploaded object failed integrity verification''"
| "transfer_error_text (Tr_Err e) = e"

fun device_error_text :: "device_error \<Rightarrow> string" where
  "device_error_text Dev_ErrNotFound = ''device not found''"
| "device_error_text (Dev_Err e) = e"

fun file_error_text :: "file_error \<Rightarrow> string" where
  "file_error_text ErrInvalidSignature = ''invalid signed URL''"
| "file_error_text ErrExpiredSignature = ''signed URL expired''"
| "file_error_text File_ErrNotFound = ''file not found''"

fun auth_error_text :: "auth_error \<Rightarrow> string" where
  "auth_error_text ErrEmailTaken = ''email already registered''"
| "auth_error_text ErrInvalidCredentials = ''invalid email or password''"
| "auth_error_text ErrInvalidRefresh = ''invalid refresh token''"
| "auth_error_text ErrRefreshReuse = ''refresh token reuse detected''"
| "auth_error_text ErrInvalidAccess = ''invalid access token''"
| "auth_error_text ErrWeakPassword = ''password must be 12-1024 bytes''"
| "auth_error_text ErrInvalidEmail = ''invalid email''"
| "auth_error_text ErrInvalidPasswordHash = ''invalid password hash''"
| "auth_error_text (Auth_Err e) = e"

section \<open>Reading requests\<close>

text \<open>
  http.MaxBytesReader delivers at most the first n bytes and fails when there are more; io.LimitReader ends
  after n bytes. Both otherwise deliver the body and the error it ends in.
\<close>

definition MaxBytesReader :: "int \<Rightarrow> bytes \<times> string option \<Rightarrow> bytes \<times> string option" where
  "MaxBytesReader n b =
     (if int (length (fst b)) > n then (take (nat n) (fst b), Some ''http: request body too large'') else b)"

definition LimitReader :: "int \<Rightarrow> bytes \<times> string option \<Rightarrow> bytes \<times> string option" where
  "LimitReader n b = (if int (length (fst b)) \<ge> n then (take (nat n) (fst b), None) else b)"

definition ReadAll :: "bytes \<times> string option \<Rightarrow> (string, bytes) result" where
  "ReadAll b = (case snd b of None \<Rightarrow> Inr (fst b) | Some e \<Rightarrow> Inl e)"

definition request_body :: "http_request \<Rightarrow> bytes \<times> string option" where
  "request_body r = (rq_Body r, rq_BodyError r)"

definition decode :: "'i decoder \<Rightarrow> http_request \<Rightarrow> (string, 'i) result" where
  "decode dec r =
     (if \<not> HasPrefix (header_Get (rq_Header r) ''Content-Type'') ''application/json''
      then Inl ''content-type must be application/json''
      else let (b, e) = MaxBytesReader (2 ^ 20) (request_body r) in dec b e)"

section \<open>The handlers of server.go\<close>

definition health :: "writer_op list" where
  "health = writeJSON 200 (JObject [(''status'', JString ''ok'')])"

definition h_listDevices ::
  "('t, 'd, 'a, 'p, 'r, 'l) Server \<Rightarrow> http_env \<Rightarrow> ('t, 'd, 'a, 'p) server_state handler" where
  "h_listDevices sv env r s =
     (case devices_List (sv_devices sv) (rq_ctx r) (he_keys env) (ss_devices s) of
        (Inl e, d) \<Rightarrow> (writeError 500 ''internal_error'' ''could not list devices'', s\<lparr>ss_devices := d\<rparr>)
      | (Inr items, d) \<Rightarrow> (writeJSON 200 (JList (map device_json items)), s\<lparr>ss_devices := d\<rparr>))"

definition h_registerDevice ::
  "('t, 'd, 'a, 'p, 'r, 'l) Server \<Rightarrow> http_env \<Rightarrow> ('t, 'd, 'a, 'p) server_state handler" where
  "h_registerDevice sv env r s =
     (case decode (jl_RegisterInput (sv_json sv)) r of
        Inl e \<Rightarrow> (writeError 400 ''invalid_request'' e, s)
      | Inr inp \<Rightarrow>
          (case devices_Register (sv_devices sv) (he_now env) (he_rnd env) (rq_ctx r) inp (ss_devices s) of
             (Inl e, d) \<Rightarrow> (writeError 400 ''invalid_device'' (device_error_text e), s\<lparr>ss_devices := d\<rparr>)
           | (Inr dev, d) \<Rightarrow> (writeJSON 201 (device_json dev), s\<lparr>ss_devices := d\<rparr>)))"

definition h_updateDevicePushToken ::
  "('t, 'd, 'a, 'p, 'r, 'l) Server \<Rightarrow> path_values \<Rightarrow> ('t, 'd, 'a, 'p) server_state handler" where
  "h_updateDevicePushToken sv pv r s =
     (case decode (jl_PushTokenInput (sv_json sv)) r of
        Inl e \<Rightarrow> (writeError 400 ''invalid_request'' e, s)
      | Inr tok \<Rightarrow>
          (case devices_UpdatePushToken (sv_devices sv) (rq_ctx r) (pv ''deviceId'') tok (ss_devices s) of
             (Inr dev, d) \<Rightarrow> (writeJSON 200 (device_json dev), s\<lparr>ss_devices := d\<rparr>)
           | (Inl Dev_ErrNotFound, d) \<Rightarrow>
               (writeError 404 ''not_found'' ''device not found'', s\<lparr>ss_devices := d\<rparr>)
           | (Inl (Dev_Err e), d) \<Rightarrow> (writeError 400 ''invalid_push_token'' e, s\<lparr>ss_devices := d\<rparr>)))"

definition h_deleteDevice ::
  "('t, 'd, 'a, 'p, 'r, 'l) Server \<Rightarrow> path_values \<Rightarrow> ('t, 'd, 'a, 'p) server_state handler" where
  "h_deleteDevice sv pv r s =
     (case devices_Delete (sv_devices sv) (rq_ctx r) (pv ''deviceId'') (ss_devices s) of
        (Inr _, d) \<Rightarrow> ([WriteHeader 204], s\<lparr>ss_devices := d\<rparr>)
      | (Inl Dev_ErrNotFound, d) \<Rightarrow>
          (writeError 404 ''not_found'' ''device not found'', s\<lparr>ss_devices := d\<rparr>)
      | (Inl (Dev_Err e), d) \<Rightarrow>
          (writeError 500 ''internal_error'' ''could not delete device'', s\<lparr>ss_devices := d\<rparr>))"

definition h_getPresence ::
  "('t, 'd, 'a, 'p, 'r, 'l) Server \<Rightarrow> 'p presence_iface \<Rightarrow> http_env \<Rightarrow> path_values \<Rightarrow>
   ('t, 'd, 'a, 'p) server_state handler" where
  "h_getPresence sv presence env pv r s =
     (let deviceID = pv ''deviceId'' in
      case devices_Get (sv_devices sv) (rq_ctx r) deviceID (ss_devices s) of
        (Inl e, d) \<Rightarrow> (writeError 404 ''not_found'' ''device not found'', s\<lparr>ss_devices := d\<rparr>)
      | (Inr _, d) \<Rightarrow>
          (case ps_IsOnline presence (he_now env) deviceID (ss_presence s) of
             (Inl e, p) \<Rightarrow>
               (writeError 503 ''presence_unavailable'' ''presence service is unavailable'',
                s\<lparr>ss_devices := d, ss_presence := p\<rparr>)
           | (Inr online, p) \<Rightarrow>
               (writeJSON 200 (JObject [(''deviceId'', JString deviceID), (''online'', JBool online)]),
                s\<lparr>ss_devices := d, ss_presence := p\<rparr>)))"

definition h_events :: "('t, 'd, 'a, 'p, 'r, 'l) Server \<Rightarrow> ('t, 'd, 'a, 'p) server_state handler" where
  "h_events sv r s =
     (let deviceID = rq_Query r ''deviceId'' in
      if deviceID = ''''
      then (writeError 400 ''device_required'' ''deviceId query parameter is required'', s)
      else
        case devices_Get (sv_devices sv) (rq_ctx r) deviceID (ss_devices s) of
          (Inl e, d) \<Rightarrow> (writeError 404 ''not_found'' ''device not found'', s\<lparr>ss_devices := d\<rparr>)
        | (Inr _, d) \<Rightarrow> (sv_hub sv r, s\<lparr>ss_devices := d\<rparr>))"

definition h_listTransfers ::
  "('t, 'd, 'a, 'p, 'r, 'l) Server \<Rightarrow> http_env \<Rightarrow> ('t, 'd, 'a, 'p) server_state handler" where
  "h_listTransfers sv env r s =
     (case transfers_List (transfer_svc sv env s) (rq_ctx r) (he_keys env) (ss_transfers s) of
        (Inl e, t) \<Rightarrow> (writeError 500 ''internal_error'' ''could not list transfers'', s\<lparr>ss_transfers := t\<rparr>)
      | (Inr items, t) \<Rightarrow> (writeJSON 200 (JList (map transfer_json items)), s\<lparr>ss_transfers := t\<rparr>))"

definition h_createTransfer ::
  "('t, 'd, 'a, 'p, 'r, 'l) Server \<Rightarrow> http_env \<Rightarrow> ('t, 'd, 'a, 'p) server_state handler" where
  "h_createTransfer sv env r s =
     (case decode (jl_CreateInput (sv_json sv)) r of
        Inl e \<Rightarrow> (writeError 400 ''invalid_request'' e, s)
      | Inr inp \<Rightarrow>
          (case transfers_Create (transfer_svc sv env s) (he_now env) (he_rnd env) (rq_ctx r) inp
                  (ss_transfers s) of
             (Inl e, t) \<Rightarrow>
               (writeError 400 ''invalid_transfer'' (transfer_error_text e), s\<lparr>ss_transfers := t\<rparr>)
           | (Inr tr, t) \<Rightarrow> (writeJSON 201 (transfer_json tr), s\<lparr>ss_transfers := t\<rparr>)))"

definition h_getTransfer ::
  "('t, 'd, 'a, 'p, 'r, 'l) Server \<Rightarrow> http_env \<Rightarrow> path_values \<Rightarrow> ('t, 'd, 'a, 'p) server_state handler" where
  "h_getTransfer sv env pv r s =
     (case transfers_Get (transfer_svc sv env s) (rq_ctx r) (pv ''transferId'') (ss_transfers s) of
        (Inl e, t) \<Rightarrow> (writeError 404 ''not_found'' ''transfer not found'', s\<lparr>ss_transfers := t\<rparr>)
      | (Inr tr, t) \<Rightarrow> (writeJSON 200 (transfer_json tr), s\<lparr>ss_transfers := t\<rparr>))"

fun writeTransferResult :: "(transfer_error, Transfer) result \<Rightarrow> writer_op list" where
  "writeTransferResult (Inr t) = writeJSON 200 (transfer_json t)"
| "writeTransferResult (Inl Tr_ErrNotFound) = writeError 404 ''not_found'' ''transfer not found''"
| "writeTransferResult (Inl Tr_ErrInvalidTransition) =
     writeError 409 ''invalid_transition'' (transfer_error_text Tr_ErrInvalidTransition)"
| "writeTransferResult (Inl Tr_ErrUploadMissing) =
     writeError 409 ''upload_missing'' ''payload has not been uploaded''"
| "writeTransferResult (Inl Tr_ErrUploadIntegrity) =
     writeError 422 ''upload_integrity_failed'' (transfer_error_text Tr_ErrUploadIntegrity)"
| "writeTransferResult (Inl e) = writeError 500 ''internal_error'' ''transfer update failed''"

definition h_markUploaded ::
  "('t, 'd, 'a, 'p, 'r, 'l) Server \<Rightarrow> http_env \<Rightarrow> path_values \<Rightarrow> ('t, 'd, 'a, 'p) server_state handler" where
  "h_markUploaded sv env pv r s =
     (case transfers_MarkUploaded (transfer_svc sv env s) (he_now env) (rq_ctx r) (pv ''transferId'')
             (ss_transfers s) of
        ((res, t), pubs) \<Rightarrow>
          (writeTransferResult res, s\<lparr>ss_transfers := t, ss_published := ss_published s @ pubs\<rparr>))"

definition h_complete ::
  "('t, 'd, 'a, 'p, 'r, 'l) Server \<Rightarrow> http_env \<Rightarrow> path_values \<Rightarrow> ('t, 'd, 'a, 'p) server_state handler" where
  "h_complete sv env pv r s =
     (case transfers_Complete (transfer_svc sv env s) (he_now env) (rq_ctx r) (pv ''transferId'')
             (ss_transfers s) of
        ((res, t), pubs) \<Rightarrow>
          (writeTransferResult res, s\<lparr>ss_transfers := t, ss_published := ss_published s @ pubs\<rparr>))"

section \<open>The development payload adapter\<close>

definition maxDevBlobBytes :: int where "maxDevBlobBytes = 64 * 2 ^ 20"

definition h_devUpload ::
  "('t, 'd, 'a, 'p, 'r, 'l) Server \<Rightarrow> http_env \<Rightarrow> path_values \<Rightarrow> ('t, 'd, 'a, 'p) server_state handler" where
  "h_devUpload sv env pv r s =
     (if \<not> files_IsLocal (ss_files s)
      then (writeError 404 ''not_found'' ''local upload adapter is disabled'', s)
      else
        let transferID = pv ''transferId'' in
        case files_Verify (ss_files s) (he_now env) ''upload'' transferID (rq_Query r ''exp'')
               (rq_Query r ''sig'') of
          Inl e \<Rightarrow> (writeError 403 ''invalid_upload_url'' (file_error_text e), s)
        | Inr _ \<Rightarrow>
            (case transfers_Get (transfer_svc sv env s) (rq_ctx r) transferID (ss_transfers s) of
               (Inl e, t) \<Rightarrow> (writeError 404 ''not_found'' ''transfer not found'', s\<lparr>ss_transfers := t\<rparr>)
             | (Inr tr, t) \<Rightarrow>
                 let s = s\<lparr>ss_transfers := t\<rparr> in
                 if tr_Status tr \<noteq> StatusUploading
                 then (writeError 409 ''invalid_transition'' ''transfer is not accepting uploads'', s)
                 else if tr_SizeBytes tr > maxDevBlobBytes
                 then (writeError 413 ''dev_blob_too_large''
                         ''local in-memory adapter is limited to 64 MiB'', s)
                 else
                   case ReadAll (LimitReader (wrap64 (tr_SizeBytes tr + 1)) (request_body r)) of
                     Inl e \<Rightarrow> (writeError 400 ''invalid_upload'' ''could not read upload'', s)
                   | Inr payload \<Rightarrow>
                       if int (length payload) \<noteq> tr_SizeBytes tr
                       then (writeError 422 ''size_mismatch''
                               ''uploaded byte count does not match transfer metadata'', s)
                       else
                         let actualChecksum = hex_EncodeToString (sha256_Sum256 payload) in
                         if \<not> EqualFold actualChecksum (tr_SHA256 tr)
                         then (writeError 422 ''checksum_mismatch''
                                 ''uploaded payload failed SHA-256 verification'', s)
                         else ([WriteHeader 204], s\<lparr>ss_files := files_Put transferID payload (ss_files s)\<rparr>)))"

definition h_devDownload ::
  "('t, 'd, 'a, 'p, 'r, 'l) Server \<Rightarrow> http_env \<Rightarrow> path_values \<Rightarrow> ('t, 'd, 'a, 'p) server_state handler" where
  "h_devDownload sv env pv r s =
     (if \<not> files_IsLocal (ss_files s)
      then (writeError 404 ''not_found'' ''local download adapter is disabled'', s)
      else
        let transferID = pv ''transferId'' in
        case files_Verify (ss_files s) (he_now env) ''download'' transferID (rq_Query r ''exp'')
               (rq_Query r ''sig'') of
          Inl e \<Rightarrow> (writeError 403 ''invalid_download_url'' (file_error_text e), s)
        | Inr _ \<Rightarrow>
            (case transfers_Get (transfer_svc sv env s) (rq_ctx r) transferID (ss_transfers s) of
               (Inl e, t) \<Rightarrow> (writeError 404 ''not_found'' ''transfer not found'', s\<lparr>ss_transfers := t\<rparr>)
             | (Inr tr, t) \<Rightarrow>
                 let s = s\<lparr>ss_transfers := t\<rparr> in
                 if tr_Status tr \<noteq> StatusReady \<and> tr_Status tr \<noteq> StatusDownloading \<and>
                    tr_Status tr \<noteq> StatusCompleted
                 then (writeError 409 ''invalid_transition'' ''transfer is not ready for download'', s)
                 else
                   case files_Get transferID (ss_files s) of
                     Inl e \<Rightarrow> (writeError 404 ''payload_not_found'' ''transfer payload is unavailable'', s)
                   | Inr payload \<Rightarrow>
                       let contentType = (if tr_ContentType tr = '''' then ''application/octet-stream''
                                          else tr_ContentType tr) in
                       ([SetHeader ''Content-Type'' contentType,
                         SetHeader ''Content-Length'' (FormatInt (int (length payload))),
                         SetHeader ''Cache-Control'' ''private, no-store'',
                         WriteHeader 200,
                         Write (Raw payload)], s)))"

section \<open>The handlers of auth\_handlers.go\<close>

definition h_authRegister ::
  "('t, 'd, 'a, 'p, 'r, 'l) Server \<Rightarrow> 'a auth_Service \<Rightarrow> http_env \<Rightarrow> ('t, 'd, 'a, 'p) server_state handler" where
  "h_authRegister sv service env r s =
     (case decode (jl_Credentials (sv_json sv)) r of
        Inl e \<Rightarrow> (writeError 400 ''invalid_request'' e, s)
      | Inr inp \<Rightarrow>
          (case auth_Register service (he_auth env) inp (ss_auth s) of
             (res, a) \<Rightarrow>
               ((case res of
                   Inr pair \<Rightarrow> writeJSON 201 (pair_json pair)
                 | Inl ErrEmailTaken \<Rightarrow> writeError 409 ''email_taken'' ''email is already registered''
                 | Inl ErrWeakPassword \<Rightarrow>
                     writeError 400 ''weak_password'' (auth_error_text ErrWeakPassword)
                 | Inl ErrInvalidEmail \<Rightarrow>
                     writeError 400 ''invalid_email'' (auth_error_text ErrInvalidEmail)
                 | Inl _ \<Rightarrow> writeError 500 ''internal_error'' ''could not create account''),
                s\<lparr>ss_auth := a\<rparr>)))"

definition h_authLogin ::
  "('t, 'd, 'a, 'p, 'r, 'l) Server \<Rightarrow> 'a auth_Service \<Rightarrow> http_env \<Rightarrow> ('t, 'd, 'a, 'p) server_state handler" where
  "h_authLogin sv service env r s =
     (case decode (jl_Credentials (sv_json sv)) r of
        Inl e \<Rightarrow> (writeError 400 ''invalid_request'' e, s)
      | Inr inp \<Rightarrow>
          (case auth_Login service (he_auth env) inp (ss_auth s) of
             (res, a) \<Rightarrow>
               ((case res of
                   Inr pair \<Rightarrow> writeJSON 200 (pair_json pair)
                 | Inl ErrInvalidCredentials \<Rightarrow>
                     writeError 401 ''invalid_credentials'' ''invalid email or password''
                 | Inl _ \<Rightarrow> writeError 500 ''internal_error'' ''could not log in''),
                s\<lparr>ss_auth := a\<rparr>)))"

definition h_authRefresh ::
  "('t, 'd, 'a, 'p, 'r, 'l) Server \<Rightarrow> 'a auth_Service \<Rightarrow> http_env \<Rightarrow> ('t, 'd, 'a, 'p) server_state handler" where
  "h_authRefresh sv service env r s =
     (case decode (jl_RefreshRequest (sv_json sv)) r of
        Inl e \<Rightarrow> (writeError 400 ''invalid_request'' e, s)
      | Inr tok \<Rightarrow>
          (case auth_Refresh service (he_auth env) tok (ss_auth s) of
             (res, a) \<Rightarrow>
               ((case res of
                   Inr pair \<Rightarrow> writeJSON 200 (pair_json pair)
                 | Inl ErrRefreshReuse \<Rightarrow>
                     writeError 401 ''refresh_reuse_detected'' ''refresh token family has been revoked''
                 | Inl ErrInvalidRefresh \<Rightarrow>
                     writeError 401 ''invalid_refresh'' ''refresh token is invalid or expired''
                 | Inl _ \<Rightarrow> writeError 500 ''internal_error'' ''could not refresh session''),
                s\<lparr>ss_auth := a\<rparr>)))"

end
