(* ===== verification/Routes.thy ===== *)
theory Routes
  imports Handlers
begin

text \<open>
  The route table of New in \<^verbatim>\<open>httpapi/server.go\<close> and what http.ServeMux does with it, for paths that are clean
  and carry no percent-escape (net/http redirects the others before any handler runs).
\<close>

section \<open>Patterns\<close>

text \<open>
  A pattern and a path are compared segment by segment: a segment in braces takes any non-empty segment, and
  its value is what PathValue returns; every other segment stands for itself.
\<close>

definition is_wildcard :: "string \<Rightarrow> bool" where
  "is_wildcard p \<longleftrightarrow> HasPrefix p ''{'' \<and> HasSuffix p ''}''"

definition wildcard_name :: "string \<Rightarrow> string" where
  "wildcard_name p = butlast (tl p)"

fun match_segments :: "string list \<Rightarrow> string list \<Rightarrow> (string \<times> string) list option" where
  "match_segments [] [] = Some []"
| "match_segments (p # ps) (x # xs) =
     (if is_wildcard p
      then if x = '''' then None
           else (case match_segments ps xs of None \<Rightarrow> None | Some b \<Rightarrow> Some ((wildcard_name p, x) # b))
      else if p = x then match_segments ps xs else None)"
| "match_segments _ _ = None"

definition match_path :: "string \<Rightarrow> string \<Rightarrow> (string \<times> string) list option" where
  "match_path pattern path = match_segments (Split (CHR ''/'') pattern) (Split (CHR ''/'') path)"

text \<open>A pattern for GET also takes HEAD.\<close>

definition method_matches :: "string \<Rightarrow> string \<Rightarrow> bool" where
  "method_matches pm m \<longleftrightarrow> pm = m \<or> pm = ''GET'' \<and> m = ''HEAD''"

section \<open>The multiplexer\<close>

type_synonym 's route = "string \<times> string \<times> (path_values \<Rightarrow> 's handler)"

definition path_values_of :: "(string \<times> string) list \<Rightarrow> path_values" where
  "path_values_of b k = (case map_of b k of None \<Rightarrow> '''' | Some v \<Rightarrow> v)"

fun find_route :: "'s route list \<Rightarrow> string \<Rightarrow> string \<Rightarrow> 's handler option" where
  "find_route [] m path = None"
| "find_route ((pm, pattern, h) # rs) m path =
     (case match_path pattern path of
        Some b \<Rightarrow> if method_matches pm m then Some (h (path_values_of b)) else find_route rs m path
      | None \<Rightarrow> find_route rs m path)"

definition allowed_methods :: "'s route list \<Rightarrow> string \<Rightarrow> string list" where
  "allowed_methods rs path =
     filter (\<lambda>m. find_route rs m path \<noteq> None) [''DELETE'', ''GET'', ''HEAD'', ''POST'', ''PUT'']"

text \<open>strings.Join with a comma and a space, and http.Error.\<close>

fun join_comma :: "string list \<Rightarrow> string" where
  "join_comma [] = ''''"
| "join_comma [x] = x"
| "join_comma (x # xs) = x @ '', '' @ join_comma xs"

definition http_Error :: "string \<Rightarrow> int \<Rightarrow> writer_op list" where
  "http_Error msg code =
     [SetHeader ''Content-Type'' ''text/plain; charset=utf-8'',
      SetHeader ''X-Content-Type-Options'' ''nosniff'',
      WriteHeader code,
      Write (Raw (msg @ [CHR 0x0A]))]"

definition serve_mux :: "'s route list \<Rightarrow> 's handler" where
  "serve_mux rs r s =
     (case find_route rs (rq_Method r) (rq_Path r) of
        Some h \<Rightarrow> h r s
      | None \<Rightarrow>
          (case allowed_methods rs (rq_Path r) of
             [] \<Rightarrow> (http_Error ''404 page not found'' 404, s)
           | ms \<Rightarrow> (SetHeader ''Allow'' (join_comma ms) # http_Error ''Method Not Allowed'' 405, s)))"

section \<open>The routes of New\<close>

definition mux_routes ::
  "('t, 'd, 'a, 'p, 'r, 'l) Server \<Rightarrow> http_env \<Rightarrow> ('t, 'd, 'a, 'p) server_state route list" where
  "mux_routes sv env =
     [(''GET'', ''/health'', \<lambda>pv r s. (health, s))] @
     (case sv_metrics sv of None \<Rightarrow> [] | Some h \<Rightarrow> [(''GET'', ''/metrics'', \<lambda>pv r s. (h r, s))]) @
     (case sv_readiness sv of None \<Rightarrow> [] | Some h \<Rightarrow> [(''GET'', ''/ready'', \<lambda>pv r s. (h r, s))]) @
     (case sv_auth sv of None \<Rightarrow> [] | Some a \<Rightarrow>
       [(''POST'', ''/v1/auth/register'', \<lambda>pv. h_authRegister sv a env),
        (''POST'', ''/v1/auth/login'', \<lambda>pv. h_authLogin sv a env),
        (''POST'', ''/v1/auth/refresh'', \<lambda>pv. h_authRefresh sv a env)]) @
     [(''GET'', ''/v1/devices'', \<lambda>pv. h_listDevices sv env),
      (''POST'', ''/v1/devices'', \<lambda>pv. h_registerDevice sv env),
      (''PUT'', ''/v1/devices/{deviceId}/push-token'', h_updateDevicePushToken sv),
      (''DELETE'', ''/v1/devices/{deviceId}'', h_deleteDevice sv),
      (''GET'', ''/v1/transfers'', \<lambda>pv. h_listTransfers sv env),
      (''POST'', ''/v1/transfers'', \<lambda>pv. h_createTransfer sv env),
      (''GET'', ''/v1/transfers/{transferId}'', h_getTransfer sv env),
      (''POST'', ''/v1/transfers/{transferId}/uploaded'', h_markUploaded sv env),
      (''POST'', ''/v1/transfers/{transferId}/complete'', h_complete sv env),
      (''GET'', ''/v1/events'', \<lambda>pv. h_events sv)] @
     (case sv_presence sv of None \<Rightarrow> [] | Some p \<Rightarrow>
       [(''GET'', ''/v1/presence/{deviceId}'', h_getPresence sv p env)]) @
     [(''PUT'', ''/dev-upload/{transferId}'', h_devUpload sv env),
      (''GET'', ''/dev-download/{transferId}'', h_devDownload sv env)]"

text \<open>
  What New wraps around the mux: rate limiting when there is a limiter, and outermost bearer authentication
  when it is required. The idempotency middleware between the two is a machine over concurrent requests; it
  is put between them in the theory ServerStack.
\<close>

definition rate_limited_mux ::
  "('t, 'd, 'a, 'p, 'r, 'l) Server \<Rightarrow> http_env \<Rightarrow> ('l \<times> ('t, 'd, 'a, 'p) server_state) handler" where
  "rate_limited_mux sv env =
     (case sv_rateLimiter sv of
        None \<Rightarrow> (\<lambda>r (l, s). let (ops, s') = serve_mux (mux_routes sv env) r s in (ops, (l, s')))
      | Some limiter \<Rightarrow> withRateLimit (lm_Allow limiter env) (serve_mux (mux_routes sv env)))"

definition authenticated ::
  "('t, 'd, 'a, 'p, 'r, 'l) Server \<Rightarrow> http_env \<Rightarrow> 's handler \<Rightarrow> 's handler" where
  "authenticated sv env nxt =
     (case sv_auth sv of
        Some service \<Rightarrow>
          if sv_authRequired sv then withAuthentication service (he_now env) nxt else nxt
      | None \<Rightarrow> nxt)"

end
