(* ===== verification/HandlerProps.thy ===== *)
theory HandlerProps
  imports Routes TransferMemory TransferLemmas
begin

text \<open>
  What the HTTP server promises over any repositories that keep their contracts: a failed request changes
  nothing (the locale api_server), and the life of a payload through the development adapter.
\<close>

section \<open>Responses\<close>

lemma status_http_Error [simp]: "status_of (http_Error msg n) = n"
  by (simp add: http_Error_def)

lemma status_rate_limit_headers [simp]: "status_of (rate_limit_headers d @ ops) = status_of ops"
  by (simp add: rate_limit_headers_def)

lemma writeTransferResult_error: "400 \<le> status_of (writeTransferResult (Inl e))"
  by (cases e) simp_all

lemma find_route_handler:
  assumes "find_route rs m path = Some h"
  shows "\<exists>pm pattern k b. (pm, pattern, k) \<in> set rs \<and> h = k b"
  using assms
proof (induction rs)
  case (Cons x rs)
  obtain pm pattern k where x: "x = (pm, pattern, k)" by (cases x)
  show ?case
  proof (cases "\<exists>b. match_path pattern path = Some b \<and> method_matches pm m")
    case True
    with Cons.prems x show ?thesis by fastforce
  next
    case False
    with Cons.prems x have "find_route rs m path = Some h" by (auto split: option.splits)
    with Cons.IH show ?thesis by fastforce
  qed
qed simp

section \<open>The server over contracts\<close>

locale api_server =
  tr: transfer_store "sv_transfers sv" table tinv + dv: device_store "sv_devices sv" dtable dinv
  for sv :: "('t, 'd, 'a, 'p, 'r, 'l) Server" and table tinv dtable dinv
begin

definition api_inv :: "('t, 'd, 'a, 'p) server_state \<Rightarrow> bool" where
  "api_inv s \<longleftrightarrow> tinv (ss_transfers s) \<and> dinv (ss_devices s)"

definition same_data ::
  "('t, 'd, 'a, 'p) server_state \<Rightarrow> ('t, 'd, 'a, 'p) server_state \<Rightarrow> bool" where
  "same_data s s' \<longleftrightarrow>
     table (ss_transfers s') = table (ss_transfers s) \<and> dtable (ss_devices s') = dtable (ss_devices s) \<and>
     ss_files s' = ss_files s \<and> ss_published s' = ss_published s"

text \<open>A handler keeps the invariant, and changes the data only when it answers below 400.\<close>

definition sound_handler :: "('t, 'd, 'a, 'p) server_state handler \<Rightarrow> bool" where
  "sound_handler h \<longleftrightarrow>
     (\<forall>r s ops s'. api_inv s \<longrightarrow> h r s = (ops, s') \<longrightarrow>
        api_inv s' \<and> (400 \<le> status_of ops \<longrightarrow> same_data s s'))"

lemma sound_handlerI:
  "(\<And>r s ops s'. api_inv s \<Longrightarrow> h r s = (ops, s') \<Longrightarrow>
      api_inv s' \<and> (400 \<le> status_of ops \<longrightarrow> same_data s s')) \<Longrightarrow> sound_handler h"
  by (simp add: sound_handler_def)

lemma sound_pure: "sound_handler (\<lambda>r s. (f r, s))"
  by (auto simp: sound_handler_def same_data_def)

lemma transfer_svc_repo [simp]: "ts_repo (transfer_svc sv env s) = sv_transfers sv"
  by (simp add: transfer_svc_def)

lemma sound_listDevices: "sound_handler (h_listDevices sv env)"
proof (rule sound_handlerI)
  fix r s ops s'
  assume a: "api_inv s" "h_listDevices sv env r s = (ops, s')"
  obtain q d where q: "dvr_List (sv_devices sv) (rq_ctx r) (he_keys env) (ss_devices s) = (q, d)"
    by fastforce
  from dv.List_frame [OF _ q] a q show "api_inv s' \<and> (400 \<le> status_of ops \<longrightarrow> same_data s s')"
    by (auto simp: h_listDevices_def devices_List_def api_inv_def same_data_def split: sum.splits)
qed

lemma sound_registerDevice: "sound_handler (h_registerDevice sv env)"
proof (rule sound_handlerI)
  fix r s ops s'
  assume a: "api_inv s" "h_registerDevice sv env r s = (ops, s')"
  show "api_inv s' \<and> (400 \<le> status_of ops \<longrightarrow> same_data s s')"
  proof (cases "decode (jl_RegisterInput (sv_json sv)) r")
    case (Inl e)
    with a show ?thesis by (auto simp: h_registerDevice_def same_data_def)
  next
    case (Inr inp)
    obtain q d where q: "devices_Register (sv_devices sv) (he_now env) (he_rnd env) (rq_ctx r) inp
        (ss_devices s) = (q, d)" by fastforce
    from dv.Register_table [OF _ q] a q Inr show ?thesis
      by (auto simp: h_registerDevice_def api_inv_def same_data_def split: sum.splits)
  qed
qed

lemma sound_updateDevicePushToken: "sound_handler (h_updateDevicePushToken sv pv)"
proof (rule sound_handlerI)
  fix r s ops s'
  assume a: "api_inv s" "h_updateDevicePushToken sv pv r s = (ops, s')"
  show "api_inv s' \<and> (400 \<le> status_of ops \<longrightarrow> same_data s s')"
  proof (cases "decode (jl_PushTokenInput (sv_json sv)) r")
    case (Inl e)
    with a show ?thesis by (auto simp: h_updateDevicePushToken_def same_data_def)
  next
    case (Inr tok)
    obtain q d where q: "devices_UpdatePushToken (sv_devices sv) (rq_ctx r) (pv ''deviceId'') tok
        (ss_devices s) = (q, d)" by fastforce
    from dv.UpdatePushToken_table [OF _ q] a q Inr show ?thesis
      by (auto simp: h_updateDevicePushToken_def api_inv_def same_data_def
          split: sum.splits device_error.splits)
  qed
qed

lemma sound_deleteDevice: "sound_handler (h_deleteDevice sv pv)"
proof (rule sound_handlerI)
  fix r s ops s'
  assume a: "api_inv s" "h_deleteDevice sv pv r s = (ops, s')"
  obtain q d where q: "dvr_Delete (sv_devices sv) (rq_ctx r) (pv ''deviceId'') (ss_devices s) = (q, d)"
    by fastforce
  from dv.Delete_spec [OF _ q] a q show "api_inv s' \<and> (400 \<le> status_of ops \<longrightarrow> same_data s s')"
    by (auto simp: h_deleteDevice_def devices_Delete_def api_inv_def same_data_def
        split: sum.splits device_error.splits option.splits)
qed

lemma Get_device_frame:
  "dinv d \<Longrightarrow> devices_Get (sv_devices sv) c i d = (q, d') \<Longrightarrow> dinv d' \<and> dtable d' = dtable d"
  using dv.Get_spec by (simp add: devices_Get_def)

lemma sound_getPresence: "sound_handler (h_getPresence sv p env pv)"
proof (rule sound_handlerI)
  fix r s ops s'
  assume a: "api_inv s" "h_getPresence sv p env pv r s = (ops, s')"
  obtain q d where q: "devices_Get (sv_devices sv) (rq_ctx r) (pv ''deviceId'') (ss_devices s) = (q, d)"
    by fastforce
  obtain q' p' where q': "ps_IsOnline p (he_now env) (pv ''deviceId'') (ss_presence s) = (q', p')"
    by fastforce
  from Get_device_frame [OF _ q] a q q'
  show "api_inv s' \<and> (400 \<le> status_of ops \<longrightarrow> same_data s s')"
    by (auto simp: h_getPresence_def Let_def api_inv_def same_data_def split: sum.splits)
qed

lemma sound_events: "sound_handler (h_events sv)"
proof (rule sound_handlerI)
  fix r s ops s'
  assume a: "api_inv s" "h_events sv r s = (ops, s')"
  obtain q d where q: "devices_Get (sv_devices sv) (rq_ctx r) (rq_Query r ''deviceId'') (ss_devices s) = (q, d)"
    by fastforce
  from Get_device_frame [OF _ q] a q
  show "api_inv s' \<and> (400 \<le> status_of ops \<longrightarrow> same_data s s')"
    by (auto simp: h_events_def Let_def api_inv_def same_data_def split: sum.splits if_splits)
qed

lemma sound_listTransfers: "sound_handler (h_listTransfers sv env)"
proof (rule sound_handlerI)
  fix r s ops s'
  assume a: "api_inv s" "h_listTransfers sv env r s = (ops, s')"
  obtain q t where q: "trp_List (sv_transfers sv) (rq_ctx r) (he_keys env) (ss_transfers s) = (q, t)"
    by fastforce
  from tr.List_frame [OF _ q] a q show "api_inv s' \<and> (400 \<le> status_of ops \<longrightarrow> same_data s s')"
    by (auto simp: h_listTransfers_def transfers_List_def api_inv_def same_data_def split: sum.splits)
qed

lemma sound_createTransfer: "sound_handler (h_createTransfer sv env)"
proof (rule sound_handlerI)
  fix r s ops s'
  assume a: "api_inv s" "h_createTransfer sv env r s = (ops, s')"
  show "api_inv s' \<and> (400 \<le> status_of ops \<longrightarrow> same_data s s')"
  proof (cases "decode (jl_CreateInput (sv_json sv)) r")
    case (Inl e)
    with a show ?thesis by (auto simp: h_createTransfer_def same_data_def)
  next
    case (Inr inp)
    obtain q t where q: "transfers_Create (transfer_svc sv env s) (he_now env) (he_rnd env) (rq_ctx r) inp
        (ss_transfers s) = (q, t)" by fastforce
    from tr.Create_table [OF _ transfer_svc_repo q] a q Inr show ?thesis
      by (auto simp: h_createTransfer_def api_inv_def same_data_def split: sum.splits)
  qed
qed

lemma Get_transfer_frame:
  "tinv t \<Longrightarrow> transfers_Get (transfer_svc sv env s) c i t = (q, t') \<Longrightarrow> tinv t' \<and> table t' = table t"
  using tr.Get_table [of t "transfer_svc sv env s"] by simp

lemma sound_getTransfer: "sound_handler (h_getTransfer sv env pv)"
proof (rule sound_handlerI)
  fix r s ops s'
  assume a: "api_inv s" "h_getTransfer sv env pv r s = (ops, s')"
  obtain q t where q: "transfers_Get (transfer_svc sv env s) (rq_ctx r) (pv ''transferId'')
      (ss_transfers s) = (q, t)" by fastforce
  from Get_transfer_frame [OF _ q] a q
  show "api_inv s' \<and> (400 \<le> status_of ops \<longrightarrow> same_data s s')"
    by (auto simp: h_getTransfer_def api_inv_def same_data_def split: sum.splits)
qed

lemma sound_markUploaded: "sound_handler (h_markUploaded sv env pv)"
proof (rule sound_handlerI)
  fix r s ops s'
  assume a: "api_inv s" "h_markUploaded sv env pv r s = (ops, s')"
  obtain q t pubs where q: "transfers_MarkUploaded (transfer_svc sv env s) (he_now env) (rq_ctx r)
      (pv ''transferId'') (ss_transfers s) = ((q, t), pubs)" by (metis prod.collapse)
  from tr.MarkUploaded_table [OF _ transfer_svc_repo q] a q
  show "api_inv s' \<and> (400 \<le> status_of ops \<longrightarrow> same_data s s')"
    by (cases q) (auto simp: h_markUploaded_def api_inv_def same_data_def)
qed

lemma sound_complete: "sound_handler (h_complete sv env pv)"
proof (rule sound_handlerI)
  fix r s ops s'
  assume a: "api_inv s" "h_complete sv env pv r s = (ops, s')"
  obtain q t pubs where q: "transfers_Complete (transfer_svc sv env s) (he_now env) (rq_ctx r)
      (pv ''transferId'') (ss_transfers s) = ((q, t), pubs)" by (metis prod.collapse)
  from tr.Complete_table [OF _ transfer_svc_repo q] a q
  show "api_inv s' \<and> (400 \<le> status_of ops \<longrightarrow> same_data s s')"
    by (cases q) (auto simp: h_complete_def api_inv_def same_data_def)
qed

lemma sound_devUpload: "sound_handler (h_devUpload sv env pv)"
proof (rule sound_handlerI)
  fix r s ops s'
  assume a: "api_inv s" "h_devUpload sv env pv r s = (ops, s')"
  obtain q t where q: "transfers_Get (transfer_svc sv env s) (rq_ctx r) (pv ''transferId'')
      (ss_transfers s) = (q, t)" by fastforce
  from Get_transfer_frame [OF _ q] a q
  show "api_inv s' \<and> (400 \<le> status_of ops \<longrightarrow> same_data s s')"
    by (auto simp: h_devUpload_def Let_def api_inv_def same_data_def split: sum.splits if_splits)
qed

lemma sound_devDownload: "sound_handler (h_devDownload sv env pv)"
proof (rule sound_handlerI)
  fix r s ops s'
  assume a: "api_inv s" "h_devDownload sv env pv r s = (ops, s')"
  obtain q t where q: "transfers_Get (transfer_svc sv env s) (rq_ctx r) (pv ''transferId'')
      (ss_transfers s) = (q, t)" by fastforce
  from Get_transfer_frame [OF _ q] a q
  show "api_inv s' \<and> (400 \<le> status_of ops \<longrightarrow> same_data s s')"
    by (auto simp: h_devDownload_def Let_def api_inv_def same_data_def split: sum.splits if_splits)
qed

lemma sound_auth:
  "sound_handler (h_authRegister sv a env)" "sound_handler (h_authLogin sv a env)"
  "sound_handler (h_authRefresh sv a env)"
  by (rule sound_handlerI;
      auto simp: h_authRegister_def h_authLogin_def h_authRefresh_def api_inv_def same_data_def
        split: sum.splits prod.splits)+

lemmas sound_handlers =
  sound_pure sound_listDevices sound_registerDevice sound_updateDevicePushToken sound_deleteDevice
  sound_getPresence sound_events sound_listTransfers sound_createTransfer sound_getTransfer
  sound_markUploaded sound_complete sound_devUpload sound_devDownload sound_auth

lemma sound_routes: "(pm, pattern, k) \<in> set (mux_routes sv env) \<Longrightarrow> sound_handler (k b)"
  by (auto simp: mux_routes_def intro: sound_handlers split: option.splits)

lemma sound_mux: "sound_handler (serve_mux (mux_routes sv env))"
proof (rule sound_handlerI)
  fix r s ops s'
  assume a: "api_inv s" "serve_mux (mux_routes sv env) r s = (ops, s')"
  show "api_inv s' \<and> (400 \<le> status_of ops \<longrightarrow> same_data s s')"
  proof (cases "find_route (mux_routes sv env) (rq_Method r) (rq_Path r)")
    case None
    with a show ?thesis by (auto simp: serve_mux_def same_data_def split: list.splits)
  next
    case (Some h)
    from find_route_handler [OF this] sound_routes have "sound_handler h" by blast
    with a Some show ?thesis by (auto simp: sound_handler_def serve_mux_def)
  qed
qed

lemma sound_rate_limited:
  assumes inv: "api_inv s" and run: "rate_limited_mux sv env r (l, s) = (ops, (l', s'))"
  shows "api_inv s' \<and> (400 \<le> status_of ops \<longrightarrow> same_data s s')"
proof -
  obtain ops0 s0 where mux: "serve_mux (mux_routes sv env) r s = (ops0, s0)" by fastforce
  have base: "api_inv s0 \<and> (400 \<le> status_of ops0 \<longrightarrow> same_data s s0)"
    using sound_mux inv mux unfolding sound_handler_def by blast
  have refl: "same_data s s" by (simp add: same_data_def)
  show ?thesis
  proof (cases "sv_rateLimiter sv")
    case None
    with run mux base show ?thesis by (simp add: rate_limited_mux_def)
  next
    case (Some limiter)
    note lim = this
    show ?thesis
    proof (cases "HasPrefix (rq_Path r) ''/v1/''")
      case False
      from withRateLimit_other [OF this, of "lm_Allow limiter env" "serve_mux (mux_routes sv env)" l s] run Some mux base show ?thesis by (simp add: rate_limited_mux_def)
    next
      case True
      obtain q l0 where q: "lm_Allow limiter env (clientRateLimitKey r) (if is_read r then 240 else 120) minute l = (q, l0)"
        by fastforce
      from withRateLimit_api [of r "lm_Allow limiter env" l q l0 "serve_mux (mux_routes sv env)" s, OF True q] run Some mux base inv refl
      show ?thesis by (auto simp: rate_limited_mux_def split: sum.splits if_splits)
    qed
  qed
qed

lemma sound_api:
  assumes inv: "api_inv s"
    and run: "authenticated sv env (rate_limited_mux sv env) r (l, s) = (ops, (l', s'))"
  shows "api_inv s' \<and> (400 \<le> status_of ops \<longrightarrow> same_data s s')"
proof (cases "\<exists>service. sv_auth sv = Some service \<and> sv_authRequired sv")
  case False
  with run have "rate_limited_mux sv env r (l, s) = (ops, (l', s'))"
    by (auto simp: authenticated_def split: option.splits)
  with inv show ?thesis by (rule sound_rate_limited)
next
  case True
  then obtain service where "sv_auth sv = Some service" and run':
    "withAuthentication service (he_now env) (rate_limited_mux sv env) r (l, s) = (ops, (l', s'))"
    using run by (auto simp: authenticated_def)
  then have "(\<exists>r'. rate_limited_mux sv env r' (l, s) = (ops, (l', s'))) \<or> s' = s"
    by (auto simp: withAuthentication_def Let_def split: if_splits sum.splits)
  then show ?thesis
  proof (elim disjE exE)
    fix r'
    assume "rate_limited_mux sv env r' (l, s) = (ops, l', s')"
    with inv show ?thesis by (rule sound_rate_limited)
  next
    assume "s' = s"
    with inv show ?thesis by (simp add: same_data_def)
  qed
qed

end

definition memory_server ::
  "(transfer_items, device_items, 'a, 'p, 'r, 'l) Server \<Rightarrow> (transfer_items, device_items, 'a, 'p, 'r, 'l) Server" where
  "memory_server sv = sv\<lparr>sv_devices := device_memory, sv_transfers := memory_repo\<rparr>"

lemma memory_server_simps [simp]:
  "sv_devices (memory_server sv) = device_memory" "sv_transfers (memory_server sv) = memory_repo"
  "sv_urls (memory_server sv) = sv_urls sv"
  by (simp_all add: memory_server_def)

interpretation mem_api: api_server "memory_server sv" tm_table tm_invar dm_table dm_invar
  for sv :: "(transfer_items, device_items, 'a, 'p, 'r, 'l) Server"
  by (simp add: api_server_def dmem.device_store_axioms tmem.transfer_store_axioms)

section \<open>Failed requests\<close>

text \<open>
  C25: a failed request changes nothing. Whatever the request, the limiter and the services, and for any
  repositories that keep their contracts, a request that passes bearer authentication, rate limiting and the
  route table and is answered with a status of 400 or more leaves the transfers, the devices, the stored
  payloads and the published events as they were.
\<close>

theorem failed_requests_change_nothing:
  assumes "transfer_store (sv_transfers sv) table tinv" and "device_store (sv_devices sv) dtable dinv"
    and "tinv (ss_transfers s)" and "dinv (ss_devices s)"
    and "authenticated sv env (rate_limited_mux sv env) r (l, s) = (ops, (l', s'))"
    and "400 \<le> rs_status (served ops)"
  shows "table (ss_transfers s') = table (ss_transfers s) \<and> dtable (ss_devices s') = dtable (ss_devices s) \<and>
    ss_files s' = ss_files s \<and> ss_published s' = ss_published s"
proof -
  have server: "api_server sv table tinv dtable dinv" using assms(1,2) by (simp add: api_server_def)
  from api_server.sound_api [OF server _ assms(5)] assms(3,4,6) show ?thesis
    by (simp add: api_server.api_inv_def [OF server] api_server.same_data_def [OF server] status_served)
qed

definition demo_json :: json_lib where
  "demo_json =
     \<lparr>jl_Credentials = (\<lambda>b e. Inl ''bad''), jl_RefreshRequest = (\<lambda>b e. Inl ''bad''),
      jl_RegisterInput = (\<lambda>b e. Inl ''bad''), jl_PushTokenInput = (\<lambda>b e. Inl ''bad''),
      jl_CreateInput = (\<lambda>b e. Inl ''bad'')\<rparr>"

definition plain_urls :: url_lib where
  "plain_urls = \<lparr>ul_Parse = (\<lambda>s. Some \<lparr>url_origin = s, url_Path = '''', url_Query = []\<rparr>),
     ul_String = (\<lambda>u. url_origin u @ url_Path u)\<rparr>"

definition demo_server :: "(transfer_items, device_items, auth_memory, presence_memory, unit, unit) Server" where
  "demo_server =
     \<lparr>sv_devices = device_memory, sv_transfers = memory_repo, sv_hub = (\<lambda>r. [WriteHeader 101]),
      sv_urls = plain_urls, sv_json = demo_json, sv_presence = Some memory_presence,
      sv_idempotencyRedis = None, sv_rateLimiter = None, sv_auth = None, sv_authRequired = False, sv_metrics = None, sv_readiness = None\<rparr>"

lemma demo_server_simps [simp]:
  "sv_transfers demo_server = memory_repo" "sv_devices demo_server = device_memory"
  "sv_auth demo_server = None" "sv_rateLimiter demo_server = None"
  by (simp_all add: demo_server_def)

definition demo_http_env :: http_env where
  "demo_http_env =
     \<lparr>he_now = 0, he_rnd = Inr [CHR 0x00], he_keys = [],
      he_auth = \<lparr>ae_now = 0, ae_salt = Inr [], ae_userid = Inr [], ae_jti = Inr [], ae_token = Inr [],
                 ae_family = Inr []\<rparr>\<rparr>"

definition empty_state :: "(transfer_items, device_items, auth_memory, presence_memory) server_state" where
  "empty_state =
     \<lparr>ss_devices = Map.empty, ss_transfers = NewMemoryRepository,
      ss_files = files_NewService ''http://h'' ''k'' (10 * minute), ss_auth = auth_NewMemoryRepository,
      ss_presence = Map.empty, ss_published = []\<rparr>"

definition post_uploaded :: http_request where
  "post_uploaded =
     \<lparr>rq_Method = ''POST'', rq_Path = ''/v1/transfers/t9/uploaded'', rq_Query = (\<lambda>_. ''''),
      rq_Header = Map.empty, rq_Body = [], rq_BodyError = None, rq_RemoteAddr = ''10.0.0.7:5000'',
      rq_ctx = background\<rparr>"

lemma post_uploaded_answer:
  "authenticated demo_server demo_http_env (rate_limited_mux demo_server demo_http_env)
     post_uploaded ((), empty_state) =
   (writeError 404 ''not_found'' ''transfer not found'', ((), empty_state))"
proof -
  have split: "Split (CHR ''/'') ''/v1/transfers/t9/uploaded'' = ['''', ''v1'', ''transfers'', ''t9'', ''uploaded'']"
    by simp
  have h: "find_route (mux_routes demo_server demo_http_env) ''POST'' ''/v1/transfers/t9/uploaded'' =
      Some (h_markUploaded demo_server demo_http_env (path_values_of [(''transferId'', ''t9'')]))"
    unfolding mux_routes_def demo_server_def
    by (simp add: match_path_def is_wildcard_def HasPrefix_def HasSuffix_def wildcard_name_def method_matches_def)
  have get: "tm_Get background ''t9'' (ss_transfers empty_state) = (Inl Tr_ErrNotFound, ss_transfers empty_state)"
    by (simp add: empty_state_def NewMemoryRepository_def tm_Get_def)
  have "h_markUploaded demo_server demo_http_env (path_values_of [(''transferId'', ''t9'')]) post_uploaded empty_state =
      (writeError 404 ''not_found'' ''transfer not found'', empty_state)"
    by (simp add: h_markUploaded_def transfer_svc_def transfers_MarkUploaded_def path_values_of_def
        post_uploaded_def get)
  with h show ?thesis
    by (simp add: authenticated_def rate_limited_mux_def serve_mux_def post_uploaded_def)
qed

lemma failed_requests_change_nothing_witness:
  "let run = authenticated demo_server demo_http_env (rate_limited_mux demo_server demo_http_env)
         post_uploaded ((), empty_state); s' = snd (snd run)
   in status_of (fst run) = 404 \<and>
      tm_table (ss_transfers s') = tm_table (ss_transfers empty_state) \<and>
      dm_table (ss_devices s') = dm_table (ss_devices empty_state) \<and>
      ss_files s' = ss_files empty_state \<and> ss_published s' = ss_published empty_state"
proof -
  define run where "run = authenticated demo_server demo_http_env
    (rate_limited_mux demo_server demo_http_env) post_uploaded ((), empty_state)"
  have st: "status_of (fst run) = 404" by (simp add: run_def post_uploaded_answer)
  have eq: "authenticated demo_server demo_http_env (rate_limited_mux demo_server demo_http_env)
      post_uploaded ((), empty_state) = (fst run, (fst (snd run), snd (snd run)))"
    by (simp only: run_def prod.collapse)
  have "tm_table (ss_transfers (snd (snd run))) = tm_table (ss_transfers empty_state) \<and>
      dm_table (ss_devices (snd (snd run))) = dm_table (ss_devices empty_state) \<and>
      ss_files (snd (snd run)) = ss_files empty_state \<and> ss_published (snd (snd run)) = ss_published empty_state"
    by (rule failed_requests_change_nothing [OF _ _ _ _ eq, of tm_table tm_invar dm_table dm_invar])
      (simp_all add: tmem.transfer_store_axioms dmem.device_store_axioms status_served st,
       simp_all add: empty_state_def)
  with st show ?thesis unfolding Let_def run_def by blast
qed

end
