(* ===== verification/PayloadProps.thy ===== *)
theory PayloadProps
  imports HandlerProps TransferProps FileProps CryptoVectors
begin

text \<open>
  The life of a payload through the development adapter: what an accepted upload stores, and that the
  payload uploaded is the payload downloaded.
\<close>

section \<open>What an accepted upload stores\<close>

lemma decorate_fields:
  "transfers_decorate urls c t0 = Inr t \<Longrightarrow>
   tr_Status t = tr_Status t0 \<and> tr_SizeBytes t = tr_SizeBytes t0 \<and> tr_SHA256 t = tr_SHA256 t0 \<and>
   tr_ContentType t = tr_ContentType t0"
  by (auto simp: transfers_decorate_def Let_def split: Status.splits sum.splits)

lemma ReadAll_LimitReader:
  assumes "ReadAll (LimitReader (n + 1) b) = Inr payload" and "int (length payload) = n"
  shows "payload = fst b"
proof (cases "int (length (fst b)) \<ge> n + 1")
  case True
  with assms(1) have "payload = take (nat (n + 1)) (fst b)" by (simp add: ReadAll_def LimitReader_def)
  moreover have "0 \<le> n" using assms(2) by simp
  ultimately have "int (length payload) = n + 1" using True by simp
  with assms(2) show ?thesis by simp
next
  case False
  with assms(1) show ?thesis by (cases b) (simp add: ReadAll_def LimitReader_def split: option.splits)
qed

context api_server begin

lemma devUpload_stored:
  assumes inv: "api_inv s" and run: "h_devUpload sv env pv r s = (ops, s')" and ok: "status_of ops = 204"
  shows "\<exists>t u. table (ss_transfers s) (pv ''transferId'') = Some (t, u) \<and> sees (rq_ctx r) u \<and>
    tr_Status t = StatusUploading \<and> int (length (rq_Body r)) = tr_SizeBytes t \<and>
    EqualFold (hex_EncodeToString (sha256_Sum256 (rq_Body r))) (tr_SHA256 t) \<and>
    files_IsLocal (ss_files s) \<and> ss_files s' = files_Put (pv ''transferId'') (rq_Body r) (ss_files s) \<and>
    table (ss_transfers s') = table (ss_transfers s) \<and> tinv (ss_transfers s') \<and>
    ss_published s' = ss_published s"
proof -
  let ?i = "pv ''transferId''"
  obtain q st where q: "transfers_Get (transfer_svc sv env s) (rq_ctx r) ?i (ss_transfers s) = (q, st)"
    by fastforce
  have inv': "tinv (ss_transfers s)" using inv by (simp add: api_inv_def)
  note get = tr.Get_table [OF inv' transfer_svc_repo q]
  from run ok have "\<exists>tr. q = Inr tr"
    by (auto simp: h_devUpload_def Let_def q split: sum.splits if_splits)
  then obtain tr where tr: "q = Inr tr" by blast
  then obtain t u where t: "table (ss_transfers s) ?i = Some (t, u)" "sees (rq_ctx r) u"
    and dec: "transfers_decorate (ts_urls (transfer_svc sv env s)) (rq_ctx r) t = Inr tr"
    using get by blast
  note fields = decorate_fields [OF dec]
  from run ok obtain payload where loc: "files_IsLocal (ss_files s)"
    and st: "tr_Status tr = StatusUploading"
    and max: "tr_SizeBytes tr \<le> maxDevBlobBytes"
    and read: "ReadAll (LimitReader (wrap64 (tr_SizeBytes tr + 1)) (request_body r)) = Inr payload"
    and size: "int (length payload) = tr_SizeBytes tr"
    and sum: "EqualFold (hex_EncodeToString (sha256_Sum256 payload)) (tr_SHA256 tr)"
    and s': "s' = s\<lparr>ss_transfers := st, ss_files := files_Put ?i payload (ss_files s)\<rparr>"
    by (auto simp: h_devUpload_def Let_def q tr split: sum.splits if_splits)
  have "wrap64 (tr_SizeBytes tr + 1) = tr_SizeBytes tr + 1"
    using max size by (intro wrap64_id) (simp add: int64_def maxDevBlobBytes_def)
  with read size have "payload = rq_Body r"
    using ReadAll_LimitReader [of "tr_SizeBytes tr" "request_body r" payload] by (simp add: request_body_def)
  with t fields st size sum s' loc get show ?thesis by auto
qed

end

section \<open>Upload, mark uploaded, download\<close>

lemma files_Get_Put [simp]: "files_Get i (files_Put i b fs) = Inr b"
  by (simp add: files_Get_def files_Put_def)

lemma files_Put_simps [simp]:
  "fs_s3 (files_Put i b fs) = fs_s3 fs" "fs_secret (files_Put i b fs) = fs_secret fs"
  "fs_baseURL (files_Put i b fs) = fs_baseURL fs" "fs_ttl (files_Put i b fs) = fs_ttl fs"
  by (simp_all add: files_Put_def)

lemma local_provider:
  assumes "files_IsLocal fs"
  shows "\<exists>url. urls_DownloadURL (files_provider lib fs now) c i = Inr url"
    and "urls_InspectUploaded (files_provider lib (files_Put i b fs) now) c i =
      Inr (int (length b), hex_EncodeToString (sha256_Sum256 b))"
  using assms
  by (simp_all add: files_provider_def files_DownloadURL_def files_InspectUploaded_def files_IsLocal_def)

lemma memory_Get:
  assumes "tm_table items i = Some (t, u)" and "sees c u"
  shows "tm_Get c i items = (Inr t, items)"
  using assms by (simp add: tm_Get_eq lookup_visible_def)

lemma memory_MarkUploaded_ready:
  assumes "tm_invar items" and t: "tm_table items i = Some (t, u)" "sees c u"
    and "tr_Status t = StatusUploading"
    and "urls_InspectUploaded urls c i = Inr (tr_SizeBytes t, h)" and "EqualFold h (tr_SHA256 t)"
    and "urls_DownloadURL urls c i = Inr url"
  shows "transfers_MarkUploaded \<lparr>ts_repo = memory_repo, ts_urls = urls\<rparr> now c i items =
    ((Inr ((advance StatusReady now t)\<lparr>tr_DownloadURL := url\<rparr>),
      items(i \<mapsto> \<lparr>tm_transfer = advance StatusReady now t, tm_userID = u\<rparr>)), [ready_event t])"
proof -
  have key: "tr_ID t = i" using assms(1) t by (auto simp: tm_invar_def keyed_def)
  have "markUploaded_check urls now c i t = Inr (advance StatusReady now t, url)"
    using assms by (simp add: markUploaded_check_Inr)
  moreover have "tm_Update c (advance StatusReady now t) items =
      (Inr (advance StatusReady now t), items(i \<mapsto> \<lparr>tm_transfer = advance StatusReady now t, tm_userID = u\<rparr>))"
    using t key by (simp add: tm_Update_eq lookup_visible_def)
  ultimately show ?thesis
    using memory_Get [OF t]
    by (simp add: transfers_MarkUploaded_def markUploaded_commit_def ready_event_def realtimePayload_def)
qed

text \<open>A download with a good signature of a ready transfer whose payload is stored.\<close>

lemma devDownload_ready:
  assumes repo: "sv_transfers sv = memory_repo" and down: "h_devDownload sv e pv r s = (ops, s')"
    and t: "tm_table (ss_transfers s) (pv ''transferId'') = Some (t, u)" "sees (rq_ctx r) u"
      "tr_Status t = StatusReady" "tr_ID t = pv ''transferId''"
    and loc: "files_IsLocal (ss_files s)" and blob: "files_Get (pv ''transferId'') (ss_files s) = Inr body"
    and ver: "files_Verify (ss_files s) (he_now e) ''download'' (pv ''transferId'') (rq_Query r ''exp'')
      (rq_Query r ''sig'') = Inr ()"
  shows "ops = [SetHeader ''Content-Type'' (if tr_ContentType t = '''' then ''application/octet-stream''
                                        else tr_ContentType t),
            SetHeader ''Content-Length'' (FormatInt (int (length body))),
            SetHeader ''Cache-Control'' ''private, no-store'',
            WriteHeader 200, Write (Raw body)]"
proof -
  obtain tr where dec: "transfers_decorate (ts_urls (transfer_svc sv e s)) (rq_ctx r) t = Inr tr"
    using local_provider(1) [OF loc, of "sv_urls sv" "he_now e" "rq_ctx r" "pv ''transferId''"] t(3,4)
    by (auto simp: transfers_decorate_def transfer_svc_def)
  have get: "transfers_Get (transfer_svc sv e s) (rq_ctx r) (pv ''transferId'') (ss_transfers s) =
      (Inr tr, ss_transfers s)"
    using memory_Get [OF t(1,2)] dec by (simp add: transfers_Get_def transfer_svc_def repo)
  have "tr_Status tr = StatusReady" "tr_ContentType tr = tr_ContentType t"
    using decorate_fields [OF dec] t(3) by simp_all
  with down loc ver get blob show ?thesis by (auto simp: h_devDownload_def Let_def)
qed

text \<open>
  C29: what was uploaded is what is downloaded, over HTTP. On the in-memory server, once an upload through
  the development adapter is accepted (204), marking that transfer as uploaded by a caller who may see it is
  answered with 200 and announces the transfer to its destination, and a download with the signature issued
  for it, before its expiry and by a caller who may see it, is answered with 200 and exactly the uploaded
  bytes, under the transfer's content type.
\<close>

theorem uploaded_payload_is_downloaded:
  assumes repo: "sv_transfers sv = memory_repo" "sv_devices sv = device_memory"
    and inv: "tm_invar (ss_transfers s)" "dm_invar (ss_devices s)"
    and up: "h_devUpload sv e1 pv r1 s = (ops1, s1)" "rs_status (served ops1) = 204"
    and mark: "h_markUploaded sv e2 pv r2 s1 = (ops2, s2)"
    and down: "h_devDownload sv e3 pv r3 s2 = (ops3, s3)"
    and owner: "tm_table (ss_transfers s) (pv ''transferId'') = Some (t, u)" "sees (rq_ctx r2) u"
      "sees (rq_ctx r3) u"
    and link: "rq_Query r3 ''exp'' = FormatInt x" "int64 x" "unix_seconds (he_now e3) \<le> x"
      "rq_Query r3 ''sig'' = files_signature (ss_files s) ''download'' (pv ''transferId'') x"
  shows "rs_status (served ops2) = 200 \<and> ss_published s2 = ss_published s @ [ready_event t] \<and>
    ops3 = [SetHeader ''Content-Type'' (if tr_ContentType t = '''' then ''application/octet-stream''
                                        else tr_ContentType t),
            SetHeader ''Content-Length'' (FormatInt (tr_SizeBytes t)),
            SetHeader ''Cache-Control'' ''private, no-store'',
            WriteHeader 200, Write (Raw (rq_Body r1))]"
proof -
  let ?i = "pv ''transferId''"
  have server: "api_server sv tm_table tm_invar dm_table dm_invar"
    using repo by (simp add: api_server_def dmem.device_store_axioms tmem.transfer_store_axioms)
  have api: "api_server.api_inv tm_invar dm_invar s"
    using inv by (simp add: api_server.api_inv_def [OF server])
  from api_server.devUpload_stored [OF server api up(1)] up(2) owner(1)
  have st: "tr_Status t = StatusUploading" and size: "int (length (rq_Body r1)) = tr_SizeBytes t"
    and sum: "EqualFold (hex_EncodeToString (sha256_Sum256 (rq_Body r1))) (tr_SHA256 t)"
    and loc: "files_IsLocal (ss_files s)" and f1: "ss_files s1 = files_Put ?i (rq_Body r1) (ss_files s)"
    and t1: "tm_table (ss_transfers s1) ?i = Some (t, u)" and inv1: "tm_invar (ss_transfers s1)"
    and pub: "ss_published s1 = ss_published s"
    by (auto simp: status_served)
  let ?svc = "transfer_svc sv e2 s1"
  have svc: "?svc = \<lparr>ts_repo = memory_repo, ts_urls = files_provider (sv_urls sv) (ss_files s1) (he_now e2)\<rparr>"
    by (simp add: transfer_svc_def repo)
  have loc1: "files_IsLocal (ss_files s1)" using loc f1 by (simp add: files_IsLocal_def)
  let ?urls = "files_provider (sv_urls sv) (ss_files s1) (he_now e2)"
  obtain url where url: "urls_DownloadURL ?urls (rq_ctx r2) ?i = Inr url"
    using local_provider(1) [OF loc1] by blast
  have insp: "urls_InspectUploaded ?urls (rq_ctx r2) ?i =
      Inr (tr_SizeBytes t, hex_EncodeToString (sha256_Sum256 (rq_Body r1)))"
    using local_provider(2) [OF loc] size by (simp add: f1)
  let ?t = "advance StatusReady (he_now e2) t"
  let ?items = "(ss_transfers s1)(?i \<mapsto> \<lparr>tm_transfer = ?t, tm_userID = u\<rparr>)"
  have s2: "ops2 = writeJSON 200 (transfer_json (?t\<lparr>tr_DownloadURL := url\<rparr>))"
      "s2 = s1\<lparr>ss_transfers := ?items, ss_published := ss_published s1 @ [ready_event t]\<rparr>"
    using mark memory_MarkUploaded_ready [OF inv1 t1 owner(2) st insp sum url, of "he_now e2"]
    by (simp_all add: h_markUploaded_def svc)
  have t2: "tm_table (ss_transfers s2) ?i = Some (?t, u)" by (simp add: s2)
  have loc2: "files_IsLocal (ss_files s2)" using loc1 s2 by simp
  have ver: "files_Verify (ss_files s2) (he_now e3) ''download'' ?i (rq_Query r3 ''exp'') (rq_Query r3 ''sig'') = Inr ()"
    using link by (simp add: files_Verify_ok files_signature_def s2 f1)
  have key: "tr_ID t = ?i" using inv1 t1 by (auto simp: tm_invar_def keyed_def)
  have "files_Get ?i (ss_files s2) = Inr (rq_Body r1)" using s2 f1 by simp
  from devDownload_ready [OF repo(1) down t2 owner(3) _ _ loc2 this ver] size key
  have "ops3 = [SetHeader ''Content-Type'' (if tr_ContentType t = '''' then ''application/octet-stream''
                                   else tr_ContentType t),
       SetHeader ''Content-Length'' (FormatInt (tr_SizeBytes t)),
       SetHeader ''Cache-Control'' ''private, no-store'',
       WriteHeader 200, Write (Raw (rq_Body r1))]" by simp
  with s2 pub show ?thesis by (simp add: status_served)
qed

text \<open>A transfer of the three bytes abc, waiting for its upload.\<close>

definition abc_sum :: string where
  "abc_sum = ''ba7816bf8f01cfea414140de5dae2223b00361a396177a9cb410ff61f20015ad''"

definition abc_transfer :: Transfer where
  "abc_transfer =
     new_transfer 7 ''t1''
       \<lparr>in_SourceDeviceID = ''d1'', in_DestinationDeviceID = ''d2'', in_Kind = KindText, in_DisplayName = ''note'',
        in_ContentType = ''text/plain'', in_SizeBytes = 3, in_SHA256 = abc_sum\<rparr>"

definition abc_state :: "(transfer_items, device_items, auth_memory, presence_memory) server_state" where
  "abc_state = empty_state\<lparr>ss_transfers := [''t1'' \<mapsto> \<lparr>tm_transfer = abc_transfer, tm_userID = ''''\<rparr>]\<rparr>"

definition abc_request :: "string \<Rightarrow> bytes \<Rightarrow> http_request" where
  "abc_request action body =
     \<lparr>rq_Method = ''PUT'', rq_Path = ''/dev-'' @ action @ ''/t1'',
      rq_Query = (\<lambda>k. if k = ''exp'' then FormatInt 600
                      else if k = ''sig'' then files_signature (ss_files empty_state) action ''t1'' 600
                      else ''''),
      rq_Header = Map.empty, rq_Body = body, rq_BodyError = None, rq_RemoteAddr = ''10.0.0.7:5000'',
      rq_ctx = background\<rparr>"

definition t1_path :: path_values where
  "t1_path = path_values_of [(''transferId'', ''t1'')]"

definition abc_uploaded :: "(transfer_items, device_items, auth_memory, presence_memory) server_state" where
  "abc_uploaded = abc_state\<lparr>ss_files := files_Put ''t1'' ''abc'' (ss_files abc_state)\<rparr>"

lemma abc_upload:
  "h_devUpload demo_server demo_http_env t1_path (abc_request ''upload'' ''abc'') abc_state =
     ([WriteHeader 204], abc_uploaded)"
proof -
  let ?r = "abc_request ''upload'' ''abc''"
  have pv: "t1_path ''transferId'' = ''t1''" by (simp add: t1_path_def path_values_of_def)
  have fs: "ss_files abc_state = ss_files empty_state" by (simp add: abc_state_def)
  have loc: "files_IsLocal (ss_files empty_state)"
    by (simp add: empty_state_def files_IsLocal_def files_NewService_def)
  have ver: "files_Verify (ss_files empty_state) (he_now demo_http_env) ''upload'' ''t1''
      (rq_Query ?r ''exp'') (rq_Query ?r ''sig'') = Inr ()"
    by (simp add: files_Verify_ok files_signature_def abc_request_def int64_def demo_http_env_def unix_seconds_def)
  have tab: "tm_table (ss_transfers abc_state) ''t1'' = Some (abc_transfer, '''')"
    by (simp add: abc_state_def tm_table_apply record_pair_def)
  have st: "tr_Status abc_transfer = StatusUploading" "tr_SizeBytes abc_transfer = 3"
      "tr_SHA256 abc_transfer = abc_sum"
    by (simp_all add: abc_transfer_def new_transfer_def)
  have "\<exists>tr. transfers_decorate (files_provider plain_urls (ss_files empty_state) 0) background abc_transfer = Inr tr"
    using loc by (auto simp: transfers_decorate_def st Let_def files_provider_def files_UploadURL_def files_IsLocal_def)
  then obtain tr where dec: "transfers_decorate (files_provider plain_urls (ss_files empty_state) 0) background
      abc_transfer = Inr tr" by blast
  have get: "transfers_Get (transfer_svc demo_server demo_http_env abc_state) background ''t1''
      (ss_transfers abc_state) = (Inr tr, ss_transfers abc_state)"
    using memory_Get [OF tab, of background] dec
    by (simp add: transfers_Get_def transfer_svc_def sees_def fs) (simp add: demo_server_def demo_http_env_def)
  have "wrap64 4 = 4" by (rule wrap64_id) (simp add: int64_def)
  then have read: "ReadAll (LimitReader (wrap64 (tr_SizeBytes tr + 1)) (request_body ?r)) = Inr ''abc''"
    using decorate_fields [OF dec] st by (simp add: ReadAll_def LimitReader_def request_body_def abc_request_def)
  have sum: "hex_EncodeToString (sha256_Sum256 ''abc'') = abc_sum"
    using sha256_abc by (simp add: abc_sum_def)
  have ctx: "rq_ctx ?r = background" by (simp add: abc_request_def)
  show ?thesis
    using get read decorate_fields [OF dec] st loc ver
    by (simp add: h_devUpload_def Let_def pv fs ctx sum maxDevBlobBytes_def abc_uploaded_def)
qed

lemma uploaded_payload_is_downloaded_witness:
  "fst (h_devDownload demo_server demo_http_env t1_path (abc_request ''download'' [])
     (snd (h_markUploaded demo_server demo_http_env t1_path (abc_request ''uploaded'' []) abc_uploaded))) =
   [SetHeader ''Content-Type'' ''text/plain'', SetHeader ''Content-Length'' ''3'',
    SetHeader ''Cache-Control'' ''private, no-store'', WriteHeader 200, Write (Raw ''abc'')]"
proof -
  let ?s2 = "snd (h_markUploaded demo_server demo_http_env t1_path (abc_request ''uploaded'' []) abc_uploaded)"
  have pv: "t1_path ''transferId'' = ''t1''" by (simp add: t1_path_def path_values_of_def)
  have tab: "tm_table (ss_transfers abc_state) (t1_path ''transferId'') = Some (abc_transfer, '''')"
    by (simp add: pv abc_state_def tm_table_apply record_pair_def)
  have inv: "tm_invar (ss_transfers abc_state)" "dm_invar (ss_devices abc_state)"
    by (auto simp: abc_state_def empty_state_def tm_invar_def keyed_def tm_table_def record_pair_def
        abc_transfer_def split: if_splits)
  have three: "FormatInt 3 = ''3''" by code_simp
  have props: "tr_ContentType abc_transfer = ''text/plain''" "tr_SizeBytes abc_transfer = 3"
    "rq_Body (abc_request ''upload'' ''abc'') = ''abc''"
    by (simp_all add: abc_transfer_def new_transfer_def abc_request_def)
  show ?thesis
    using uploaded_payload_is_downloaded [of demo_server abc_state demo_http_env t1_path
        "abc_request ''upload'' ''abc''" "[WriteHeader 204]" abc_uploaded demo_http_env
        "abc_request ''uploaded'' []" "fst (h_markUploaded demo_server demo_http_env t1_path
           (abc_request ''uploaded'' []) abc_uploaded)" ?s2 demo_http_env "abc_request ''download'' []"
        _ _ abc_transfer "''''" 600, OF _ _ inv abc_upload _ _ prod.collapse [symmetric] tab] three props
    by (simp add: status_served abc_request_def sees_def int64_def demo_http_env_def unix_seconds_def pv
        abc_state_def)
qed

end
