(* ===== verification/Observability.thy ===== *)
theory Observability
  imports Routes
begin

text \<open>
  \<^verbatim>\<open>observability/observability.go\<close> and \<^verbatim>\<open>observability/readiness.go\<close>: the outermost middleware with its
  request id, capturing writer, metrics and access log, the route labels, and the readiness handler.
\<close>

section \<open>Labels and request ids\<close>

definition normalizedRoute :: "string \<Rightarrow> string" where
  "normalizedRoute path =
     (if path \<in> {''/health'', ''/ready'', ''/metrics'', ''/v1/auth/register'', ''/v1/auth/login'',
                 ''/v1/auth/refresh'', ''/v1/devices'', ''/v1/transfers'', ''/v1/events''}
      then path
      else if HasPrefix path ''/v1/devices/'' then ''/v1/devices/{deviceId}''
      else if HasPrefix path ''/v1/presence/'' then ''/v1/presence/{deviceId}''
      else if HasPrefix path ''/v1/transfers/'' then
        (if HasSuffix path ''/uploaded'' then ''/v1/transfers/{transferId}/uploaded''
         else if HasSuffix path ''/complete'' then ''/v1/transfers/{transferId}/complete''
         else ''/v1/transfers/{transferId}'')
      else if HasPrefix path ''/dev-upload/'' then ''/dev-upload/{transferId}''
      else if HasPrefix path ''/dev-download/'' then ''/dev-download/{transferId}''
      else ''unmatched'')"

definition newRequestID :: "(string, bytes) result \<Rightarrow> instant \<Rightarrow> string" where
  "newRequestID rnd now =
     (case rnd of Inr raw \<Rightarrow> hex_EncodeToString raw | Inl e \<Rightarrow> ''fallback-'' @ FormatInt now)"

section \<open>The capturing writer\<close>

text \<open>
  What has reached the wrapped writer is kept as its operations; the number of bytes of a body part is given
  by a function, since the JSON text is not modelled.
\<close>

record captureWriter =
  cw_status :: int
  cw_bytes :: int
  cw_wroteHeader :: bool
  cw_ops :: "writer_op list"

definition newCaptureWriter :: captureWriter where
  "newCaptureWriter = \<lparr>cw_status = 200, cw_bytes = 0, cw_wroteHeader = False, cw_ops = []\<rparr>"

definition cw_WriteHeader :: "int \<Rightarrow> captureWriter \<Rightarrow> captureWriter" where
  "cw_WriteHeader status w =
     (if cw_wroteHeader w then w
      else w\<lparr>cw_status := status, cw_wroteHeader := True, cw_ops := cw_ops w @ [WriteHeader status]\<rparr>)"

definition cw_Write :: "(body_part \<Rightarrow> int) \<Rightarrow> body_part \<Rightarrow> captureWriter \<Rightarrow> captureWriter" where
  "cw_Write psize p w =
     (let w' = (if \<not> cw_wroteHeader w then cw_WriteHeader 200 w else w)
      in w'\<lparr>cw_bytes := cw_bytes w' + psize p, cw_ops := cw_ops w' @ [Write p]\<rparr>)"

fun cw_apply :: "(body_part \<Rightarrow> int) \<Rightarrow> writer_op \<Rightarrow> captureWriter \<Rightarrow> captureWriter" where
  "cw_apply psize (WriteHeader n) w = cw_WriteHeader n w"
| "cw_apply psize (Write p) w = cw_Write psize p w"
| "cw_apply psize x w = w\<lparr>cw_ops := cw_ops w @ [x]\<rparr>"

text \<open>
  ReadFrom, given the pieces in which the reader yields its data: handed to the wrapped writer when that can
  read for itself, copied through Write otherwise.
\<close>

definition cw_ReadFrom :: "bool \<Rightarrow> (body_part \<Rightarrow> int) \<Rightarrow> body_part list \<Rightarrow> captureWriter \<Rightarrow> captureWriter" where
  "cw_ReadFrom readerFrom psize ps w =
     (if readerFrom then
        let w' = (if \<not> cw_wroteHeader w then cw_WriteHeader 200 w else w)
        in w'\<lparr>cw_bytes := cw_bytes w' + sum_list (map psize ps), cw_ops := cw_ops w' @ map Write ps\<rparr>
      else foldl (\<lambda>w p. cw_Write psize p w) w ps)"

text \<open>
  The optional interfaces of a writer, which the wrapped one has (given as what its method does) or has not.
\<close>

definition cw_Flush :: "('w \<Rightarrow> 'w) option \<Rightarrow> 'w \<Rightarrow> 'w" where
  "cw_Flush flusher w = (case flusher of Some flush \<Rightarrow> flush w | None \<Rightarrow> w)"

definition cw_Hijack :: "(string, 'c) result option \<Rightarrow> (string, 'c) result" where
  "cw_Hijack hijacker =
     (case hijacker of None \<Rightarrow> Inl ''response writer does not support hijacking'' | Some hijacked \<Rightarrow> hijacked)"

definition cw_Push :: "(string \<Rightarrow> 'o \<Rightarrow> string option) option \<Rightarrow> string \<Rightarrow> 'o \<Rightarrow> string option" where
  "cw_Push pusher target opts =
     (case pusher of None \<Rightarrow> Some ''feature not supported'' | Some push \<Rightarrow> push target opts)"

lemma cw_Write_wrote [simp]: "cw_wroteHeader (cw_Write psize p w)"
  by (simp add: cw_Write_def cw_WriteHeader_def)

lemma cw_ReadFrom_paths:
  "ps \<noteq> [] \<Longrightarrow> cw_ReadFrom True psize ps w = cw_ReadFrom False psize ps w"
proof -
  have tail: "foldl (\<lambda>w p. cw_Write psize p w) v qs =
      v\<lparr>cw_bytes := cw_bytes v + sum_list (map psize qs), cw_ops := cw_ops v @ map Write qs\<rparr>" if "cw_wroteHeader v" for v qs
    using that by (induction qs arbitrary: v) (simp_all add: cw_Write_def)
  assume "ps \<noteq> []"
  then obtain p qs where "ps = p # qs" by (cases ps) auto
  then show ?thesis
    using tail [of "cw_Write psize p w" qs] by (simp add: cw_ReadFrom_def cw_Write_def cw_WriteHeader_def Let_def)
qed

section \<open>The middleware\<close>

text \<open>
  What the registry is given: the metrics with their names, help texts, labels and buckets (as durations,
  which the library is given in seconds), and the two collectors of the library.
\<close>

record metric_opts =
  mo_Namespace :: string
  mo_Subsystem :: string
  mo_Name :: string
  mo_Help :: string
  mo_Buckets :: "duration list"
  mo_labels :: "string list"

datatype collector =
    CounterVec metric_opts | HistogramVec metric_opts | Gauge metric_opts | GoCollector | ProcessCollector

definition http_requests_total :: metric_opts where
  "http_requests_total =
     \<lparr>mo_Namespace = ''pixelgo'', mo_Subsystem = ''http'', mo_Name = ''requests_total'',
      mo_Help = ''Total HTTP requests processed by the API.'', mo_Buckets = [],
      mo_labels = [''method'', ''route'', ''status'']\<rparr>"

definition http_request_duration_seconds :: metric_opts where
  "http_request_duration_seconds =
     \<lparr>mo_Namespace = ''pixelgo'', mo_Subsystem = ''http'', mo_Name = ''request_duration_seconds'',
      mo_Help = ''HTTP request latency in seconds.'',
      mo_Buckets = map (\<lambda>ms. ms * 1000000) [5, 10, 25, 50, 100, 250, 500, 1000, 2500, 5000],
      mo_labels = [''method'', ''route'']\<rparr>"

definition http_response_bytes_total :: metric_opts where
  "http_response_bytes_total =
     \<lparr>mo_Namespace = ''pixelgo'', mo_Subsystem = ''http'', mo_Name = ''response_bytes_total'',
      mo_Help = ''Total HTTP response bytes written.'', mo_Buckets = [],
      mo_labels = [''method'', ''route'', ''status'']\<rparr>"

definition http_in_flight_requests :: metric_opts where
  "http_in_flight_requests =
     \<lparr>mo_Namespace = ''pixelgo'', mo_Subsystem = ''http'', mo_Name = ''in_flight_requests'',
      mo_Help = ''Current number of in-flight HTTP requests.'', mo_Buckets = [], mo_labels = []\<rparr>"

text \<open>The registry, the counters by their labels, the histogram by its observations, and the gauge.\<close>

record Metrics =
  mt_registry :: "collector list"
  mt_requests :: "string \<times> string \<times> string \<Rightarrow> nat"
  mt_duration :: "((string \<times> string) \<times> duration) list"
  mt_bytes :: "string \<times> string \<times> string \<Rightarrow> int"
  mt_inflight :: int

definition NewMetrics :: Metrics where
  "NewMetrics =
     \<lparr>mt_registry = [CounterVec http_requests_total, HistogramVec http_request_duration_seconds,
        CounterVec http_response_bytes_total, Gauge http_in_flight_requests, GoCollector, ProcessCollector],
      mt_requests = (\<lambda>l. 0), mt_duration = [], mt_bytes = (\<lambda>l. 0), mt_inflight = 0\<rparr>"

text \<open>
  MustRegister panics when two collectors describe one metric, or a histogram's buckets do not increase; the
  full name joins namespace, subsystem and name.
\<close>

fun collector_opts :: "collector \<Rightarrow> metric_opts list" where
  "collector_opts (CounterVec m) = [m]"
| "collector_opts (HistogramVec m) = [m]"
| "collector_opts (Gauge m) = [m]"
| "collector_opts GoCollector = []"
| "collector_opts ProcessCollector = []"

definition metric_name :: "metric_opts \<Rightarrow> string" where
  "metric_name m = mo_Namespace m @ ''_'' @ mo_Subsystem m @ ''_'' @ mo_Name m"

lemma NewMetrics_registers:
  "distinct (map metric_name (concat (map collector_opts (mt_registry NewMetrics))))"
  "m \<in> set (concat (map collector_opts (mt_registry NewMetrics))) \<Longrightarrow> sorted_wrt (<) (mo_Buckets m)"
  by (auto simp: NewMetrics_def metric_name_def http_requests_total_def http_request_duration_seconds_def
      http_response_bytes_total_def http_in_flight_requests_def)

text \<open>The exposition of a registry, a handler of the metrics library, is a parameter; its flag is EnableOpenMetrics.\<close>

definition metrics_Handler ::
  "(collector list \<Rightarrow> bool \<Rightarrow> Metrics \<Rightarrow> http_request \<Rightarrow> writer_op list) \<Rightarrow> Metrics \<Rightarrow> http_request \<Rightarrow> writer_op list" where
  "metrics_Handler expose m = expose (mt_registry m) True m"

datatype log_level = LevelDebug | LevelInfo | LevelWarn | LevelError

text \<open>The levels of log/slog are numbers, and a handler drops the records below its own level.\<close>

primrec slog_value :: "log_level \<Rightarrow> int" where
  "slog_value LevelDebug = - 4"
| "slog_value LevelInfo = 0"
| "slog_value LevelWarn = 4"
| "slog_value LevelError = 8"

lemma slog_value_inject [simp]: "slog_value a = slog_value b \<longleftrightarrow> a = b"
  by (cases a; cases b) simp_all

instantiation log_level :: linorder
begin

definition less_eq_log_level :: "log_level \<Rightarrow> log_level \<Rightarrow> bool" where
  "less_eq_log_level a b \<longleftrightarrow> slog_value a \<le> slog_value b"

definition less_log_level :: "log_level \<Rightarrow> log_level \<Rightarrow> bool" where
  "less_log_level a b \<longleftrightarrow> slog_value a < slog_value b"

instance
  by standard (auto simp: less_eq_log_level_def less_log_level_def)

end

record access_log =
  al_level :: log_level
  al_request_id :: string
  al_method :: string
  al_route :: string
  al_status :: int
  al_duration_us :: int
  al_response_bytes :: int
  al_idempotency_replayed :: "bool option"

definition log_level_of :: "int \<Rightarrow> string \<Rightarrow> log_level" where
  "log_level_of status route =
     (if status \<ge> 500 then LevelError
      else if status \<ge> 400 then LevelWarn
      else if route = ''/health'' \<or> route = ''/metrics'' then LevelDebug
      else LevelInfo)"

definition record_request ::
  "string \<Rightarrow> string \<Rightarrow> int \<Rightarrow> duration \<Rightarrow> int \<Rightarrow> Metrics \<Rightarrow> Metrics" where
  "record_request method route status elapsed n m =
     (let label = (method, route, FormatInt status) in
      m\<lparr>mt_requests := (mt_requests m)(label := mt_requests m label + 1),
        mt_duration := mt_duration m @ [((method, route), elapsed)],
        mt_bytes := (mt_bytes m)(label := mt_bytes m label + n)\<rparr>)"

text \<open>The header map a sequence of writer operations leaves behind.\<close>

definition header_after :: "writer_op list \<Rightarrow> header" where
  "header_after ops = sw_header (fold sw_apply ops \<lparr>sw_header = Map.empty, sw_sent = None, sw_body = []\<rparr>)"

text \<open>
  One request from its start to its end. The metrics are optional; the log and the metrics are kept beside
  the state of the handler. The gauge is raised before the handler runs and lowered after it.
\<close>

definition observe ::
  "(body_part \<Rightarrow> int) \<Rightarrow> (string, bytes) result \<Rightarrow> instant \<Rightarrow> instant \<Rightarrow> 's handler \<Rightarrow>
   (Metrics option \<times> access_log list \<times> 's) handler" where
  "observe psize rnd started ended nxt r st =
     (let (metrics, logs, s) = st;
          requestID = newRequestID rnd started;
          route = normalizedRoute (rq_Path r);
          m1 = map_option (\<lambda>m. m\<lparr>mt_inflight := mt_inflight m + 1\<rparr>) metrics;
          (ops, s') = nxt r s;
          writer = fold (cw_apply psize) ops newCaptureWriter;
          status = cw_status writer;
          elapsed = ended - started;
          m2 = map_option (record_request (rq_Method r) route status elapsed (cw_bytes writer)) m1;
          sent = SetHeader ''X-Request-ID'' requestID # cw_ops writer;
          replayed = header_Get (header_after sent) ''Idempotency-Replayed'';
          entry = \<lparr>al_level = log_level_of status route, al_request_id = requestID,
                   al_method = rq_Method r, al_route = route, al_status = status,
                   al_duration_us = elapsed div 1000, al_response_bytes = cw_bytes writer,
                   al_idempotency_replayed =
                     (if replayed = '''' then None else Some (replayed = ''true''))\<rparr>;
          m3 = map_option (\<lambda>m. m\<lparr>mt_inflight := mt_inflight m - 1\<rparr>) m2
      in (sent, (m3, logs @ [entry], s')))"

section \<open>Readiness\<close>

text \<open>
  A check is its name, the time it takes, and its outcome; it runs only while the deadline has not passed.
  The results are a map from names, so a later check of the same name replaces the earlier result.
\<close>

record readiness_check =
  chk_Name :: string
  chk_took :: duration
  chk_fails :: bool

fun run_checks ::
  "readiness_check list \<Rightarrow> instant \<Rightarrow> instant \<Rightarrow> bool \<Rightarrow> (string \<rightharpoonup> string) \<Rightarrow> bool \<times> (string \<rightharpoonup> string)" where
  "run_checks [] now deadline ready results = (ready, results)"
| "run_checks (c # cs) now deadline ready results =
     (if now \<ge> deadline
      then run_checks cs now deadline False (results(chk_Name c \<mapsto> ''unavailable''))
      else if chk_fails c
      then run_checks cs (now + chk_took c) deadline False (results(chk_Name c \<mapsto> ''unavailable''))
      else run_checks cs (now + chk_took c) deadline ready (results(chk_Name c \<mapsto> ''ok'')))"

text \<open>
  The deadline is the timeout, or the time the client gives up if that is earlier. The JSON object of the
  results has its keys in order; that order is given.
\<close>

definition ReadinessHandler ::
  "readiness_check list \<Rightarrow> duration \<Rightarrow> instant \<Rightarrow> instant option \<Rightarrow> string list \<Rightarrow> writer_op list" where
  "ReadinessHandler checks timeout now cancel ks =
     (let deadline = (case cancel of None \<Rightarrow> now + timeout | Some t \<Rightarrow> min t (now + timeout));
          (ready, results) = run_checks checks now deadline True Map.empty in
      [SetHeader ''Content-Type'' ''application/json'',
       SetHeader ''Cache-Control'' ''no-store'',
       WriteHeader (if ready then 200 else 503),
       Write (JSON (JObject
         [(''checks'', JObject (map (\<lambda>k. (k, JString (case results k of None \<Rightarrow> '''' | Some v \<Rightarrow> v))) ks)),
          (''status'', JString (if ready then ''ready'' else ''not_ready''))]))])"

text \<open>The server is ready exactly when every check starts before the deadline and succeeds.\<close>

fun all_in_time :: "readiness_check list \<Rightarrow> instant \<Rightarrow> instant \<Rightarrow> bool" where
  "all_in_time [] now deadline = True"
| "all_in_time (c # cs) now deadline =
     (now < deadline \<and> \<not> chk_fails c \<and> all_in_time cs (now + chk_took c) deadline)"

lemma run_checks_not_ready: "\<not> fst (run_checks cs now deadline False results)"
  by (induction cs now deadline "False" results rule: run_checks.induct) auto

lemma run_checks_ready: "fst (run_checks cs now deadline True results) = all_in_time cs now deadline"
  by (induction cs arbitrary: now results) (auto simp: run_checks_not_ready)

lemma readiness_status:
  "status_of (ReadinessHandler checks timeout now None ks) =
     (if all_in_time checks now (now + timeout) then 200 else 503)"
  using run_checks_ready [of checks now "now + timeout" Map.empty]
  by (auto simp: ReadinessHandler_def Let_def split: prod.splits)

end
