(* ===== verification/ObservabilityProps.thy ===== *)
theory ObservabilityProps
  imports Observability IdempotencyProps HandlerProps
begin

text \<open>
  The outermost middleware records what the client receives and leaves the response alone; its route labels
  are the patterns of the route table; and how it fares with the idempotency middleware inside.
\<close>

section \<open>The capturing writer\<close>

definition parts_size :: "(body_part \<Rightarrow> int) \<Rightarrow> body_part list \<Rightarrow> int" where
  "parts_size len ps = sum_list (map len ps)"

text \<open>The writer after some operations, against the server's writer after the same operations.\<close>

definition captured :: "(body_part \<Rightarrow> int) \<Rightarrow> server_writer \<Rightarrow> captureWriter \<Rightarrow> server_writer \<Rightarrow> bool" where
  "captured len w0 c w \<longleftrightarrow>
     fold sw_apply (cw_ops c) w0 = w \<and>
     cw_bytes c = parts_size len (sw_body w) \<and>
     (case sw_sent w of
        None \<Rightarrow> \<not> cw_wroteHeader c \<and> cw_status c = 200
      | Some (n, h) \<Rightarrow> cw_wroteHeader c \<and> cw_status c = n)"

lemma captured_apply:
  assumes "captured len w0 c w"
  shows "captured len w0 (cw_apply len x c) (sw_apply x w)"
proof (cases "sw_sent w")
  case None
  with assms show ?thesis
    by (cases x) (auto simp: captured_def cw_WriteHeader_def cw_Write_def sw_WriteHeader_def Let_def
        parts_size_def)
next
  case (Some p)
  with assms show ?thesis
    by (cases x; cases p) (auto simp: captured_def cw_WriteHeader_def cw_Write_def sw_WriteHeader_def Let_def
        parts_size_def)
qed

lemma captured_fold:
  "captured len w0 c w \<Longrightarrow> captured len w0 (fold (cw_apply len) ops c) (fold sw_apply ops w)"
  by (induction ops arbitrary: c w) (auto intro: captured_apply)

lemma capture_ops:
  fixes ops :: "writer_op list"
  assumes "sw_sent w0 = None" and "sw_body w0 = []"
  shows "captured len w0 (fold (cw_apply len) ops newCaptureWriter) (fold sw_apply ops w0)"
  by (rule captured_fold) (use assms in \<open>simp add: captured_def newCaptureWriter_def parts_size_def\<close>)

definition fresh_writer :: server_writer where
  "fresh_writer = \<lparr>sw_header = Map.empty, sw_sent = None, sw_body = []\<rparr>"


definition response_of :: "server_writer \<Rightarrow> response" where
  "response_of w =
     (case sw_sent w of
        None \<Rightarrow> \<lparr>rs_status = 200, rs_header = sw_header w, rs_body = sw_body w\<rparr>
      | Some (n, h) \<Rightarrow> \<lparr>rs_status = n, rs_header = h, rs_body = sw_body w\<rparr>)"

lemma served_Cons: "served (x # ops) = response_of (fold sw_apply ops (sw_apply x fresh_writer))"
  by (simp add: served_def fresh_writer_def response_of_def Let_def)

lemma captured_response:
  assumes "captured len u c w"
  shows "rs_status (response_of w) = cw_status c" "parts_size len (rs_body (response_of w)) = cw_bytes c"
  using assms by (auto simp: captured_def response_of_def split: option.splits prod.splits)

lemma observe_served:
  assumes "observe len rnd t0 t1 nxt r (m, logs, s) = (sent, st')" and "nxt r s = (ops, s1)"
  shows "served sent = served (SetHeader ''X-Request-ID'' (newRequestID rnd t0) # ops)"
proof -
  let ?id = "SetHeader ''X-Request-ID'' (newRequestID rnd t0)"
  let ?c = "fold (cw_apply len) ops newCaptureWriter"
  have "captured len (sw_apply ?id fresh_writer) ?c (fold sw_apply ops (sw_apply ?id fresh_writer))"
    by (rule capture_ops) (simp_all add: fresh_writer_def)
  moreover have "sent = ?id # cw_ops ?c" using assms by (simp add: observe_def Let_def)
  ultimately show ?thesis unfolding served_Cons by (simp add: served_Cons captured_def)
qed


definition late_status :: "nat handler" where
  "late_status r n = ([Write (Raw ''x''), WriteHeader 500], Suc n)"


section \<open>Route labels\<close>

definition route_labels :: "string set" where
  "route_labels =
     {''/health'', ''/ready'', ''/metrics'', ''/v1/auth/register'', ''/v1/auth/login'', ''/v1/auth/refresh'',
      ''/v1/devices'', ''/v1/transfers'', ''/v1/events'', ''/v1/devices/{deviceId}'',
      ''/v1/presence/{deviceId}'', ''/v1/transfers/{transferId}'', ''/v1/transfers/{transferId}/uploaded'',
      ''/v1/transfers/{transferId}/complete'', ''/dev-upload/{transferId}'', ''/dev-download/{transferId}'',
      ''unmatched''}"

fun join_slash :: "string list \<Rightarrow> string" where
  "join_slash [] = ''''"
| "join_slash [x] = x"
| "join_slash (x # xs) = x @ CHR ''/'' # join_slash xs"

lemma join_slash_Cons: "xs \<noteq> [] \<Longrightarrow> join_slash (x # xs) = x @ CHR ''/'' # join_slash xs"
  by (cases xs) simp_all

lemma join_Split: "join_slash (Split (CHR ''/'') s) = s"
proof (induction s)
  case (Cons c cs)
  obtain p ps where ps: "Split (CHR ''/'') cs = p # ps" by (cases "Split (CHR ''/'') cs") auto
  with Cons show ?case by (cases ps) (auto simp: join_slash_Cons)
qed simp

text \<open>The segments a matching path has.\<close>

lemma match_path_join:
  "match_path pattern path = Some b \<Longrightarrow>
   \<exists>xs. match_segments (Split (CHR ''/'') pattern) xs = Some b \<and> path = join_slash xs"
  by (rule exI [of _ "Split (CHR ''/'') path"]) (simp add: match_path_def join_Split)

lemma match_Cons:
  "match_segments (p # ps) xs = Some b \<longleftrightarrow>
     (if is_wildcard p
      then \<exists>x ys b'. xs = x # ys \<and> x \<noteq> '''' \<and> b = (wildcard_name p, x) # b' \<and> match_segments ps ys = Some b'
      else \<exists>ys. xs = p # ys \<and> match_segments ps ys = Some b)"
  by (cases xs) (auto split: option.splits)

lemma match_Nil: "match_segments [] xs = Some b \<longleftrightarrow> xs = [] \<and> b = []"
  by (cases xs) auto

lemma Split_no_slash: "x \<in> set (Split c s) \<Longrightarrow> c \<notin> set x"
proof (induction s arbitrary: x)
  case (Cons d s)
  then show ?case by (auto split: if_splits list.splits)
qed simp

lemma suffix_segment:
  assumes "CHR ''/'' \<notin> set x"
  shows "HasSuffix (pre @ CHR ''/'' # x) (CHR ''/'' # y) \<longleftrightarrow> x = y \<or>
    HasSuffix (pre @ CHR ''/'' # x) (CHR ''/'' # y) \<and> CHR ''/'' \<in> set y"
  using assms
  by (auto simp: HasSuffix_iff dest: append_eq_append_sep_last [of _ "CHR ''/''"])

lemma label_transfer:
  assumes "CHR ''/'' \<notin> set x" and "x \<noteq> ''''" and "x \<noteq> ''uploaded''" and "x \<noteq> ''complete''"
  shows "normalizedRoute (''/v1/transfers/'' @ x) = ''/v1/transfers/{transferId}''"
proof -
  have "\<not> HasSuffix (''/v1/transfers'' @ CHR ''/'' # x) (CHR ''/'' # ''uploaded'')"
    "\<not> HasSuffix (''/v1/transfers'' @ CHR ''/'' # x) (CHR ''/'' # ''complete'')"
    using assms by (subst suffix_segment; simp)+
  then show ?thesis using assms(2) by (simp add: normalizedRoute_def HasPrefix_def)
qed

lemma label_uploaded:
  "normalizedRoute (''/v1/transfers/'' @ x @ ''/uploaded'') = ''/v1/transfers/{transferId}/uploaded''"
proof -
  have "HasSuffix (''/v1/transfers/'' @ x @ ''/uploaded'') ''/uploaded''"
    unfolding HasSuffix_iff by (metis append_assoc)
  then show ?thesis by (simp add: normalizedRoute_def HasPrefix_def)
qed

lemma label_complete:
  "normalizedRoute (''/v1/transfers/'' @ x @ ''/complete'') = ''/v1/transfers/{transferId}/complete''"
proof -
  have "HasSuffix (''/v1/transfers/'' @ x @ ''/complete'') ''/complete''"
    unfolding HasSuffix_iff by (metis append_assoc)
  moreover have "\<not> HasSuffix (''/v1/transfers/'' @ x @ ''/complete'') ''/uploaded''"
  proof
    assume "HasSuffix (''/v1/transfers/'' @ x @ ''/complete'') ''/uploaded''"
    then obtain r where "''/v1/transfers/'' @ x @ ''/complete'' = r @ ''/uploaded''"
      unfolding HasSuffix_iff by blast
    from arg_cong [where f = last, OF this] show False by simp
  qed
  ultimately show ?thesis by (simp add: normalizedRoute_def HasPrefix_def)
qed

lemma label_prefixed:
  "x \<noteq> '''' \<Longrightarrow> normalizedRoute (''/v1/devices/'' @ x) = ''/v1/devices/{deviceId}''"
  "x \<noteq> '''' \<Longrightarrow> normalizedRoute (''/v1/presence/'' @ x) = ''/v1/presence/{deviceId}''"
  "normalizedRoute (''/dev-upload/'' @ x) = ''/dev-upload/{transferId}''"
  "normalizedRoute (''/dev-download/'' @ x) = ''/dev-download/{transferId}''"
  by (simp_all add: normalizedRoute_def HasPrefix_def)

lemma mux_patterns:
  "(pm, pattern, k) \<in> set (mux_routes sv env) \<Longrightarrow>
   pattern \<in> {''/health'', ''/ready'', ''/metrics'', ''/v1/auth/register'', ''/v1/auth/login'', ''/v1/auth/refresh'',
      ''/v1/devices'', ''/v1/transfers'', ''/v1/events''} \<or>
   pattern \<in> {''/v1/devices/{deviceId}/push-token'', ''/v1/devices/{deviceId}'', ''/v1/transfers/{transferId}'',
      ''/v1/transfers/{transferId}/uploaded'', ''/v1/transfers/{transferId}/complete'',
      ''/v1/presence/{deviceId}'', ''/dev-upload/{transferId}'', ''/dev-download/{transferId}''}"
  by (auto simp: mux_routes_def split: option.splits)

lemmas wildcard_eval = is_wildcard_def HasPrefix_def HasSuffix_def wildcard_name_def

lemma literal_route:
  assumes "pattern \<in> {''/health'', ''/ready'', ''/metrics'', ''/v1/auth/register'', ''/v1/auth/login'',
      ''/v1/auth/refresh'', ''/v1/devices'', ''/v1/transfers'', ''/v1/events''}"
    and "match_path pattern path = Some b"
  shows "path = pattern \<and> normalizedRoute pattern = pattern"
proof -
  obtain xs where xs: "match_segments (Split (CHR ''/'') pattern) xs = Some b" "path = join_slash xs"
    using match_path_join [OF assms(2)] by blast
  have "normalizedRoute pattern = pattern" by (simp only: normalizedRoute_def if_P [OF assms(1)])
  moreover from assms(1) xs have "path = pattern"
    by (elim insertE emptyE) (simp_all add: match_Cons match_Nil wildcard_eval)
  ultimately show ?thesis by blast
qed

text \<open>The shape of a path matched by a pattern with a wildcard in its third or second segment.\<close>

lemma match_path_segments:
  assumes "match_path pattern path = Some b"
  shows "\<exists>xs. match_segments (Split (CHR ''/'') pattern) xs = Some b \<and> path = join_slash xs \<and>
    (\<forall>x \<in> set xs. CHR ''/'' \<notin> set x)"
  using assms by (intro exI [of _ "Split (CHR ''/'') path"]) (auto simp: match_path_def join_Split dest: Split_no_slash)

lemma wild_routes:
  "match_path ''/v1/devices/{deviceId}/push-token'' path = Some b \<Longrightarrow>
     \<exists>x. b = [(''deviceId'', x)] \<and> x \<noteq> '''' \<and> path = ''/v1/devices/'' @ x @ ''/push-token''"
  "match_path ''/v1/devices/{deviceId}'' path = Some b \<Longrightarrow>
     \<exists>x. b = [(''deviceId'', x)] \<and> x \<noteq> '''' \<and> path = ''/v1/devices/'' @ x"
  "match_path ''/v1/transfers/{transferId}'' path = Some b \<Longrightarrow>
     \<exists>x. b = [(''transferId'', x)] \<and> x \<noteq> '''' \<and> CHR ''/'' \<notin> set x \<and> path = ''/v1/transfers/'' @ x"
  "match_path ''/v1/transfers/{transferId}/uploaded'' path = Some b \<Longrightarrow>
     \<exists>x. b = [(''transferId'', x)] \<and> path = ''/v1/transfers/'' @ x @ ''/uploaded''"
  "match_path ''/v1/transfers/{transferId}/complete'' path = Some b \<Longrightarrow>
     \<exists>x. b = [(''transferId'', x)] \<and> path = ''/v1/transfers/'' @ x @ ''/complete''"
  "match_path ''/v1/presence/{deviceId}'' path = Some b \<Longrightarrow>
     \<exists>x. b = [(''deviceId'', x)] \<and> x \<noteq> '''' \<and> path = ''/v1/presence/'' @ x"
  "match_path ''/dev-upload/{transferId}'' path = Some b \<Longrightarrow>
     \<exists>x. b = [(''transferId'', x)] \<and> path = ''/dev-upload/'' @ x"
  "match_path ''/dev-download/{transferId}'' path = Some b \<Longrightarrow>
     \<exists>x. b = [(''transferId'', x)] \<and> path = ''/dev-download/'' @ x"
  by (drule match_path_segments, elim exE conjE, simp add: match_Cons match_Nil wildcard_eval,
      (elim exE conjE, simp)?)+

lemma push_token_label: "normalizedRoute (''/v1/devices/'' @ x @ ''/push-token'') = ''/v1/devices/{deviceId}''"
  by (rule label_prefixed(1)) simp

text \<open>A path that a pattern with a wildcard matches has the label of the pattern.\<close>

lemma wildcard_label:
  assumes "pattern \<in> {''/v1/devices/{deviceId}/push-token'', ''/v1/devices/{deviceId}'',
      ''/v1/transfers/{transferId}'', ''/v1/transfers/{transferId}/uploaded'',
      ''/v1/transfers/{transferId}/complete'', ''/v1/presence/{deviceId}'', ''/dev-upload/{transferId}'',
      ''/dev-download/{transferId}''}" and path: "match_path pattern path = Some b"
    and ids: "b \<noteq> [(''transferId'', ''uploaded'')]" "b \<noteq> [(''transferId'', ''complete'')]"
  shows "normalizedRoute path =
      (if pattern = ''/v1/devices/{deviceId}/push-token'' then ''/v1/devices/{deviceId}'' else pattern)"
  using assms(1)
proof (elim insertE emptyE)
  assume eq: "pattern = ''/v1/devices/{deviceId}/push-token''"
  with path wild_routes(1) obtain x where "path = ''/v1/devices/'' @ x @ ''/push-token''" by blast
  with eq show ?thesis by (simp only: push_token_label) simp
next
  assume eq: "pattern = ''/v1/devices/{deviceId}''"
  with path wild_routes(2) obtain x where "x \<noteq> ''''" "path = ''/v1/devices/'' @ x" by blast
  with eq label_prefixed(1) show ?thesis by simp
next
  assume eq: "pattern = ''/v1/transfers/{transferId}''"
  with path wild_routes(3) obtain x where "b = [(''transferId'', x)]" "x \<noteq> ''''" "CHR ''/'' \<notin> set x"
    and p: "path = ''/v1/transfers/'' @ x" by blast
  with ids have "normalizedRoute path = ''/v1/transfers/{transferId}''"
    unfolding p by (intro label_transfer) auto
  with eq show ?thesis by simp
next
  assume eq: "pattern = ''/v1/transfers/{transferId}/uploaded''"
  with path wild_routes(4) obtain x where "path = ''/v1/transfers/'' @ x @ ''/uploaded''" by blast
  with eq show ?thesis by (simp only: label_uploaded) simp
next
  assume eq: "pattern = ''/v1/transfers/{transferId}/complete''"
  with path wild_routes(5) obtain x where "path = ''/v1/transfers/'' @ x @ ''/complete''" by blast
  with eq show ?thesis by (simp only: label_complete) simp
next
  assume eq: "pattern = ''/v1/presence/{deviceId}''"
  with path wild_routes(6) obtain x where "x \<noteq> ''''" "path = ''/v1/presence/'' @ x" by blast
  with eq label_prefixed(2) show ?thesis by simp
next
  assume eq: "pattern = ''/dev-upload/{transferId}''"
  with path wild_routes(7) obtain x where "path = ''/dev-upload/'' @ x" by blast
  with eq label_prefixed(3) show ?thesis by simp
next
  assume eq: "pattern = ''/dev-download/{transferId}''"
  with path wild_routes(8) obtain x where "path = ''/dev-download/'' @ x" by blast
  with eq label_prefixed(4) show ?thesis by simp
qed

text \<open>
  The metrics know a request by the route that serves it, and know only finitely many routes. Every path
  that the route table serves by a pattern is labelled with that pattern (the push-token route shares the
  label of its device), except that a transfer whose id is the word uploaded or complete would be mistaken
  for the longer route; and every path whatever has one of seventeen labels, so identifiers never reach them.
\<close>

lemma metric_labels_are_route_patterns:
  assumes route: "(pm, pattern, k) \<in> set (mux_routes sv env)" and path: "match_path pattern path = Some b"
    and ids: "b \<noteq> [(''transferId'', ''uploaded'')]" "b \<noteq> [(''transferId'', ''complete'')]"
  shows "normalizedRoute path =
      (if pattern = ''/v1/devices/{deviceId}/push-token'' then ''/v1/devices/{deviceId}'' else pattern) \<and>
    (\<forall>p. normalizedRoute p \<in> route_labels)"
proof (intro conjI allI)
  show "normalizedRoute p \<in> route_labels" for p
    by (simp add: normalizedRoute_def route_labels_def)
  from mux_patterns [OF route]
  show "normalizedRoute path =
      (if pattern = ''/v1/devices/{deviceId}/push-token'' then ''/v1/devices/{deviceId}'' else pattern)"
  proof
    assume lit: "pattern \<in> {''/health'', ''/ready'', ''/metrics'', ''/v1/auth/register'', ''/v1/auth/login'',
      ''/v1/auth/refresh'', ''/v1/devices'', ''/v1/transfers'', ''/v1/events''}"
    have "pattern \<noteq> ''/v1/devices/{deviceId}/push-token''" using lit by (elim insertE emptyE) simp_all
    with literal_route [OF lit path] show ?thesis by simp
  next
    assume "pattern \<in> {''/v1/devices/{deviceId}/push-token'', ''/v1/devices/{deviceId}'',
      ''/v1/transfers/{transferId}'', ''/v1/transfers/{transferId}/uploaded'',
      ''/v1/transfers/{transferId}/complete'', ''/v1/presence/{deviceId}'', ''/dev-upload/{transferId}'',
      ''/dev-download/{transferId}''}"
    from wildcard_label [OF this path ids] show ?thesis .
  qed
qed

lemma metric_labels_are_route_patterns_example:
  "normalizedRoute ''/v1/transfers/t9'' =
     (if ''/v1/transfers/{transferId}'' = ''/v1/devices/{deviceId}/push-token'' then ''/v1/devices/{deviceId}''
      else ''/v1/transfers/{transferId}'') \<and>
   (\<forall>p. normalizedRoute p \<in> route_labels)"
proof (rule metric_labels_are_route_patterns)
  show "(''GET'', ''/v1/transfers/{transferId}'', h_getTransfer demo_server demo_http_env)
      \<in> set (mux_routes demo_server demo_http_env)" by (simp add: mux_routes_def)
  show "match_path ''/v1/transfers/{transferId}'' ''/v1/transfers/t9'' = Some [(''transferId'', ''t9'')]"
    by (simp add: match_path_def wildcard_eval)
qed simp_all

section \<open>The request id and the idempotency middleware\<close>

lemma header_at_first_WriteHeader:
  assumes "sw_sent w = None"
  shows "rs_header (response_of (fold sw_apply (WriteHeader n # ops) w)) = sw_header w"
proof -
  have "sw_sent (sw_apply (WriteHeader n) w) = Some (n, sw_header w)"
    using assms by (simp add: sw_WriteHeader_def)
  then have "sw_sent (fold sw_apply (WriteHeader n # ops) w) = Some (n, sw_header w)"
    by (simp add: sw_sent_stays)
  then show ?thesis by (simp add: response_of_def)
qed

lemma served_after_id:
  assumes "wf_header (bw_header rec)"
  shows "rs_header (served (SetHeader k v # own_reply rec)) = bw_header rec"
    and "rs_header (served (SetHeader k v # replay_of rec)) =
      header_Set (bw_header rec) ''Idempotency-Replayed'' ''true''"
  using assms header_at_first_WriteHeader
  by (simp_all add: served_Cons own_reply_def replay_of_def copyHeader_wf fresh_writer_def del: fold_simps)

text \<open>
  The request id does not survive the idempotency middleware. For any handler that sets no request id
  itself and any interleaving of requests, every answer given from the idempotency store, to the request that
  was executed as well as to its retries, reaches the client without the X-Request-ID header the outermost
  middleware had set, because the stored header replaces the whole header map.
\<close>

lemma idempotent_answers_lose_request_id:
  assumes "idem_reachable arr nxt ttl s" and "(r, a, ops) \<in> set (is_replies s)"
    and none: "\<And>r b. header_Get (bw_header (buffered (fst (nxt r b)))) ''X-Request-ID'' = ''''"
    and obs: "observe len rnd t0 t1 (\<lambda>r x. (ops, x)) r (m, logs, x) = (sent, st')"
  shows "header_Get (rs_header (served sent)) ''X-Request-ID'' = ''''"
proof -
  have inv: "idem_inv ttl s" using assms(1) by (rule idem_reachable_inv)
  obtain rec where rec: "(a, rec) \<in> set (is_execs s)" "ops = own_reply rec \<or> ops = replay_of rec"
    using inv assms(2) unfolding idem_inv_def replies_ok_def by blast
  obtain b where b: "rec = buffered (fst (nxt (te_request (is_heap s ! a)) b))"
    using reachable_execs_ran [OF assms(1)] rec(1) unfolding execs_ran_def by blast
  have wf: "wf_header (bw_header rec)" by (simp add: b buffered_header_wf)
  have no_id: "header_Get (bw_header rec) ''X-Request-ID'' = ''''" using none by (simp add: b)
  have keys: "CanonicalHeaderKey ''Idempotency-Replayed'' \<noteq> CanonicalHeaderKey ''X-Request-ID''" by code_simp
  have "header_Get (header_Set (bw_header rec) ''Idempotency-Replayed'' ''true'') ''X-Request-ID'' = ''''"
    using no_id keys by (simp add: header_Get_def header_Set_def)
  with rec(2) no_id served_after_id [OF wf] observe_served [OF obs] show ?thesis by auto
qed

lemma idempotent_answers_lose_request_id_example:
  "header_Get (rs_header (served (fst (observe (\<lambda>p. 1) (Inr [CHR 0x0A]) 0 1
      (\<lambda>r x. (own_reply failed_rec, x)) post (None, [], ()))))) ''X-Request-ID'' = ''''"
proof -
  have reply: "(post, 0, own_reply failed_rec) \<in> set (is_replies post_failed)" by (simp add: post_failed_def)
  have none: "header_Get (bw_header (buffered (fst (failing r b)))) ''X-Request-ID'' = ''''" for r b
    by (simp add: failing_def) code_simp
  show ?thesis
    by (rule idempotent_answers_lose_request_id [OF reach_failed reply none prod.collapse [symmetric]])
qed

end
