(* ===== verification/IdempotencyLimits.thy ===== *)
theory IdempotencyLimits
  imports IdempotencyProps Middleware
begin

text \<open>
  The in-memory idempotency middleware around the rate limiter, in the order New composes them: an answer
  below 500 is final for its key until the time to live has passed, a denial by the limiter included.
\<close>

lemma served_replay_status: "rs_status (served (replay_reply e)) = ie_status e"
  by (simp add: status_served replay_reply_def)

text \<open>
  A stored answer is final until it expires. Once an execution has ended with a status below 500 and its
  answer is stored, then until the time to live counted from the executed request has passed, every request
  with that user and key is either a conflict, when its content differs, or waits for that entry and so gets
  the stored status, whatever the handler would answer by now. (In New the handler includes the rate limiter,
  so a denial with status 429 is repeated for 24 hours, though it asks to retry within a minute.)
\<close>

lemma stored_answer_is_final:
  assumes "idem_reachable arr nxt ttl s" and "(a, rec) \<in> set (is_execs s)" and "ie_ready (is_heap s ! a)"
    and "bw_status rec < 500" and "is_clock s < te_now (is_heap s ! a) + ttl" and "now \<le> is_clock s"
  shows "idem_decide (is_heap s) (pruneExpiredLocked now (is_heap s) (is_entries s)) (te_key (is_heap s ! a)) fp =
      (if fp = fp_of (te_request (is_heap s ! a)) then Wait a else Conflict) \<and>
    rs_status (served (replay_reply (is_heap s ! a))) = bw_status rec"
proof -
  have inv: "idem_inv ttl s" using assms(1) by (rule idem_reachable_inv)
  have len: "a < length (is_heap s)" using inv assms(2) unfolding idem_inv_def execs_ok_def by blast
  have st: "ie_status (is_heap s ! a) = bw_status rec" by (rule entry_result [OF inv assms(2,3)])
  have ok: "entry_ok ttl (is_clock s) (is_entries s) (is_execs s) a (is_heap s ! a)"
    using inv len by (simp add: idem_inv_def entries_ok_def)
  with assms(3-5) st have key: "is_entries s (te_key (is_heap s ! a)) = Some a"
    and fp: "ie_fingerprint (is_heap s ! a) = fp_of (te_request (is_heap s ! a))"
    and fill: "filled ttl (is_execs s) a (is_heap s ! a)"
    by (auto simp: entry_ok_def)
  from fill obtain rec' e where e: "is_heap s ! a = fill_entry ttl (te_now e) rec' e"
    unfolding filled_def by blast
  then have "ie_expiresAt (is_heap s ! a) = Some (te_now (is_heap s ! a) + ttl)" by simp
  with assms(5,6) have "\<not> entry_expired now (is_heap s ! a)" by (simp add: entry_expired_def)
  with key fp st show ?thesis
    by (simp add: idem_decide_def pruneExpiredLocked_def served_replay_status)
qed

text \<open>A limiter that denies its first call, in front of a handler that would have answered 201.\<close>

definition denied :: Decision where
  "denied = \<lparr>dc_Allowed = False, dc_Limit = 120, dc_Remaining = 0, dc_ResetAfter = 30 * second\<rparr>"

definition limited :: "(bool \<times> unit) handler" where
  "limited = withRateLimit (\<lambda>key n window first. (Inr (denied\<lparr>dc_Allowed := \<not> first\<rparr>), False))
     (\<lambda>r u. ([WriteHeader 201], u))"

definition denied_ops :: "writer_op list" where
  "denied_ops =
     rate_limit_headers denied @ [SetHeader ''Retry-After'' (FormatInt (retry_after (30 * second)))] @
     writeError 429 ''rate_limited'' ''too many requests''"

lemma limited_first: "limited post (True, ()) = (denied_ops, (False, ()))"
  using withRateLimit_api [of post "\<lambda>key n window first. (Inr (denied\<lparr>dc_Allowed := \<not> first\<rparr>), False)" True
      "Inr (denied\<lparr>dc_Allowed := False\<rparr>)" False "\<lambda>r u. ([WriteHeader 201], u)" "()"]
  by (simp add: limited_def denied_ops_def denied_def HasPrefix_def post_def)

definition denied_rec :: bufferedResponseWriter where
  "denied_rec = buffered denied_ops"

lemma bw_status_stays:
  "bw_wroteHeader w \<Longrightarrow> bw_status (fold bw_apply ops w) = bw_status w"
proof (induction ops arbitrary: w)
  case (Cons x ops)
  then show ?case by (cases x) (auto simp: bw_WriteHeader_def bw_Write_def Let_def)
qed simp

lemma bw_status_fold:
  "\<not> bw_wroteHeader w \<Longrightarrow> bw_status w = 200 \<Longrightarrow> bw_status (fold bw_apply ops w) = status_of ops"
proof (induction ops arbitrary: w)
  case (Cons x ops)
  then show ?case by (cases x) (auto simp: bw_WriteHeader_def bw_Write_def Let_def bw_status_stays)
qed simp

lemma buffered_status: "bw_status (buffered ops) = status_of ops"
  by (simp add: buffered_def bw_status_fold newBufferedResponseWriter_def)

lemma denied_rec_status: "bw_status denied_rec = 429"
  by (simp add: denied_rec_def buffered_status denied_ops_def rate_limit_headers_def)

text \<open>The first request with its key has been denied and its answer stored.\<close>

definition denied_state :: "(bool \<times> unit) idem_state" where
  "denied_state =
     (idem_start (False, ()) 0)\<lparr>is_entries := [post_key \<mapsto> 0],
        is_heap := [fill_entry (24 * hour) 0 denied_rec post_entry],
        is_execs := [(0, denied_rec)], is_replies := [(post, 0, own_reply denied_rec)]\<rparr>"

lemma reach_denied: "idem_reachable any_request limited (24 * hour) denied_state"
proof -
  let ?ttl = "24 * hour"
  let ?s = "idem_start (True, ()) 0 :: (bool \<times> unit) idem_state"
  let ?s1 = "?s\<lparr>is_entries := [post_key \<mapsto> 0], is_heap := [post_entry], is_procs := [0 \<mapsto> Leading 0 post post_key 0]\<rparr>"
  let ?s2 = "?s1\<lparr>is_execs := [(0, denied_rec)], is_procs := [0 \<mapsto> Ran 0 post post_key 0 denied_rec],
      is_backend := (False, ())\<rparr>"
  have "idem_step any_request limited ?ttl ?s (?s\<lparr>is_entries := Map.empty(post_key \<mapsto> 0),
      is_heap := is_heap ?s @ [new_entry post_fp post_key post 0 (is_clock ?s)],
      is_procs := (is_procs ?s)(0 \<mapsto> Leading 0 post post_key 0)\<rparr>)"
    by (rule idem_step.lead [OF post_bypassed post_admit])
      (auto simp: idem_start_def pruneExpiredLocked_def idem_decide_def)
  then have st1: "idem_step any_request limited ?ttl ?s ?s1" by (simp add: idem_start_def post_entry_def)
  have "is_procs ?s1 0 = Some (Leading 0 post post_key 0)" by simp
  from idem_step.run [OF this, of limited denied_ops "(False, ())" any_request ?ttl] limited_first
  have st2: "idem_step any_request limited ?ttl ?s1 ?s2" by (simp add: idem_start_def denied_rec_def)
  have "is_procs ?s2 0 = Some (Ran 0 post post_key 0 denied_rec)" by simp
  from idem_step.commit [OF this, of any_request limited ?ttl]
  have st3: "idem_step any_request limited ?ttl ?s2 denied_state"
    by (simp add: denied_state_def idem_start_def commit_entries_def denied_rec_status)
  from st1 st2 st3 show ?thesis unfolding idem_reachable_def
    by (meson r_into_rtranclp rtranclp.rtrancl_into_rtrancl)
qed

lemma stored_answer_is_final_example:
  "idem_decide (is_heap denied_state) (pruneExpiredLocked 0 (is_heap denied_state) (is_entries denied_state))
     post_key post_fp = Wait 0 \<and>
   rs_status (served (replay_reply (is_heap denied_state ! 0))) = 429"
  using stored_answer_is_final [OF reach_denied, of 0 denied_rec 0 post_fp]
  by (simp add: denied_state_def denied_rec_status idem_start_def post_entry_def)

end
