(* ===== verification/RedisIdempotency.thy ===== *)
theory RedisIdempotency
  imports Idempotency Redis
begin

text \<open>
  The idempotency middleware shared through Redis, \<^verbatim>\<open>httpapi/idempotency_redis.go\<close>: the commands it sends,
  each as one atomic exchange, and concurrent requests on any number of replicas as a step relation over the
  Redis server. The JSON texts of locks and records are parameters.
\<close>

section \<open>Data\<close>

definition redisIdempotencyLockTTL :: int where
  "redisIdempotencyLockTTL = 60000"

record redisIdempotencyRecord =
  ri_Fingerprint :: string
  ri_Status :: int
  ri_Header :: header
  ri_Body :: "body_part list"

record redisIdempotencyLock =
  rl_Fingerprint :: string
  rl_Owner :: string

record idem_codec =
  ic_lock :: "redisIdempotencyLock \<Rightarrow> string"
  ic_parse_lock :: "string \<Rightarrow> redisIdempotencyLock option"
  ic_record :: "redisIdempotencyRecord \<Rightarrow> string"
  ic_parse_record :: "string \<Rightarrow> redisIdempotencyRecord option"

definition requestKeyHash :: "string \<Rightarrow> string" where
  "requestKeyHash key = hex_EncodeToString (sha256_Sum256 key)"

definition redisIdempotencyKeys :: "string \<Rightarrow> string \<times> string" where
  "redisIdempotencyKeys key =
     (let base = ''pixelgo:idempotency:'' @ requestKeyHash key in (base @ '':result'', base @ '':lock''))"

abbreviation result_key :: "string \<Rightarrow> string" where "result_key key \<equiv> fst (redisIdempotencyKeys key)"
abbreviation lock_key :: "string \<Rightarrow> string" where "lock_key key \<equiv> snd (redisIdempotencyKeys key)"

definition randomOwner :: "(string, bytes) result \<Rightarrow> (string, string) result" where
  "randomOwner rnd = (case rnd of Inl e \<Rightarrow> Inl e | Inr b \<Rightarrow> Inr (hex_EncodeToString b))"

text \<open>The guards, with the body read by the middleware's own helper; they are those of the in-memory middleware.\<close>

definition readIdempotentBody :: "http_request \<Rightarrow> (writer_op list, bytes \<times> http_request) result" where
  "readIdempotentBody r =
     (case readRequestBody r of
        Inl BodyTooLarge \<Rightarrow> Inl (writeError 413 ''request_too_large'' ''request body exceeds 1 MiB'')
      | Inl (BodyFailed _) \<Rightarrow> Inl (writeError 400 ''invalid_request'' ''could not read request body'')
      | Inr body \<Rightarrow> Inr body)"

definition redis_admit :: "http_request \<Rightarrow> (writer_op list, http_request \<times> string \<times> string) result" where
  "redis_admit r =
     (let key = header_Get (rq_Header r) ''Idempotency-Key'' in
      if length key > 128
      then Inl (writeError 400 ''invalid_idempotency_key'' ''idempotency key exceeds 128 characters'')
      else case readIdempotentBody r of
        Inl ops \<Rightarrow> Inl ops
      | Inr (body, r') \<Rightarrow> Inr (r', requestFingerprint r' body, scopedIdempotencyKey r' key))"

lemma redis_admit_eq: "redis_admit r = idempotency_admit r"
  by (auto simp: redis_admit_def idempotency_admit_def readIdempotentBody_def Let_def
      split: sum.splits body_error.splits)

section \<open>Exchanges with Redis\<close>

definition getRedisIdempotencyResult ::
  "'r redis \<Rightarrow> idem_codec \<Rightarrow> fault \<Rightarrow> int \<Rightarrow> string \<Rightarrow> 'r \<Rightarrow>
   (string, redisIdempotencyRecord option, 'r) outcome" where
  "getRedisIdempotencyResult rd codec f t resultKey r =
     (case exchange f (\<lambda>r. (rd_GET rd t resultKey r, r)) r of
        (Inl e, r') \<Rightarrow> (Inl e, r')
      | (Inr None, r') \<Rightarrow> (Inr None, r')
      | (Inr (Some data), r') \<Rightarrow>
          (case ic_parse_record codec data of
             None \<Rightarrow> (Inl ''invalid record'', r')
           | Some rec \<Rightarrow> (Inr (Some rec), r')))"

definition commitIdempotencyScript ::
  "'r redis \<Rightarrow> int \<Rightarrow> string \<Rightarrow> string \<Rightarrow> string \<Rightarrow> string \<Rightarrow> int \<Rightarrow> 'r \<Rightarrow> (string, int, 'r) outcome" where
  "commitIdempotencyScript rd t lockKey resultKey owner data ms r =
     (case rd_GET rd t lockKey r of
        Inl e \<Rightarrow> (Inl e, r)
      | Inr v \<Rightarrow>
          if v \<noteq> Some owner then (Inr 0, r)
          else (Inr 1, snd (rd_DEL rd t lockKey (rd_SET rd t resultKey data (Some ms) r))))"

definition releaseIdempotencyScript ::
  "'r redis \<Rightarrow> int \<Rightarrow> string \<Rightarrow> string \<Rightarrow> 'r \<Rightarrow> (string, int, 'r) outcome" where
  "releaseIdempotencyScript rd t lockKey owner r =
     (case rd_GET rd t lockKey r of
        Inl e \<Rightarrow> (Inl e, r)
      | Inr v \<Rightarrow>
          if v = Some owner then (let (n, r') = rd_DEL rd t lockKey r in (Inr n, r'))
          else (Inr 0, r))"

definition commitRedisIdempotency ::
  "'r redis \<Rightarrow> idem_codec \<Rightarrow> fault \<Rightarrow> int \<Rightarrow> string \<Rightarrow> string \<Rightarrow> redisIdempotencyRecord \<Rightarrow> duration \<Rightarrow> 'r \<Rightarrow>
   (string, int, 'r) outcome" where
  "commitRedisIdempotency rd codec f t key owner rec ttl r =
     (let (resultKey, lockKey) = redisIdempotencyKeys key in
      exchange f (commitIdempotencyScript rd t lockKey resultKey owner (ic_record codec rec)
        (ttl div 1000000)) r)"

definition releaseRedisIdempotency ::
  "'r redis \<Rightarrow> fault \<Rightarrow> int \<Rightarrow> string \<Rightarrow> string \<Rightarrow> 'r \<Rightarrow> (string, int, 'r) outcome" where
  "releaseRedisIdempotency rd f t key owner r =
     (let (_, lockKey) = redisIdempotencyKeys key in exchange f (releaseIdempotencyScript rd t lockKey owner) r)"

section \<open>Acquiring\<close>

text \<open>
  acquireRedisIdempotency loops over three exchanges. Each definition is one of them with the code up to the
  next; its outcome is the value acquireRedisIdempotency returns, or the exchange it goes on to.
\<close>

datatype acquire_result =
    AcqError string
  | AcqConflict
  | AcqReplayed redisIdempotencyRecord
  | AcqLeader string
  | GoGet
  | GoLock
  | GoPeek

definition acquire_get ::
  "'r redis \<Rightarrow> idem_codec \<Rightarrow> fault \<Rightarrow> int \<Rightarrow> string \<Rightarrow> string \<Rightarrow> 'r \<Rightarrow> acquire_result \<times> 'r" where
  "acquire_get rd codec f t key fingerprint r =
     (case getRedisIdempotencyResult rd codec f t (result_key key) r of
        (Inl e, r') \<Rightarrow> (AcqError e, r')
      | (Inr None, r') \<Rightarrow> (GoLock, r')
      | (Inr (Some rec), r') \<Rightarrow>
          if ri_Fingerprint rec \<noteq> fingerprint then (AcqConflict, r') else (AcqReplayed rec, r'))"

definition acquire_lock ::
  "'r redis \<Rightarrow> idem_codec \<Rightarrow> fault \<Rightarrow> int \<Rightarrow> (string, bytes) result \<Rightarrow> string \<Rightarrow> string \<Rightarrow> 'r \<Rightarrow>
   acquire_result \<times> 'r" where
  "acquire_lock rd codec f t rnd key fingerprint r =
     (case randomOwner rnd of
        Inl e \<Rightarrow> (AcqError e, r)
      | Inr owner \<Rightarrow>
          let lockData = ic_lock codec \<lparr>rl_Fingerprint = fingerprint, rl_Owner = owner\<rparr> in
          (case exchange f (\<lambda>r. let (ok, r') = rd_SETNX rd t (lock_key key) lockData redisIdempotencyLockTTL r
                                in (Inr ok, r')) r of
             (Inl e, r') \<Rightarrow> (AcqError e, r')
           | (Inr acquired, r') \<Rightarrow> (if acquired then AcqLeader lockData else GoPeek, r')))"

text \<open>The wait of 25 milliseconds ends in another round, or with the request's context.\<close>

definition acquire_peek ::
  "'r redis \<Rightarrow> idem_codec \<Rightarrow> fault \<Rightarrow> int \<Rightarrow> bool \<Rightarrow> string \<Rightarrow> string \<Rightarrow> 'r \<Rightarrow> acquire_result \<times> 'r" where
  "acquire_peek rd codec f t cancelled key fingerprint r =
     (case exchange f (\<lambda>r. (rd_GET rd t (lock_key key) r, r)) r of
        (Inl e, r') \<Rightarrow> (AcqError e, r')
      | (Inr None, r') \<Rightarrow> (GoGet, r')
      | (Inr (Some existingLock), r') \<Rightarrow>
          (case ic_parse_lock codec existingLock of
             None \<Rightarrow> (AcqError ''invalid lock'', r')
           | Some parsed \<Rightarrow>
               if rl_Fingerprint parsed \<noteq> fingerprint then (AcqConflict, r')
               else if cancelled then (AcqError ''context done'', r')
               else (GoGet, r')))"

section \<open>Answers\<close>

definition writeStoredResponse :: "redisIdempotencyRecord \<Rightarrow> bool \<Rightarrow> writer_op list" where
  "writeStoredResponse rec replayed =
     CopyHeader (ri_Header rec) #
     (if replayed then [SetHeader ''Idempotency-Replayed'' ''true''] else []) @
     WriteHeader (ri_Status rec) # map Write (ri_Body rec)"

definition idem_unavailable :: "writer_op list" where
  "idem_unavailable =
     writeError 503 ''idempotency_unavailable'' ''retry coordination is temporarily unavailable''"

definition redis_conflict_reply :: "writer_op list" where
  "redis_conflict_reply =
     writeError 409 ''idempotency_key_reused'' ''idempotency key reused with a different request''"

text \<open>The record of what the handler wrote, and the exchange that ends an execution.\<close>

definition result_record :: "string \<Rightarrow> bufferedResponseWriter \<Rightarrow> redisIdempotencyRecord" where
  "result_record fingerprint rec =
     \<lparr>ri_Fingerprint = fingerprint, ri_Status = bw_status rec, ri_Header = bw_header rec, ri_Body = bw_body rec\<rparr>"

definition finish_execution ::
  "'r redis \<Rightarrow> idem_codec \<Rightarrow> fault \<Rightarrow> int \<Rightarrow> string \<Rightarrow> string \<Rightarrow> redisIdempotencyRecord \<Rightarrow> duration \<Rightarrow> 'r \<Rightarrow> 'r" where
  "finish_execution rd codec f t key owner rec ttl r =
     (if ri_Status rec \<ge> 500 then snd (releaseRedisIdempotency rd f t key owner r)
      else snd (commitRedisIdempotency rd codec f t key owner rec ttl r))"

section \<open>Concurrent requests\<close>

text \<open>
  A request after the guards: its handler request, fingerprint and storage key. An execution carries the lock
  it was given and, for the proofs, the time it was acquired.
\<close>

record admitted =
  ad_request :: http_request
  ad_fingerprint :: string
  ad_key :: string

datatype redis_proc =
    Getting admitted
  | Locking admitted
  | Peeking admitted
  | RLeading admitted string int
  | RRan admitted string int bufferedResponseWriter

fun after_acquire :: "admitted \<Rightarrow> int \<Rightarrow> acquire_result \<Rightarrow> redis_proc + writer_op list" where
  "after_acquire q t (AcqError e) = Inr idem_unavailable"
| "after_acquire q t AcqConflict = Inr redis_conflict_reply"
| "after_acquire q t (AcqReplayed rec) = Inr (writeStoredResponse rec True)"
| "after_acquire q t (AcqLeader owner) = Inl (RLeading q owner t)"
| "after_acquire q t GoGet = Inl (Getting q)"
| "after_acquire q t GoLock = Inl (Locking q)"
| "after_acquire q t GoPeek = Inl (Peeking q)"

record ('r, 's) redis_idem_state =
  xs_redis :: 'r
  xs_clock :: int
  xs_backend :: 's
  xs_procs :: "nat \<rightharpoonup> redis_proc"
  xs_locks :: "string set"
  xs_execs :: "(admitted \<times> bufferedResponseWriter) list"
  xs_replies :: "(admitted \<times> writer_op list) list"

text \<open>A request moves on, or is answered and gone.\<close>

fun proceed ::
  "nat \<Rightarrow> admitted \<Rightarrow> redis_proc + writer_op list \<Rightarrow> ('r, 's) redis_idem_state \<Rightarrow> ('r, 's) redis_idem_state" where
  "proceed p q (Inl x) s = s\<lparr>xs_procs := (xs_procs s)(p \<mapsto> x)\<rparr>"
| "proceed p q (Inr ops) s = s\<lparr>xs_procs := (xs_procs s)(p := None), xs_replies := xs_replies s @ [(q, ops)]\<rparr>"

text \<open>
  One step of one request, or of time. Random owners are assumed never to repeat a lock text. A request may
  also vanish at any point (its replica stops, or its handler panics).
\<close>

inductive redis_step ::
  "'r redis \<Rightarrow> idem_codec \<Rightarrow> (http_request \<Rightarrow> bool) \<Rightarrow> 's handler \<Rightarrow> duration \<Rightarrow>
   ('r, 's) redis_idem_state \<Rightarrow> ('r, 's) redis_idem_state \<Rightarrow> bool"
  for rd :: "'r redis" and codec :: idem_codec and arr :: "http_request \<Rightarrow> bool" and nxt :: "'s handler" and ttl :: duration where
  xtick: "xs_clock s \<le> t \<Longrightarrow> redis_step rd codec arr nxt ttl s (s\<lparr>xs_clock := t\<rparr>)"
| xbypass: "idempotency_bypassed r \<Longrightarrow> arr r \<Longrightarrow>
    redis_step rd codec arr nxt ttl s (s\<lparr>xs_backend := snd (nxt r (xs_backend s))\<rparr>)"
| xstart: "\<not> idempotency_bypassed r \<Longrightarrow> redis_admit r = Inr (r', fp, key) \<Longrightarrow> xs_procs s p = None \<Longrightarrow> arr r \<Longrightarrow>
    redis_step rd codec arr nxt ttl s
      (s\<lparr>xs_procs := (xs_procs s)(p \<mapsto> Getting \<lparr>ad_request = r', ad_fingerprint = fp, ad_key = key\<rparr>)\<rparr>)"
| xget: "xs_procs s p = Some (Getting q) \<Longrightarrow>
    acquire_get rd codec f (xs_clock s) (ad_key q) (ad_fingerprint q) (xs_redis s) = (a, r') \<Longrightarrow>
    redis_step rd codec arr nxt ttl s (proceed p q (after_acquire q (xs_clock s) a) (s\<lparr>xs_redis := r'\<rparr>))"
| xlock: "xs_procs s p = Some (Locking q) \<Longrightarrow>
    (\<And>owner. randomOwner rnd = Inr owner \<Longrightarrow>
       lockData = ic_lock codec \<lparr>rl_Fingerprint = ad_fingerprint q, rl_Owner = owner\<rparr>) \<Longrightarrow>
    lockData \<notin> xs_locks s \<Longrightarrow>
    acquire_lock rd codec f (xs_clock s) rnd (ad_key q) (ad_fingerprint q) (xs_redis s) = (a, r') \<Longrightarrow>
    redis_step rd codec arr nxt ttl s
      (proceed p q (after_acquire q (xs_clock s) a)
         (s\<lparr>xs_redis := r', xs_locks := insert lockData (xs_locks s)\<rparr>))"
| xpeek: "xs_procs s p = Some (Peeking q) \<Longrightarrow>
    acquire_peek rd codec f (xs_clock s) cancelled (ad_key q) (ad_fingerprint q) (xs_redis s) = (a, r') \<Longrightarrow>
    redis_step rd codec arr nxt ttl s (proceed p q (after_acquire q (xs_clock s) a) (s\<lparr>xs_redis := r'\<rparr>))"
| xrun: "xs_procs s p = Some (RLeading q owner t) \<Longrightarrow> nxt (ad_request q) (xs_backend s) = (ops, b) \<Longrightarrow>
    redis_step rd codec arr nxt ttl s
      (s\<lparr>xs_backend := b, xs_procs := (xs_procs s)(p \<mapsto> RRan q owner t (buffered ops)),
         xs_execs := xs_execs s @ [(q, buffered ops)]\<rparr>)"
| xfinish: "xs_procs s p = Some (RRan q owner t rec) \<Longrightarrow>
    r' = finish_execution rd codec f (xs_clock s) (ad_key q) owner (result_record (ad_fingerprint q) rec) ttl
           (xs_redis s) \<Longrightarrow>
    redis_step rd codec arr nxt ttl s
      (proceed p q (Inr (writeStoredResponse (result_record (ad_fingerprint q) rec) False)) (s\<lparr>xs_redis := r'\<rparr>))"
| xvanish: "redis_step rd codec arr nxt ttl s (s\<lparr>xs_procs := (xs_procs s)(p := None), xs_backend := b\<rparr>)"

definition redis_idem_start :: "'r \<Rightarrow> int \<Rightarrow> 's \<Rightarrow> ('r, 's) redis_idem_state" where
  "redis_idem_start r t b =
     \<lparr>xs_redis = r, xs_clock = t, xs_backend = b, xs_procs = Map.empty, xs_locks = {}, xs_execs = [],
      xs_replies = []\<rparr>"

end
