(* ===== verification/RedisIdempotencyProps.thy ===== *)
theory RedisIdempotencyProps
  imports RedisIdempotency IdempotencyProps
begin

text \<open>
  The properties of the Redis idempotency middleware, over every Redis that behaves as documented, under any
  interleaving and any failure of an exchange: the lock excludes concurrent executions for its lifetime,
  answers come from executions, and the execution that the lock does not prevent.
\<close>

section \<open>Keys\<close>

lemma redis_keys_differ [simp]: "lock_key k \<noteq> result_key k'" "result_key k' \<noteq> lock_key k"
proof -
  have "lock_key k \<noteq> result_key k'"
  proof
    assume "lock_key k = result_key k'"
    then have "last (lock_key k) = last (result_key k')" by simp
    then show False by (simp add: redisIdempotencyKeys_def Let_def)
  qed
  then show "lock_key k \<noteq> result_key k'" "result_key k' \<noteq> lock_key k" by metis+
qed

lemma result_key_eq: "result_key k = result_key k' \<longleftrightarrow> requestKeyHash k = requestKeyHash k'"
  by (simp add: redisIdempotencyKeys_def Let_def)

lemma lock_key_eq: "lock_key k = lock_key k' \<longleftrightarrow> requestKeyHash k = requestKeyHash k'"
  by (simp add: redisIdempotencyKeys_def Let_def)

section \<open>Effects of the exchanges\<close>

lemma acquire_get_redis: "acquire_get rd codec f t key fp r = (a, r') \<Longrightarrow> r' = r"
  by (auto simp: acquire_get_def getRedisIdempotencyResult_def exchange_def
      split: fault.splits sum.splits option.splits prod.splits if_splits)

lemma acquire_peek_redis: "acquire_peek rd codec f t c key fp r = (a, r') \<Longrightarrow> r' = r"
  by (auto simp: acquire_peek_def exchange_def
      split: fault.splits sum.splits option.splits prod.splits if_splits)

lemma acquire_get_no_leader: "acquire_get rd codec f t key fp r \<noteq> (AcqLeader owner, r')"
  by (auto simp: acquire_get_def split: sum.splits option.splits prod.splits)

lemma acquire_peek_no_leader: "acquire_peek rd codec f t c key fp r \<noteq> (AcqLeader owner, r')"
  by (auto simp: acquire_peek_def split: sum.splits option.splits prod.splits)

text \<open>A request that has acquired its lock and not finished: its lock text and the time of acquisition.\<close>

fun holder :: "redis_proc \<Rightarrow> (admitted \<times> string \<times> int) option" where
  "holder (RLeading q owner ta) = Some (q, owner, ta)"
| "holder (RRan q owner ta rec) = Some (q, owner, ta)"
| "holder _ = None"

definition executing :: "('r, 's) redis_idem_state \<Rightarrow> nat \<Rightarrow> (admitted \<times> string \<times> int) option" where
  "executing s p = (case xs_procs s p of None \<Rightarrow> None | Some x \<Rightarrow> holder x)"

context redis_server begin

lemma lock_effect:
  assumes "acquire_lock rd codec f t rnd key fp r = (a, r')"
    and "\<And>owner. randomOwner rnd = Inr owner \<Longrightarrow>
      lockData = ic_lock codec \<lparr>rl_Fingerprint = fp, rl_Owner = owner\<rparr>"
  shows "r' = r \<and> (\<forall>owner. a \<noteq> AcqLeader owner) \<or>
    view r t (lock_key key) \<noteq> None \<and> view r' t = view r t \<and> (\<forall>owner. a \<noteq> AcqLeader owner) \<or>
    view r t (lock_key key) = None \<and>
      view r' t = (view r t)(lock_key key \<mapsto> (lockData, Some (t + redisIdempotencyLockTTL))) \<and>
      (\<forall>owner. a = AcqLeader owner \<longrightarrow> owner = lockData)"
proof (cases "randomOwner rnd")
  case (Inl e)
  with assms(1) show ?thesis by (auto simp: acquire_lock_def)
next
  case (Inr owner)
  note data = assms(2) [OF Inr]
  have ttl: "0 < redisIdempotencyLockTTL" by (simp add: redisIdempotencyLockTTL_def)
  obtain ok r1 where nx: "rd_SETNX rd t (lock_key key) lockData redisIdempotencyLockTTL r = (ok, r1)"
    by fastforce
  have taken: "view r t (lock_key key) \<noteq> None \<Longrightarrow> \<not> ok \<and> view r1 t = view r t"
    using SETNX_taken [of r t "lock_key key" lockData redisIdempotencyLockTTL] nx by auto
  have free: "view r t (lock_key key) = None \<Longrightarrow>
      view r1 t = (view r t)(lock_key key \<mapsto> (lockData, Some (t + redisIdempotencyLockTTL)))"
    using SETNX_free [OF ttl, of r t "lock_key key" lockData] nx by auto
  show ?thesis
  proof (cases f)
    case NoFault
    with assms(1) Inr nx data have "r' = r1" "a = (if ok then AcqLeader lockData else GoPeek)"
      by (auto simp: acquire_lock_def Let_def exchange_def)
    then show ?thesis using taken free by (cases "view r t (lock_key key)") auto
  next
    case (LostRequest e)
    with assms(1) Inr show ?thesis by (auto simp: acquire_lock_def Let_def exchange_def)
  next
    case (LostReply e)
    with assms(1) Inr nx data have "r' = r1" "a = AcqError e"
      by (auto simp: acquire_lock_def Let_def exchange_def)
    then show ?thesis using taken free by (cases "view r t (lock_key key)") auto
  qed
qed

text \<open>
  Finishing removes the lock, and stores the result, only while the lock still holds its owner's text.
\<close>

lemma finish_effect:
  assumes "finish_execution rd codec f t key owner rec ttl r = r'" and "0 < ttl div 1000000"
  shows "view r' t = view r t \<or>
    (\<exists>dl. view r t (lock_key key) = Some (owner, dl)) \<and>
    (view r' t = (view r t)(lock_key key := None) \<or>
     ri_Status rec < 500 \<and>
     view r' t = (view r t)(result_key key \<mapsto> (ic_record codec rec, Some (t + ttl div 1000000)),
                            lock_key key := None))"
proof (cases "map_option fst (view r t (lock_key key)) = Some owner")
  case False
  then have "snd (releaseIdempotencyScript rd t (lock_key key) owner r) = r"
    "snd (commitIdempotencyScript rd t (lock_key key) (result_key key) owner d ms r) = r" for d ms
    by (simp_all add: releaseIdempotencyScript_def commitIdempotencyScript_def GET)
  with assms(1) have "r' = r"
    by (cases f) (auto simp: finish_execution_def releaseRedisIdempotency_def commitRedisIdempotency_def
        exchange_def split: prod.splits if_splits)
  then show ?thesis by simp
next
  case True
  then have held: "\<exists>dl. view r t (lock_key key) = Some (owner, dl)" by auto
  have rel: "view (snd (releaseIdempotencyScript rd t (lock_key key) owner r)) t = (view r t)(lock_key key := None)"
    using True DEL [of t "lock_key key" r]
    by (simp add: releaseIdempotencyScript_def GET split: prod.split) (metis snd_conv)
  have set: "view (rd_SET rd t (result_key key) (ic_record codec rec) (Some (ttl div 1000000)) r) t =
      (view r t)(result_key key \<mapsto> (ic_record codec rec, Some (t + ttl div 1000000)))"
    by (subst SET) (use assms(2) in auto)
  have com: "view (snd (commitIdempotencyScript rd t (lock_key key) (result_key key) owner
      (ic_record codec rec) (ttl div 1000000) r)) t =
      (view r t)(result_key key \<mapsto> (ic_record codec rec, Some (t + ttl div 1000000)), lock_key key := None)"
    using True by (simp add: commitIdempotencyScript_def GET DEL set)
  from assms(1) have "r' = r \<or>
      ri_Status rec \<ge> 500 \<and> r' = snd (releaseIdempotencyScript rd t (lock_key key) owner r) \<or>
      ri_Status rec < 500 \<and> r' = snd (commitIdempotencyScript rd t (lock_key key) (result_key key) owner
        (ic_record codec rec) (ttl div 1000000) r)"
    by (cases f) (auto simp: finish_execution_def releaseRedisIdempotency_def commitRedisIdempotency_def
        exchange_def split: prod.splits if_splits)
  then show ?thesis using held rel com by auto
qed

end

section \<open>The lock excludes executions\<close>

text \<open>
  Every execution holds its own lock text; while it is younger than the lock's lifetime the lock is in Redis;
  and of two executions for one key the later one was started after the earlier one's lock had expired.
\<close>

definition lock_held ::
  "('r \<Rightarrow> int \<Rightarrow> keyspace) \<Rightarrow> ('r, 's) redis_idem_state \<Rightarrow> admitted \<times> string \<times> int \<Rightarrow> bool" where
  "lock_held view s x = (case x of (q, owner, ta) \<Rightarrow>
     owner \<in> xs_locks s \<and> ta \<le> xs_clock s \<and>
     (xs_clock s < ta + redisIdempotencyLockTTL \<longrightarrow>
        view (xs_redis s) (xs_clock s) (lock_key (ad_key q)) = Some (owner, Some (ta + redisIdempotencyLockTTL))))"

definition apart :: "admitted \<times> string \<times> int \<Rightarrow> admitted \<times> string \<times> int \<Rightarrow> bool" where
  "apart x y = (case (x, y) of ((q, owner, ta), (q', owner', ta')) \<Rightarrow>
     owner \<noteq> owner' \<and>
     (lock_key (ad_key q) = lock_key (ad_key q') \<longrightarrow>
        ta + redisIdempotencyLockTTL \<le> ta' \<or> ta' + redisIdempotencyLockTTL \<le> ta))"

definition locks_inv :: "('r \<Rightarrow> int \<Rightarrow> keyspace) \<Rightarrow> ('r, 's) redis_idem_state \<Rightarrow> bool" where
  "locks_inv view s \<longleftrightarrow>
     (\<forall>p x. executing s p = Some x \<longrightarrow> lock_held view s x) \<and>
     (\<forall>p p' x y. executing s p = Some x \<and> executing s p' = Some y \<and> p \<noteq> p' \<longrightarrow> apart x y)"

lemma executing_upd [simp]:
  "executing (s\<lparr>xs_clock := t\<rparr>) = executing s" "executing (s\<lparr>xs_backend := b\<rparr>) = executing s"
  "executing (s\<lparr>xs_redis := r\<rparr>) = executing s" "executing (s\<lparr>xs_locks := l\<rparr>) = executing s"
  "executing (s\<lparr>xs_execs := e\<rparr>) = executing s" "executing (s\<lparr>xs_replies := rs\<rparr>) = executing s"
  "executing (s\<lparr>xs_procs := (xs_procs s)(p \<mapsto> x)\<rparr>) = (executing s)(p := holder x)"
  "executing (s\<lparr>xs_procs := (xs_procs s)(p := None)\<rparr>) = (executing s)(p := None)"
  by (auto simp: executing_def fun_eq_iff)

lemma locks_invD:
  assumes "locks_inv view s" and "executing s p = Some (q, owner, ta)"
  shows "owner \<in> xs_locks s" "ta \<le> xs_clock s"
    "xs_clock s < ta + redisIdempotencyLockTTL \<Longrightarrow>
       view (xs_redis s) (xs_clock s) (lock_key (ad_key q)) = Some (owner, Some (ta + redisIdempotencyLockTTL))"
  using assms unfolding locks_inv_def lock_held_def by fastforce+

text \<open>A step that takes no lock, keeps the locks seen in Redis, and only ends or continues executions.\<close>

lemma locks_inv_keep:
  assumes "locks_inv view s" and "xs_locks s \<subseteq> xs_locks s'" and "xs_clock s' = xs_clock s"
    and "\<And>p x. executing s' p = Some x \<Longrightarrow> executing s p = Some x"
    and "\<And>p q owner ta. executing s' p = Some (q, owner, ta) \<Longrightarrow>
      xs_clock s < ta + redisIdempotencyLockTTL \<Longrightarrow>
      view (xs_redis s) (xs_clock s) (lock_key (ad_key q)) = Some (owner, Some (ta + redisIdempotencyLockTTL)) \<Longrightarrow>
      view (xs_redis s') (xs_clock s) (lock_key (ad_key q)) = Some (owner, Some (ta + redisIdempotencyLockTTL))"
  shows "locks_inv view s'"
  unfolding locks_inv_def
proof (intro conjI allI impI)
  fix p x
  assume x: "executing s' p = Some x"
  obtain q owner ta where xx: "x = (q, owner, ta)" by (cases x)
  note old = locks_invD [OF assms(1) assms(4) [OF x, unfolded xx]]
  show "lock_held view s' x"
    using old assms(2,3) assms(5) [OF x [unfolded xx]] by (auto simp: lock_held_def xx)
next
  fix p p' x y
  assume "executing s' p = Some x \<and> executing s' p' = Some y \<and> p \<noteq> p'"
  then show "apart x y" using assms(1,4) unfolding locks_inv_def by blast
qed

lemma proceed_fields [simp]:
  "xs_clock (proceed p q o' s) = xs_clock s" "xs_redis (proceed p q o' s) = xs_redis s"
  "xs_locks (proceed p q o' s) = xs_locks s" "xs_execs (proceed p q o' s) = xs_execs s"
  by (cases o'; simp)+

lemma executing_proceed:
  "executing (proceed p q (after_acquire q t a) s) =
     (executing s)(p := (case a of AcqLeader owner \<Rightarrow> Some (q, owner, t) | _ \<Rightarrow> None))"
  "executing (proceed p q (Inr ops) s) = (executing s)(p := None)"
  by (cases a; simp) simp

context redis_server begin

lemma locks_inv_step:
  "redis_step rd codec arr nxt ttl s s' \<Longrightarrow> 0 < ttl div 1000000 \<Longrightarrow> locks_inv view s \<Longrightarrow> locks_inv view s'"
proof (induction rule: redis_step.induct)
  case (xtick s t)
  have "lock_held view (s\<lparr>xs_clock := t\<rparr>) x" if "executing s p = Some x" for p x
  proof -
    obtain q owner ta where x: "x = (q, owner, ta)" by (cases x)
    note old = locks_invD [OF xtick.prems(2) that [unfolded x]]
    have "view (xs_redis s) t (lock_key (ad_key q)) = Some (owner, Some (ta + redisIdempotencyLockTTL))"
      if "t < ta + redisIdempotencyLockTTL"
      by (rule stays [OF old(3)]) (use that xtick.hyps in auto)
    with old(1,2) xtick.hyps show ?thesis by (auto simp: lock_held_def x)
  qed
  with xtick.prems(2) show ?case by (simp add: locks_inv_def)
next
  case (xbypass r s)
  show ?case by (rule locks_inv_keep [OF xbypass.prems(2)]) auto
next
  case (xstart r r' fp key s p)
  show ?case by (rule locks_inv_keep [OF xstart.prems(2)]) (auto split: if_splits)
next
  case (xget s p q f a r')
  have "r' = xs_redis s" using xget.hyps(2) by (rule acquire_get_redis)
  moreover have "\<And>owner. a \<noteq> AcqLeader owner" using xget.hyps(2) acquire_get_no_leader by metis
  ultimately show ?case
    by (intro locks_inv_keep [OF xget.prems(2)])
      (auto simp: executing_proceed split: if_splits acquire_result.splits)
next
  case (xlock s p q rnd lockData f a r')
  let ?t = "xs_clock s" and ?v = "view (xs_redis s) (xs_clock s)" and ?k = "lock_key (ad_key q)"
  let ?s = "s\<lparr>xs_redis := r', xs_locks := insert lockData (xs_locks s)\<rparr>"
  note eff = lock_effect [OF xlock.hyps(4,2)]
  have held: "view r' ?t (lock_key (ad_key q')) = Some (owner, Some (ta + redisIdempotencyLockTTL))"
    if "?v (lock_key (ad_key q')) = Some (owner, Some (ta + redisIdempotencyLockTTL))" for q' owner ta
    using eff that by (auto split: if_splits)
  show ?case
  proof (cases "\<exists>owner. a = AcqLeader owner")
    case False
    then show ?thesis
      by (intro locks_inv_keep [OF xlock.prems(2)])
        (auto simp: executing_proceed held split: if_splits acquire_result.splits)
  next
    case True
    with eff have free: "?v ?k = None"
      and v': "view r' ?t = ?v(?k \<mapsto> (lockData, Some (?t + redisIdempotencyLockTTL)))"
      and a: "a = AcqLeader lockData" by blast+
    have eq: "executing (proceed p q (after_acquire q ?t a) ?s) = (executing s)(p \<mapsto> (q, lockData, ?t))"
      by (simp only: executing_proceed a acquire_result.case executing_upd)
    have old: "lock_held view (proceed p q (after_acquire q ?t a) ?s) x \<and> apart x (q, lockData, ?t) \<and>
        apart (q, lockData, ?t) x"
      if x: "executing s p' = Some x" for p' x
    proof -
      obtain q' owner ta where xx: "x = (q', owner, ta)" by (cases x)
      note o = locks_invD [OF xlock.prems(2) x [unfolded xx]]
      have fresh: "owner \<noteq> lockData" using o(1) xlock.hyps(3) by blast
      have "ta + redisIdempotencyLockTTL \<le> ?t" if "lock_key (ad_key q') = ?k"
        using o(3) free that by (metis not_le option.distinct(1))
      with fresh o held show ?thesis by (auto simp: xx lock_held_def apart_def)
    qed
    have new: "lock_held view (proceed p q (after_acquire q ?t a) ?s) (q, lockData, ?t)"
      using v' by (simp add: lock_held_def)
    show ?thesis
      unfolding locks_inv_def
    proof (intro conjI allI impI)
      fix p' x
      assume "executing (proceed p q (after_acquire q ?t a) ?s) p' = Some x"
      then have "p' = p \<and> x = (q, lockData, ?t) \<or> executing s p' = Some x"
        unfolding eq by (auto split: if_splits)
      then show "lock_held view (proceed p q (after_acquire q ?t a) ?s) x" using old new by blast
    next
      fix p1 p2 x y
      assume asm: "executing (proceed p q (after_acquire q ?t a) ?s) p1 = Some x \<and>
        executing (proceed p q (after_acquire q ?t a) ?s) p2 = Some y \<and> p1 \<noteq> p2"
      then have "(p1 = p \<and> x = (q, lockData, ?t) \<or> executing s p1 = Some x \<and> p1 \<noteq> p) \<and>
          (p2 = p \<and> y = (q, lockData, ?t) \<or> executing s p2 = Some y \<and> p2 \<noteq> p)"
        unfolding eq by (auto split: if_splits)
      then show "apart x y" using asm old xlock.prems(2) unfolding locks_inv_def by blast
    qed
  qed
next
  case (xpeek s p q f cancelled a r')
  have "r' = xs_redis s" using xpeek.hyps(2) by (rule acquire_peek_redis)
  moreover have "\<And>owner. a \<noteq> AcqLeader owner" using xpeek.hyps(2) acquire_peek_no_leader by metis
  ultimately show ?case
    by (intro locks_inv_keep [OF xpeek.prems(2)])
      (auto simp: executing_proceed split: if_splits acquire_result.splits)
next
  case (xrun s p q owner t ops b)
  then have "executing s p = Some (q, owner, t)" by (simp add: executing_def)
  then have "executing (s\<lparr>xs_backend := b, xs_procs := (xs_procs s)(p \<mapsto> RRan q owner t (buffered ops)),
      xs_execs := xs_execs s @ [(q, buffered ops)]\<rparr>) = executing s"
    by (auto simp: executing_def fun_eq_iff)
  then show ?case by (intro locks_inv_keep [OF xrun.prems(2)]) auto
next
  case (xfinish s p q owner t rec r' f)
  then have me: "executing s p = Some (q, owner, t)" by (simp add: executing_def)
  note eff = finish_effect [OF xfinish.hyps(2) [symmetric] xfinish.prems(1)]
  let ?s' = "proceed p q (Inr (writeStoredResponse (result_record (ad_fingerprint q) rec) False)) (s\<lparr>xs_redis := r'\<rparr>)"
  have eq: "executing ?s' = (executing s)(p := None)" by (simp only: executing_proceed executing_upd)
  show ?case
  proof (rule locks_inv_keep [OF xfinish.prems(2)])
    fix p' q' owner' ta
    assume "executing ?s' p' = Some (q', owner', ta)"
      and v: "view (xs_redis s) (xs_clock s) (lock_key (ad_key q')) =
        Some (owner', Some (ta + redisIdempotencyLockTTL))"
    then have "executing s p' = Some (q', owner', ta)" "p' \<noteq> p" unfolding eq by (simp_all split: if_splits)
    with me xfinish.prems(2) have "apart (q, owner, t) (q', owner', ta)" unfolding locks_inv_def by blast
    then have "owner' \<noteq> owner" by (auto simp: apart_def)
    with eff v show "view (xs_redis ?s') (xs_clock s) (lock_key (ad_key q')) =
        Some (owner', Some (ta + redisIdempotencyLockTTL))"
      by (cases "lock_key (ad_key q') = lock_key (ad_key q)") auto
  next
    fix p' x
    assume "executing ?s' p' = Some x"
    then show "executing s p' = Some x" unfolding eq by (simp split: if_splits)
  qed simp_all
next
  case (xvanish s b p)
  have "executing (s\<lparr>xs_procs := (xs_procs s)(p := None), xs_backend := b\<rparr>) = (executing s)(p := None)"
    by (auto simp: executing_def fun_eq_iff)
  then show ?case by (intro locks_inv_keep [OF xvanish.prems(2)]) (auto split: if_splits)
qed

end

text \<open>
  C17: the lock excludes executions while it lives. For every Redis that behaves as documented, whatever
  exchanges fail, replicas stop or handlers panic, two executions in flight for one idempotency key (up to a
  SHA-256 collision of the keys) acquired their locks at least 60 seconds apart: none starts while another
  younger than that is running.
\<close>

theorem redis_executions_exclude_each_other:
  assumes "redis_server rd view" and "0 < ttl div 1000000"
    and "(redis_step rd codec arr nxt ttl)\<^sup>*\<^sup>* (redis_idem_start r t b) s"
    and "executing s p = Some (q, owner, ta)" and "executing s p' = Some (q', owner', ta')" and "p \<noteq> p'"
    and "requestKeyHash (ad_key q) = requestKeyHash (ad_key q')"
  shows "owner \<noteq> owner' \<and> (ta + 60000 \<le> ta' \<or> ta' + 60000 \<le> ta)"
proof -
  have "locks_inv view s"
    using assms(3)
  proof (induction rule: rtranclp_induct)
    case base
    show ?case by (simp add: locks_inv_def executing_def redis_idem_start_def)
  next
    case (step s1 s2)
    then show ?case using redis_server.locks_inv_step [OF assms(1) _ assms(2)] by blast
  qed
  with assms(4-6) have "apart (q, owner, ta) (q', owner', ta')" unfolding locks_inv_def by blast
  with assms(7) show ?thesis by (simp add: apart_def lock_key_eq redisIdempotencyLockTTL_def)
qed

section \<open>Answers come from executions\<close>

text \<open>A record is stored faithfully when its JSON text parses back; the law is asked for what a handler writes.\<close>

definition codec_keeps :: "idem_codec \<Rightarrow> 's handler \<Rightarrow> bool" where
  "codec_keeps codec nxt \<longleftrightarrow>
     (\<forall>fp r b. let rec = result_record fp (buffered (fst (nxt r b))) in
        ic_parse_record codec (ic_record codec rec) = Some rec)"

definition executed ::
  "'s handler \<Rightarrow> ('r, 's) redis_idem_state \<Rightarrow> string \<Rightarrow> string \<Rightarrow> bufferedResponseWriter \<Rightarrow> bool" where
  "executed nxt s key fp rec \<longleftrightarrow>
     (\<exists>q b. (q, rec) \<in> set (xs_execs s) \<and> requestKeyHash (ad_key q) = requestKeyHash key \<and>
        ad_fingerprint q = fp \<and> rec = buffered (fst (nxt (ad_request q) b)))"

definition answer_ok ::
  "'s handler \<Rightarrow> ('r, 's) redis_idem_state \<Rightarrow> admitted \<Rightarrow> writer_op list \<Rightarrow> bool" where
  "answer_ok nxt s q ops \<longleftrightarrow>
     ops = idem_unavailable \<or> ops = redis_conflict_reply \<or>
     (\<exists>rec replayed. executed nxt s (ad_key q) (ad_fingerprint q) rec \<and>
        ops = writeStoredResponse (result_record (ad_fingerprint q) rec) replayed)"

definition results_inv ::
  "('r \<Rightarrow> int \<Rightarrow> keyspace) \<Rightarrow> idem_codec \<Rightarrow> 's handler \<Rightarrow> ('r, 's) redis_idem_state \<Rightarrow> bool" where
  "results_inv view codec nxt s \<longleftrightarrow>
     (\<forall>k data dl. view (xs_redis s) (xs_clock s) (result_key k) = Some (data, dl) \<longrightarrow>
        (\<exists>fp rec. executed nxt s k fp rec \<and> data = ic_record codec (result_record fp rec) \<and> bw_status rec < 500)) \<and>
     (\<forall>p q owner ta rec. xs_procs s p = Some (RRan q owner ta rec) \<longrightarrow>
        executed nxt s (ad_key q) (ad_fingerprint q) rec) \<and>
     (\<forall>q ops. (q, ops) \<in> set (xs_replies s) \<longrightarrow> answer_ok nxt s q ops)"

lemma executed_mono:
  "executed nxt s k fp rec \<Longrightarrow> set (xs_execs s) \<subseteq> set (xs_execs s') \<Longrightarrow> executed nxt s' k fp rec"
  by (auto simp: executed_def)

lemma answer_ok_mono:
  "answer_ok nxt s q ops \<Longrightarrow> set (xs_execs s) \<subseteq> set (xs_execs s') \<Longrightarrow> answer_ok nxt s' q ops"
  unfolding answer_ok_def using executed_mono by blast

text \<open>A step that adds no result, and answers only what is allowed.\<close>

lemma results_inv_keep:
  assumes "results_inv view codec nxt s" and "set (xs_execs s) \<subseteq> set (xs_execs s')"
    and "\<And>k data dl. view (xs_redis s') (xs_clock s') (result_key k) = Some (data, dl) \<Longrightarrow>
      view (xs_redis s) (xs_clock s) (result_key k) = Some (data, dl) \<or>
      (\<exists>fp rec. executed nxt s' k fp rec \<and> data = ic_record codec (result_record fp rec) \<and> bw_status rec < 500)"
    and "\<And>p q owner ta rec. xs_procs s' p = Some (RRan q owner ta rec) \<Longrightarrow>
      xs_procs s p = Some (RRan q owner ta rec) \<or> executed nxt s' (ad_key q) (ad_fingerprint q) rec"
    and "\<And>q ops. (q, ops) \<in> set (xs_replies s') \<Longrightarrow> (q, ops) \<in> set (xs_replies s) \<or> answer_ok nxt s' q ops"
  shows "results_inv view codec nxt s'"
  unfolding results_inv_def
proof (intro conjI allI impI)
  fix k data dl
  assume "view (xs_redis s') (xs_clock s') (result_key k) = Some (data, dl)"
  from assms(3) [OF this]
  show "\<exists>fp rec. executed nxt s' k fp rec \<and> data = ic_record codec (result_record fp rec) \<and> bw_status rec < 500"
    using assms(1) executed_mono [OF _ assms(2)] unfolding results_inv_def by blast
next
  fix p q owner ta rec
  assume "xs_procs s' p = Some (RRan q owner ta rec)"
  from assms(4) [OF this] show "executed nxt s' (ad_key q) (ad_fingerprint q) rec"
    using assms(1) executed_mono [OF _ assms(2)] unfolding results_inv_def by blast
next
  fix q ops
  assume "(q, ops) \<in> set (xs_replies s')"
  from assms(5) [OF this] show "answer_ok nxt s' q ops"
    using assms(1) answer_ok_mono [OF _ assms(2)] unfolding results_inv_def by blast
qed

lemma proceed_replies:
  "(q', ops) \<in> set (xs_replies (proceed p q o' s)) \<Longrightarrow>
   (q', ops) \<in> set (xs_replies s) \<or> q' = q \<and> o' = Inr ops"
  by (cases o') auto

lemma proceed_procs:
  "xs_procs (proceed p q o' s) p' = Some x \<Longrightarrow> xs_procs s p' = Some x \<or> o' = Inl x"
  by (cases o') (auto split: if_splits)

lemma after_acquire_not_ran: "after_acquire q t a \<noteq> Inl (RRan q' owner ta rec)"
  by (cases a) simp_all

lemma after_acquire_answer:
  "after_acquire q t a = Inr ops \<Longrightarrow>
   ops = idem_unavailable \<or> ops = redis_conflict_reply \<or> (\<exists>rec. a = AcqReplayed rec \<and> ops = writeStoredResponse rec True)"
  by (cases a) auto

text \<open>A step that only moves a request on, and leaves the results in Redis as they are.\<close>

lemma results_inv_proceed:
  assumes "results_inv view codec nxt s" and "xs_clock s0 = xs_clock s" and "xs_procs s0 = xs_procs s"
    and "xs_replies s0 = xs_replies s" and "xs_execs s0 = xs_execs s"
    and "\<And>k. view (xs_redis s0) (xs_clock s) (result_key k) = view (xs_redis s) (xs_clock s) (result_key k)"
    and "\<And>ops. after_acquire q t a = Inr ops \<Longrightarrow> answer_ok nxt s q ops"
  shows "results_inv view codec nxt (proceed p q (after_acquire q t a) s0)" (is "results_inv view codec nxt ?s'")
proof (rule results_inv_keep [OF assms(1)])
  fix q' ops
  assume "(q', ops) \<in> set (xs_replies ?s')"
  from proceed_replies [OF this] assms(4) consider "(q', ops) \<in> set (xs_replies s)"
    | "q' = q" "after_acquire q t a = Inr ops" by auto
  then show "(q', ops) \<in> set (xs_replies s) \<or> answer_ok nxt ?s' q' ops"
  proof cases
    case 2
    from answer_ok_mono [OF assms(7) [OF 2(2)], of ?s'] 2(1) assms(5) show ?thesis by simp
  qed simp
next
  fix p' q' owner ta rec
  assume "xs_procs ?s' p' = Some (RRan q' owner ta rec)"
  from proceed_procs [OF this] assms(3) after_acquire_not_ran
  show "xs_procs s p' = Some (RRan q' owner ta rec) \<or> executed nxt ?s' (ad_key q') (ad_fingerprint q') rec"
    by metis
qed (use assms(2,5,6) in simp_all)

lemma acquire_lock_not_replayed: "acquire_lock rd codec f t rnd key fp r \<noteq> (AcqReplayed rec, r')"
  by (auto simp: acquire_lock_def Let_def split: sum.splits prod.splits if_splits)

lemma acquire_peek_not_replayed: "acquire_peek rd codec f t c key fp r \<noteq> (AcqReplayed rec, r')"
  by (auto simp: acquire_peek_def split: sum.splits option.splits prod.splits if_splits)

context redis_server begin

lemma acquire_get_replayed:
  "acquire_get rd codec f t key fp r = (AcqReplayed rec, r') \<Longrightarrow>
   \<exists>data dl. view r t (result_key key) = Some (data, dl) \<and> ic_parse_record codec data = Some rec \<and>
     ri_Fingerprint rec = fp"
  by (auto simp: acquire_get_def getRedisIdempotencyResult_def exchange_def GET
      split: fault.splits sum.splits option.splits prod.splits if_splits)

lemma results_inv_step:
  "redis_step rd codec arr nxt ttl s s' \<Longrightarrow> 0 < ttl div 1000000 \<Longrightarrow> codec_keeps codec nxt \<Longrightarrow>
   results_inv view codec nxt s \<Longrightarrow> results_inv view codec nxt s'"
proof (induction rule: redis_step.induct)
  case (xtick s t)
  have "view (xs_redis s) (xs_clock s) k = Some (d, dl)" if "view (xs_redis s) t k = Some (d, dl)" for k d dl
    by (rule later [OF that xtick.hyps])
  then show ?case by (intro results_inv_keep [OF xtick.prems(3)]) simp_all
next
  case (xbypass r s)
  show ?case by (rule results_inv_keep [OF xbypass.prems(3)]) auto
next
  case (xstart r r' fp key s p)
  show ?case by (rule results_inv_keep [OF xstart.prems(3)]) (auto split: if_splits)
next
  case (xget s p q f a r')
  have r': "r' = xs_redis s" using xget.hyps(2) by (rule acquire_get_redis)
  have ok: "answer_ok nxt s q ops" if "after_acquire q (xs_clock s) a = Inr ops" for ops
  proof -
    from after_acquire_answer [OF that] consider "ops = idem_unavailable \<or> ops = redis_conflict_reply"
      | rec where "a = AcqReplayed rec" "ops = writeStoredResponse rec True" by blast
    then show ?thesis
    proof cases
      case 2
      with xget.hyps(2) obtain data dl where d: "view (xs_redis s) (xs_clock s) (result_key (ad_key q)) = Some (data, dl)"
        "ic_parse_record codec data = Some rec" "ri_Fingerprint rec = ad_fingerprint q"
        using acquire_get_replayed by metis
      then obtain fp rec' where ex: "executed nxt s (ad_key q) fp rec'" "data = ic_record codec (result_record fp rec')"
        using xget.prems(3) unfolding results_inv_def by blast
      from ex(1) obtain r0 b0 where "rec' = buffered (fst (nxt r0 b0))" unfolding executed_def by blast
      with ex(2) d(2) xget.prems(2) have rec: "rec = result_record fp rec'"
        by (auto simp: codec_keeps_def Let_def)
      with d(3) have "fp = ad_fingerprint q" by (simp add: result_record_def)
      with 2(2) rec ex(1) show ?thesis by (auto simp: answer_ok_def)
    qed (auto simp: answer_ok_def)
  qed
  show ?case by (rule results_inv_proceed [OF xget.prems(3)]) (simp_all add: r' ok)
next
  case (xlock s p q rnd lockData f a r')
  have "a \<noteq> AcqReplayed rec" for rec
    using xlock.hyps(4) acquire_lock_not_replayed by metis
  then have ok: "answer_ok nxt s q ops" if "after_acquire q (xs_clock s) a = Inr ops" for ops
    using after_acquire_answer [OF that] by (auto simp: answer_ok_def)
  have "view r' (xs_clock s) (result_key k) = view (xs_redis s) (xs_clock s) (result_key k)" for k
    using lock_effect [OF xlock.hyps(4,2)] by auto
  then show ?case by (intro results_inv_proceed [OF xlock.prems(3)]) (simp_all add: ok)
next
  case (xpeek s p q f cancelled a r')
  have r': "r' = xs_redis s" using xpeek.hyps(2) by (rule acquire_peek_redis)
  have "a \<noteq> AcqReplayed rec" for rec
    using xpeek.hyps(2) acquire_peek_not_replayed by metis
  then have ok: "answer_ok nxt s q ops" if "after_acquire q (xs_clock s) a = Inr ops" for ops
    using after_acquire_answer [OF that] by (auto simp: answer_ok_def)
  show ?case by (rule results_inv_proceed [OF xpeek.prems(3)]) (simp_all add: r' ok)
next
  case (xrun s p q owner t ops b)
  let ?s' = "s\<lparr>xs_backend := b, xs_procs := (xs_procs s)(p \<mapsto> RRan q owner t (buffered ops)),
      xs_execs := xs_execs s @ [(q, buffered ops)]\<rparr>"
  have "executed nxt ?s' (ad_key q) (ad_fingerprint q) (buffered ops)"
    unfolding executed_def using xrun.hyps(2) by (intro exI [of _ q] exI [of _ "xs_backend s"]) simp
  then show ?case
    by (intro results_inv_keep [OF xrun.prems(3)]) (auto split: if_splits)
next
  case (xfinish s p q owner t rec r' f)
  let ?rec = "result_record (ad_fingerprint q) rec"
  let ?s' = "proceed p q (Inr (writeStoredResponse ?rec False)) (s\<lparr>xs_redis := r'\<rparr>)"
  have "executed nxt s (ad_key q) (ad_fingerprint q) rec"
    using xfinish.prems(3) xfinish.hyps(1) unfolding results_inv_def by blast
  then have ex: "executed nxt ?s' (ad_key q) (ad_fingerprint q) rec" by (rule executed_mono) simp
  have same: "executed nxt ?s' k (ad_fingerprint q) rec" if "result_key k = result_key (ad_key q)" for k
    using ex that unfolding executed_def result_key_eq by simp
  have st: "ri_Status ?rec = bw_status rec" by (simp add: result_record_def)
  have res: "view r' (xs_clock s) (result_key k) = Some (data, dl) \<Longrightarrow>
      view (xs_redis s) (xs_clock s) (result_key k) = Some (data, dl) \<or>
      (\<exists>fp rec. executed nxt ?s' k fp rec \<and> data = ic_record codec (result_record fp rec) \<and> bw_status rec < 500)"
    for k data dl
    using finish_effect [OF xfinish.hyps(2) [symmetric] xfinish.prems(1)] same st
    by (auto split: if_splits)
  have ans: "answer_ok nxt ?s' q (writeStoredResponse ?rec False)" using ex by (auto simp: answer_ok_def)
  show ?case
  proof (rule results_inv_keep [OF xfinish.prems(3)])
    fix q' ops
    assume "(q', ops) \<in> set (xs_replies ?s')"
    from proceed_replies [OF this] ans show "(q', ops) \<in> set (xs_replies s) \<or> answer_ok nxt ?s' q' ops" by auto
  next
    fix p' q' owner' ta rec'
    assume "xs_procs ?s' p' = Some (RRan q' owner' ta rec')"
    from proceed_procs [OF this] show "xs_procs s p' = Some (RRan q' owner' ta rec') \<or>
      executed nxt ?s' (ad_key q') (ad_fingerprint q') rec'" by auto
  qed (use res in simp_all)
next
  case (xvanish s b p)
  show ?case by (rule results_inv_keep [OF xvanish.prems(3)]) (auto split: if_splits)
qed

end

lemma reachable_answer_ok:
  assumes "redis_server rd view" and "0 < ttl div 1000000" and "codec_keeps codec nxt"
    and "\<And>k. view r t (result_key k) = None"
    and "(redis_step rd codec arr nxt ttl)\<^sup>*\<^sup>* (redis_idem_start r t b) s" and "(q, ops) \<in> set (xs_replies s)"
  shows "answer_ok nxt s q ops"
proof -
  have "results_inv view codec nxt s"
    using assms(5)
  proof (induction rule: rtranclp_induct)
    case base
    show ?case using assms(4) by (simp add: results_inv_def redis_idem_start_def)
  next
    case (step s1 s2)
    then show ?case using redis_server.results_inv_step [OF assms(1) _ assms(2,3)] by blast
  qed
  with assms(6) show ?thesis unfolding results_inv_def by blast
qed

text \<open>
  C18: every answer comes from an execution, whatever fails on the way. From a Redis that holds no results
  yet, for every Redis that behaves as documented and every JSON codec that keeps what the handler writes: a
  request with an idempotency key is answered that the coordination is unavailable, or that the key was used
  for another request, or with the status, headers and body that some execution recorded for the same key (up
  to a SHA-256 collision) and the same fingerprint.
\<close>

theorem redis_answers_come_from_executions:
  assumes "redis_server rd view" and "0 < ttl div 1000000" and "codec_keeps codec nxt"
    and "\<And>k. view r t (result_key k) = None"
    and "(redis_step rd codec arr nxt ttl)\<^sup>*\<^sup>* (redis_idem_start r t b) s" and "(q, ops) \<in> set (xs_replies s)"
  shows "ops = idem_unavailable \<or> ops = redis_conflict_reply \<or>
    (\<exists>q' rec b' replayed. (q', rec) \<in> set (xs_execs s) \<and> requestKeyHash (ad_key q') = requestKeyHash (ad_key q) \<and>
       ad_fingerprint q' = ad_fingerprint q \<and> rec = buffered (fst (nxt (ad_request q') b')) \<and>
       ops = writeStoredResponse (result_record (ad_fingerprint q) rec) replayed)"
  using reachable_answer_ok [OF assms] unfolding answer_ok_def executed_def by blast

section \<open>The execution the lock does not prevent\<close>

text \<open>
  Two requests with the same key and content, on a fresh Redis and within one instant: both look for a result
  and find none; the first acquires the lock, runs, stores its answer and removes the lock; then the second,
  which does not look again, acquires the lock too.
\<close>

definition creating :: "nat handler" where
  "creating r n = ([WriteHeader 201], Suc n)"

definition tagged_codec :: idem_codec where
  "tagged_codec =
     \<lparr>ic_lock = (\<lambda>l. rl_Fingerprint l @ '':'' @ rl_Owner l), ic_parse_lock = (\<lambda>d. None),
      ic_record = ri_Fingerprint,
      ic_parse_record = (\<lambda>d. Some (result_record d (buffered [WriteHeader 201])))\<rparr>"

lemma tagged_codec_keeps: "codec_keeps tagged_codec creating"
  by (simp add: codec_keeps_def tagged_codec_def creating_def result_record_def)

definition retry :: admitted where
  "retry = \<lparr>ad_request = post, ad_fingerprint = post_fp, ad_key = post_key\<rparr>"

definition lock_text :: "bytes \<Rightarrow> string" where
  "lock_text b = post_fp @ '':'' @ hex_EncodeToString b"

definition retry_record :: bufferedResponseWriter where
  "retry_record = buffered [WriteHeader 201]"

abbreviation day_ttl :: duration where "day_ttl \<equiv> 24 * hour"

definition twice_at ::
  "int \<Rightarrow> keyspace \<Rightarrow> nat \<Rightarrow> (nat \<rightharpoonup> redis_proc) \<Rightarrow> string set \<Rightarrow> (admitted \<times> bufferedResponseWriter) list \<Rightarrow>
   (admitted \<times> writer_op list) list \<Rightarrow> (keyspace, nat) redis_idem_state" where
  "twice_at c K n procs locks execs replies =
     \<lparr>xs_redis = K, xs_clock = c, xs_backend = n, xs_procs = procs, xs_locks = locks, xs_execs = execs,
      xs_replies = replies\<rparr>"

abbreviation twice_state where "twice_state \<equiv> twice_at 0"

abbreviation twice_step :: "(keyspace, nat) redis_idem_state \<Rightarrow> (keyspace, nat) redis_idem_state \<Rightarrow> bool" where
  "twice_step \<equiv> redis_step ks_redis tagged_codec any_request creating day_ttl"

lemma twice_start: "p \<notin> dom procs \<Longrightarrow>
  twice_step (twice_state K n procs l e a) (twice_state K n (procs(p \<mapsto> Getting retry)) l e a)"
  using redis_step.xstart [OF post_bypassed post_admit [folded redis_admit_eq], of "twice_state K n procs l e a" p
      any_request ks_redis tagged_codec creating day_ttl]
  by (simp add: twice_at_def retry_def domIff)

lemma twice_get:
  assumes "procs p = Some (Getting retry)" and "K (result_key post_key) = None"
  shows "twice_step (twice_state K n procs l e a) (twice_state K n (procs(p \<mapsto> Locking retry)) l e a)"
proof -
  have "acquire_get ks_redis tagged_codec NoFault 0 post_key post_fp K = (GoLock, K)"
    using assms(2) by (simp add: acquire_get_def getRedisIdempotencyResult_def exchange_def ks_redis_def ks_view_def)
  with redis_step.xget [of "twice_state K n procs l e a" p retry ks_redis tagged_codec NoFault GoLock K
      any_request creating day_ttl] assms(1)
  show ?thesis by (simp add: twice_at_def retry_def)
qed

lemma twice_lock:
  assumes "procs p = Some (Locking retry)" and "ks_view K c (lock_key post_key) = None" and "lock_text b \<notin> l"
  shows "twice_step (twice_at c K n procs l e a)
    (twice_at c (K(lock_key post_key \<mapsto> (lock_text b, Some (c + 60000)))) n
       (procs(p \<mapsto> RLeading retry (lock_text b) c)) (insert (lock_text b) l) e a)"
proof -
  have "acquire_lock ks_redis tagged_codec NoFault c (Inr b) post_key post_fp K =
      (AcqLeader (lock_text b), K(lock_key post_key \<mapsto> (lock_text b, Some (c + 60000))))"
    using assms(2)
    by (simp add: acquire_lock_def randomOwner_def exchange_def ks_redis_def Let_def
        tagged_codec_def lock_text_def redisIdempotencyLockTTL_def)
  with redis_step.xlock [of "twice_at c K n procs l e a" p retry "Inr b" "lock_text b" tagged_codec ks_redis NoFault
      "AcqLeader (lock_text b)" "K(lock_key post_key \<mapsto> (lock_text b, Some (c + 60000)))" any_request creating day_ttl]
    assms(1,3)
  show ?thesis by (simp add: twice_at_def retry_def randomOwner_def tagged_codec_def lock_text_def)
qed

lemma twice_tick: "c \<le> c' \<Longrightarrow> twice_step (twice_at c K n procs l e a) (twice_at c' K n procs l e a)"
  using redis_step.xtick [of "twice_at c K n procs l e a" c' ks_redis tagged_codec any_request creating day_ttl]
  by (simp add: twice_at_def)

lemma twice_run:
  assumes "procs p = Some (RLeading retry o' 0)"
  shows "twice_step (twice_state K n procs l e a)
    (twice_state K (Suc n) (procs(p \<mapsto> RRan retry o' 0 retry_record)) l (e @ [(retry, retry_record)]) a)"
  using redis_step.xrun [of "twice_state K n procs l e a" p retry o' 0 creating "[WriteHeader 201]" "Suc n"
      ks_redis tagged_codec any_request day_ttl] assms
  by (simp add: twice_at_def creating_def retry_record_def)

definition retry_answer :: "writer_op list" where
  "retry_answer = writeStoredResponse (result_record post_fp retry_record) False"

definition stored_retry :: "string \<times> int option" where
  "stored_retry = (post_fp, Some 86400000)"

lemma twice_finish:
  assumes "procs p = Some (RRan retry o' 0 retry_record)" and "K (lock_key post_key) = Some (o', Some 60000)"
  shows "twice_step (twice_state K n procs l e a)
    (twice_state (K(result_key post_key \<mapsto> stored_retry, lock_key post_key := None)) n (procs(p := None)) l e
       (a @ [(retry, retry_answer)]))"
proof -
  have st: "bw_status retry_record = 201"
    by (simp add: retry_record_def buffered_def newBufferedResponseWriter_def bw_WriteHeader_def)
  have "finish_execution ks_redis tagged_codec NoFault 0 post_key o' (result_record post_fp retry_record) day_ttl K =
      K(result_key post_key \<mapsto> stored_retry, lock_key post_key := None)"
    using assms(2) st
    by (simp add: finish_execution_def result_record_def commitRedisIdempotency_def exchange_def split: prod.split)
      (auto simp: commitIdempotencyScript_def ks_redis_def ks_view_def tagged_codec_def stored_retry_def
        fun_eq_iff)
  with redis_step.xfinish [of "twice_state K n procs l e a" p retry o' 0 retry_record
      "K(result_key post_key \<mapsto> stored_retry, lock_key post_key := None)" ks_redis tagged_codec NoFault day_ttl
      any_request creating] assms(1)
  show ?thesis by (simp add: twice_at_def retry_def retry_answer_def)
qed

text \<open>Both requests have looked for a result and found none.\<close>

definition both_looked :: "nat \<rightharpoonup> redis_proc" where
  "both_looked = Map.empty(0 \<mapsto> Locking retry, 1 \<mapsto> Locking retry)"

lemma both_looked_reached:
  "twice_step\<^sup>*\<^sup>* (redis_idem_start Map.empty 0 0) (twice_state Map.empty 0 both_looked {} [] [])"
proof -
  have start: "redis_idem_start Map.empty 0 0 = twice_state Map.empty 0 Map.empty {} [] []"
    by (simp add: redis_idem_start_def twice_at_def)
  let ?t = "\<lambda>procs. twice_state Map.empty 0 procs {} [] []"
  have "twice_step (?t Map.empty) (?t [0 \<mapsto> Getting retry])"
    "twice_step (?t [0 \<mapsto> Getting retry]) (?t [0 \<mapsto> Locking retry])"
    "twice_step (?t [0 \<mapsto> Locking retry]) (?t [0 \<mapsto> Locking retry, 1 \<mapsto> Getting retry])"
    "twice_step (?t [0 \<mapsto> Locking retry, 1 \<mapsto> Getting retry]) (?t both_looked)"
    using twice_start [of 0 Map.empty] twice_get [of "[0 \<mapsto> Getting retry]" 0]
      twice_start [of 1 "[0 \<mapsto> Locking retry]"] twice_get [of "[0 \<mapsto> Locking retry, 1 \<mapsto> Getting retry]" 1]
    by (simp_all add: both_looked_def)
  then show ?thesis
    unfolding start by (meson converse_rtranclp_into_rtranclp rtranclp.rtrancl_refl)
qed

definition first_locked :: keyspace where
  "first_locked = [lock_key post_key \<mapsto> (lock_text [CHR 0x00], Some 60000)]"

abbreviation first_owner :: string where "first_owner \<equiv> lock_text [CHR 0x00]"
abbreviation second_owner :: string where "second_owner \<equiv> lock_text [CHR 0x01]"

lemma lock_texts_differ: "second_owner \<noteq> first_owner" "first_owner \<noteq> second_owner"
  by (simp_all add: lock_text_def)

definition first_running :: "nat \<rightharpoonup> redis_proc" where
  "first_running = both_looked(0 \<mapsto> RLeading retry first_owner 0)"

definition first_done :: "(keyspace, nat) redis_idem_state" where
  "first_done = twice_state [result_key post_key \<mapsto> stored_retry] 1 [1 \<mapsto> Locking retry] {first_owner}
     [(retry, retry_record)] [(retry, retry_answer)]"

definition run_twice :: "(keyspace, nat) redis_idem_state" where
  "run_twice = twice_state
     [result_key post_key \<mapsto> stored_retry, lock_key post_key \<mapsto> (second_owner, Some 60000)] 2
     [1 \<mapsto> RRan retry second_owner 0 retry_record] {second_owner, first_owner}
     [(retry, retry_record), (retry, retry_record)] [(retry, retry_answer)]"

lemma first_running_reached:
  "twice_step\<^sup>*\<^sup>* (redis_idem_start Map.empty 0 0) (twice_state first_locked 0 first_running {first_owner} [] [])"
proof -
  have "twice_step (twice_state Map.empty 0 both_looked {} [] [])
      (twice_state first_locked 0 first_running {first_owner} [] [])"
    using twice_lock [of both_looked 0 Map.empty 0 "[CHR 0x00]" "{}" 0 "[]" "[]"]
    by (simp add: both_looked_def first_running_def first_locked_def ks_view_def)
  with both_looked_reached show ?thesis by (rule rtranclp.rtrancl_into_rtrancl)
qed

lemma first_done_reached: "twice_step\<^sup>*\<^sup>* (redis_idem_start Map.empty 0 0) first_done"
proof -
  let ?ran = "twice_state first_locked 1 (first_running(0 \<mapsto> RRan retry first_owner 0 retry_record))
    {first_owner} [(retry, retry_record)] []"
  have run: "twice_step (twice_state first_locked 0 first_running {first_owner} [] []) ?ran"
    using twice_run [of first_running 0 first_owner first_locked 0 "{first_owner}" "[]" "[]"]
    by (simp add: first_running_def)
  have K: "first_locked(result_key post_key \<mapsto> stored_retry, lock_key post_key := None) =
      [result_key post_key \<mapsto> stored_retry]"
    by (auto simp: first_locked_def fun_eq_iff)
  have P: "first_running(0 := None) = [1 \<mapsto> Locking retry]"
    by (auto simp: first_running_def both_looked_def fun_eq_iff)
  have "twice_step ?ran first_done"
    using twice_finish [of "first_running(0 \<mapsto> RRan retry first_owner 0 retry_record)" 0 first_owner first_locked 1
        "{first_owner}" "[(retry, retry_record)]" "[]"]
    by (simp add: first_done_def K P) (simp add: first_locked_def)
  with run show ?thesis
    using first_running_reached by (meson rtranclp.rtrancl_into_rtrancl)
qed

lemma run_twice_reached: "twice_step\<^sup>*\<^sup>* (redis_idem_start Map.empty 0 0) run_twice"
proof -
  let ?K = "[result_key post_key \<mapsto> stored_retry, lock_key post_key \<mapsto> (second_owner, Some 60000)]"
  let ?led = "twice_state ?K 1 [1 \<mapsto> RLeading retry second_owner 0] {second_owner, first_owner}
    [(retry, retry_record)] [(retry, retry_answer)]"
  have "twice_step first_done ?led"
    using twice_lock [of "[1 \<mapsto> Locking retry]" 1 "[result_key post_key \<mapsto> stored_retry]" 0 "[CHR 0x01]"
        "{first_owner}" 1 "[(retry, retry_record)]" "[(retry, retry_answer)]"]
    by (simp add: first_done_def ks_view_def lock_texts_differ)
  moreover have "twice_step ?led run_twice"
    using twice_run [of "[1 \<mapsto> RLeading retry second_owner 0]" 1 second_owner ?K 1 "{second_owner, first_owner}"
        "[(retry, retry_record)]" "[(retry, retry_answer)]"]
    by (simp add: run_twice_def numeral_2_eq_2)
  ultimately show ?thesis
    using first_done_reached by (meson rtranclp.rtrancl_into_rtrancl)
qed

text \<open>
  C19: a retry that races with the first request's completion runs it again. Two requests carry the same
  idempotency key and the same content, Redis fails no exchange and no time passes; both look for a stored
  result before there is one. The first acquires the lock, runs, stores its answer and is answered; the second
  then finds the lock free, and as the result is not looked up again, it runs the handler a second time, with
  the first answer stored.
\<close>

theorem redis_retry_runs_twice:
  "\<exists>s. (redis_step ks_redis tagged_codec any_request creating day_ttl)\<^sup>*\<^sup>* (redis_idem_start Map.empty 0 0) s \<and>
     xs_clock s = 0 \<and> xs_redis s (result_key post_key) = Some (post_fp, Some 86400000) \<and>
     xs_replies s = [(retry, writeStoredResponse (result_record post_fp retry_record) False)] \<and>
     xs_execs s = [(retry, retry_record), (retry, retry_record)] \<and> xs_backend s = 2"
  using run_twice_reached
  by (intro exI [of _ run_twice]) (simp add: run_twice_def twice_at_def stored_retry_def retry_answer_def)

section \<open>Concrete runs\<close>

text \<open>The first execution outlives its lock: 60 seconds later the second one starts beside it.\<close>

definition both_running :: "(keyspace, nat) redis_idem_state" where
  "both_running = twice_at 60000 (first_locked(lock_key post_key \<mapsto> (second_owner, Some 120000))) 0
     (first_running(1 \<mapsto> RLeading retry second_owner 60000)) {second_owner, first_owner} [] []"

lemma both_running_reached: "twice_step\<^sup>*\<^sup>* (redis_idem_start Map.empty 0 0) both_running"
proof -
  have "twice_step (twice_state first_locked 0 first_running {first_owner} [] [])
      (twice_at 60000 first_locked 0 first_running {first_owner} [] [])"
    by (rule twice_tick) simp
  moreover have "twice_step (twice_at 60000 first_locked 0 first_running {first_owner} [] []) both_running"
    using twice_lock [of first_running 1 first_locked 60000 "[CHR 0x01]" "{first_owner}" 0 "[]" "[]"]
    by (simp add: both_running_def first_running_def both_looked_def first_locked_def ks_view_def lock_texts_differ)
  ultimately show ?thesis
    using first_running_reached by (meson rtranclp.rtrancl_into_rtrancl)
qed

theorem redis_executions_exclude_each_other_witness:
  "first_owner \<noteq> second_owner \<and> ((0::int) + 60000 \<le> 60000 \<or> (60000::int) + 60000 \<le> 0)"
proof (rule redis_executions_exclude_each_other [OF ks.redis_server_axioms _ both_running_reached])
  show "0 < day_ttl div 1000000" by simp
  show "executing both_running 0 = Some (retry, first_owner, 0)"
    "executing both_running 1 = Some (retry, second_owner, 60000)"
    by (simp_all add: both_running_def first_running_def both_looked_def executing_def twice_at_def)
qed simp_all

theorem redis_answers_come_from_executions_witness:
  "retry_answer = idem_unavailable \<or> retry_answer = redis_conflict_reply \<or>
    (\<exists>q' rec b' replayed. (q', rec) \<in> set (xs_execs run_twice) \<and>
       requestKeyHash (ad_key q') = requestKeyHash (ad_key retry) \<and>
       ad_fingerprint q' = ad_fingerprint retry \<and> rec = buffered (fst (creating (ad_request q') b')) \<and>
       retry_answer = writeStoredResponse (result_record (ad_fingerprint retry) rec) replayed)"
proof (rule redis_answers_come_from_executions [OF ks.redis_server_axioms _ tagged_codec_keeps _ run_twice_reached])
  show "0 < day_ttl div 1000000" by simp
  show "(retry, retry_answer) \<in> set (xs_replies run_twice)" by (simp add: run_twice_def twice_at_def)
qed (simp add: ks_view_def)

end
