(* ===== verification/Hub.thy ===== *)
theory Hub
  imports Handlers
begin

text \<open>
  The realtime hub, \<^verbatim>\<open>realtime/hub.go\<close>, and its Redis broker, \<^verbatim>\<open>realtime/redis_broker.go\<close>: the connected
  clients of one replica, publishing to devices and users through the broker or locally, and presence. What
  the hub does to a connection is returned as a list of actions; the JSON texts and Redis Pub/Sub are
  parameters.
\<close>

section \<open>Data\<close>

definition defaultPresenceTTL :: duration where
  "defaultPresenceTTL = 45 * second"

record Event =
  ev_Type :: string
  ev_OccurredAt :: instant
  ev_Payload :: json

record routeTargets =
  rt_DeviceIDs :: "string list"
  rt_UserIDs :: "string list"

record brokerEnvelope =
  be_Targets :: routeTargets
  be_Event :: Event

record clientIdentity =
  ci_deviceID :: string
  ci_userID :: string

text \<open>json.Marshal and json.Unmarshal of the envelope, and json.Marshal of an event.\<close>

record hub_codec =
  hc_envelope :: "brokerEnvelope \<Rightarrow> string option"
  hc_parse_envelope :: "string \<Rightarrow> brokerEnvelope option"
  hc_event :: "Event \<Rightarrow> string option"

text \<open>The Broker interface, and RedisBroker over the PUBLISH command.\<close>

record 'b broker =
  br_Publish :: "string \<Rightarrow> 'b \<Rightarrow> (string, unit, 'b) outcome"

record 'b pubsub =
  pb_PUBLISH :: "string \<Rightarrow> string \<Rightarrow> 'b \<Rightarrow> (string, unit, 'b) outcome"
  pb_receive :: "nat \<Rightarrow> string \<Rightarrow> 'b \<Rightarrow> string option \<times> 'b"

definition broker_channel :: string where
  "broker_channel = ''pixelgo:events''"

definition RedisBroker_Publish :: "'b pubsub \<Rightarrow> fault \<Rightarrow> string \<Rightarrow> 'b \<Rightarrow> (string, unit, 'b) outcome" where
  "RedisBroker_Publish ps f payload b = exchange f (pb_PUBLISH ps broker_channel payload) b"

definition NewRedisBroker :: "'b pubsub \<Rightarrow> fault \<Rightarrow> 'b broker" where
  "NewRedisBroker ps f = \<lparr>br_Publish = RedisBroker_Publish ps f\<rparr>"

text \<open>What the select of Subscribe sees: a message, the closed channel, or the end of the context.\<close>

datatype sub_event = SubMessage string | SubClosed | SubDone string

fun subscribe_loop :: "(string \<Rightarrow> 's \<Rightarrow> 's) \<Rightarrow> sub_event list \<Rightarrow> 's \<Rightarrow> (string, unit) result option \<times> 's" where
  "subscribe_loop handler [] s = (None, s)"
| "subscribe_loop handler (SubDone e # es) s = (Some (Inl e), s)"
| "subscribe_loop handler (SubClosed # es) s = (Some (Inr ()), s)"
| "subscribe_loop handler (SubMessage m # es) s = subscribe_loop handler es (handler m s)"

definition RedisBroker_Subscribe ::
  "(string, unit) result \<Rightarrow> (string \<Rightarrow> 's \<Rightarrow> 's) \<Rightarrow> sub_event list \<Rightarrow> 's \<Rightarrow> (string, unit) result option \<times> 's"
where
  "RedisBroker_Subscribe received handler es s =
     (case received of Inl e \<Rightarrow> (Some (Inl e), s) | Inr _ \<Rightarrow> subscribe_loop handler es s)"

section \<open>The hub\<close>

record ('b, 'p) Hub =
  hub_codec :: hub_codec
  hub_broker :: "'b broker option"
  hub_presence :: "'p presence_iface option"

type_synonym clients = "nat \<rightharpoonup> clientIdentity"

record ('b, 'p) hub_state =
  hs_clients :: clients
  hs_broker :: 'b
  hs_presence :: 'p

datatype hub_action = WriteText nat string | CloseConn nat int string

definition WithBroker :: "'b broker \<Rightarrow> ('b, 'p) Hub \<Rightarrow> ('b, 'p) Hub" where
  "WithBroker br h = h\<lparr>hub_broker := Some br\<rparr>"

definition hub_WithPresence :: "'p presence_iface \<Rightarrow> ('b, 'p) Hub \<Rightarrow> ('b, 'p) Hub" where
  "hub_WithPresence store h = h\<lparr>hub_presence := Some store\<rparr>"

definition NewHub :: "hub_codec \<Rightarrow> (('b, 'p) Hub \<Rightarrow> ('b, 'p) Hub) list \<Rightarrow> ('b, 'p) Hub \<times> clients" where
  "NewHub codec options =
     (fold (\<lambda>opt. opt) options \<lparr>hub_codec = codec, hub_broker = None, hub_presence = None\<rparr>, Map.empty)"

text \<open>Start: whether this call begins the one subscription, and whether one has begun.\<close>

definition hub_Start :: "('b, 'p) Hub \<Rightarrow> bool \<Rightarrow> bool \<times> bool" where
  "hub_Start h started = (if hub_broker h = None then (False, started) else (\<not> started, True))"

section \<open>Routing\<close>

definition targetMatches :: "clientIdentity \<Rightarrow> routeTargets \<Rightarrow> bool" where
  "targetMatches ident targets \<longleftrightarrow>
     list_ex (\<lambda>d. d \<noteq> '''' \<and> d = ci_deviceID ident) (rt_DeviceIDs targets) \<or>
     ci_userID ident \<noteq> '''' \<and> list_ex (\<lambda>u. u \<noteq> '''' \<and> u = ci_userID ident) (rt_UserIDs targets)"

fun compact_loop :: "string set \<Rightarrow> string list \<Rightarrow> string list \<Rightarrow> string list" where
  "compact_loop seen out [] = out"
| "compact_loop seen out (v # vs) =
     (if v = '''' then compact_loop seen out vs
      else if v \<in> seen then compact_loop seen out vs
      else compact_loop (insert v seen) (out @ [v]) vs)"

definition compactTargets :: "string list \<Rightarrow> string list" where
  "compactTargets values = compact_loop {} [] values"

text \<open>The order in which route visits the map of clients is an argument.\<close>

definition hub_route :: "hub_codec \<Rightarrow> nat list \<Rightarrow> brokerEnvelope \<Rightarrow> clients \<Rightarrow> hub_action list" where
  "hub_route codec order envelope clients =
     (let conns = filter (\<lambda>c. case clients c of None \<Rightarrow> False
                              | Some ident \<Rightarrow> targetMatches ident (be_Targets envelope)) order in
      if conns = [] then []
      else case hc_event codec (be_Event envelope) of
             None \<Rightarrow> []
           | Some data \<Rightarrow> map (\<lambda>c. WriteText c data) conns)"

definition hub_publish ::
  "('b, 'p) Hub \<Rightarrow> instant \<Rightarrow> nat list \<Rightarrow> routeTargets \<Rightarrow> string \<Rightarrow> json \<Rightarrow> ('b, 'p) hub_state \<Rightarrow>
   hub_action list \<times> ('b, 'p) hub_state" where
  "hub_publish h now order targets eventType payload s =
     (if rt_DeviceIDs targets = [] \<and> rt_UserIDs targets = [] then ([], s)
      else
        let envelope = \<lparr>be_Targets = targets,
              be_Event = \<lparr>ev_Type = eventType, ev_OccurredAt = now, ev_Payload = payload\<rparr>\<rparr> in
        case hc_envelope (hub_codec h) envelope of
          None \<Rightarrow> ([], s)
        | Some data \<Rightarrow>
            (case hub_broker h of
               None \<Rightarrow> (hub_route (hub_codec h) order envelope (hs_clients s), s)
             | Some br \<Rightarrow>
                 (case br_Publish br data (hs_broker s) of
                    (Inr _, b) \<Rightarrow> ([], s\<lparr>hs_broker := b\<rparr>)
                  | (Inl _, b) \<Rightarrow>
                      (hub_route (hub_codec h) order envelope (hs_clients s), s\<lparr>hs_broker := b\<rparr>))))"

definition PublishToDevices ::
  "('b, 'p) Hub \<Rightarrow> instant \<Rightarrow> nat list \<Rightarrow> string list \<Rightarrow> string \<Rightarrow> json \<Rightarrow> ('b, 'p) hub_state \<Rightarrow>
   hub_action list \<times> ('b, 'p) hub_state" where
  "PublishToDevices h now order deviceIDs eventType payload s =
     hub_publish h now order \<lparr>rt_DeviceIDs = compactTargets deviceIDs, rt_UserIDs = []\<rparr> eventType payload s"

definition publishToUsers ::
  "('b, 'p) Hub \<Rightarrow> instant \<Rightarrow> nat list \<Rightarrow> string list \<Rightarrow> string \<Rightarrow> json \<Rightarrow> ('b, 'p) hub_state \<Rightarrow>
   hub_action list \<times> ('b, 'p) hub_state" where
  "publishToUsers h now order userIDs eventType payload s =
     hub_publish h now order \<lparr>rt_DeviceIDs = [], rt_UserIDs = compactTargets userIDs\<rparr> eventType payload s"

definition handleBrokerMessage :: "('b, 'p) Hub \<Rightarrow> nat list \<Rightarrow> string \<Rightarrow> clients \<Rightarrow> hub_action list" where
  "handleBrokerMessage h order data clients =
     (case hc_parse_envelope (hub_codec h) data of
        None \<Rightarrow> []
      | Some envelope \<Rightarrow>
          if ev_Type (be_Event envelope) = '''' then []
          else hub_route (hub_codec h) order envelope clients)"

definition hub_Close :: "nat list \<Rightarrow> hub_action list" where
  "hub_Close order = map (\<lambda>c. CloseConn c 1001 ''server shutting down'') order"

section \<open>Connections\<close>

definition publishPresence ::
  "('b, 'p) Hub \<Rightarrow> instant \<Rightarrow> nat list \<Rightarrow> clientIdentity \<Rightarrow> string \<Rightarrow> ('b, 'p) hub_state \<Rightarrow>
   hub_action list \<times> ('b, 'p) hub_state" where
  "publishPresence h now order ident eventType s =
     (let payload = JObject [(''deviceId'', JString (ci_deviceID ident))] in
      if ci_userID ident \<noteq> '''' then publishToUsers h now order [ci_userID ident] eventType payload s
      else PublishToDevices h now order [ci_deviceID ident] eventType payload s)"

text \<open>The calls to the presence store, whose errors are dropped.\<close>

definition announce :: "('b, 'p) Hub \<Rightarrow> instant \<Rightarrow> string \<Rightarrow> ('b, 'p) hub_state \<Rightarrow> ('b, 'p) hub_state" where
  "announce h now deviceID s =
     (case hub_presence h of None \<Rightarrow> s
      | Some ps \<Rightarrow> s\<lparr>hs_presence := snd (ps_Online ps now deviceID defaultPresenceTTL (hs_presence s))\<rparr>)"

definition retract :: "('b, 'p) Hub \<Rightarrow> instant \<Rightarrow> string \<Rightarrow> ('b, 'p) hub_state \<Rightarrow> ('b, 'p) hub_state" where
  "retract h now deviceID s =
     (case hub_presence h of None \<Rightarrow> s
      | Some ps \<Rightarrow> s\<lparr>hs_presence := snd (ps_Offline ps now deviceID (hs_presence s))\<rparr>)"

text \<open>ServeHTTP in three parts: the guard, the opening of a connection, and the deferred end of it.\<close>

definition hub_admit :: "http_request \<Rightarrow> writer_op list + clientIdentity" where
  "hub_admit r =
     (let deviceID = rq_Query r ''deviceId'' in
      if deviceID = ''''
      then Inl [SetHeader ''Content-Type'' ''text/plain; charset=utf-8'',
                SetHeader ''X-Content-Type-Options'' ''nosniff'', WriteHeader 400,
                Write (Raw (''deviceId query parameter is required'' @ [CHR 0x0A]))]
      else Inr \<lparr>ci_deviceID = deviceID, ci_userID = UserID (rq_ctx r)\<rparr>)"

definition hub_open ::
  "('b, 'p) Hub \<Rightarrow> instant \<Rightarrow> nat list \<Rightarrow> nat \<Rightarrow> clientIdentity \<Rightarrow> ('b, 'p) hub_state \<Rightarrow>
   hub_action list \<times> ('b, 'p) hub_state" where
  "hub_open h now order c ident s =
     publishPresence h now order ident ''device.online''
       (announce h now (ci_deviceID ident) (s\<lparr>hs_clients := (hs_clients s)(c \<mapsto> ident)\<rparr>))"

definition hub_end ::
  "('b, 'p) Hub \<Rightarrow> instant \<Rightarrow> nat list \<Rightarrow> nat \<Rightarrow> clientIdentity \<Rightarrow> ('b, 'p) hub_state \<Rightarrow>
   hub_action list \<times> ('b, 'p) hub_state" where
  "hub_end h now order c ident s =
     (let (out, s') = publishPresence h now order ident ''device.offline''
            (retract h now (ci_deviceID ident) (s\<lparr>hs_clients := (hs_clients s)(c := None)\<rparr>)) in
      (out @ [CloseConn c 1000 ''bye''], s'))"

text \<open>One tick of refreshPresence: what is done, and whether the loop goes on.\<close>

definition refreshPresence ::
  "('b, 'p) Hub \<Rightarrow> instant \<Rightarrow> (string, unit) result \<Rightarrow> nat \<Rightarrow> string \<Rightarrow> ('b, 'p) hub_state \<Rightarrow>
   hub_action list \<times> bool \<times> ('b, 'p) hub_state" where
  "refreshPresence h now ping c deviceID s =
     (case ping of
        Inr _ \<Rightarrow> ([], True, announce h now deviceID s)
      | Inl e \<Rightarrow> ([CloseConn c 1001 ''presence heartbeat failed''], False, s))"

end
