(* ===== verification/HubProps.thy ===== *)
theory HubProps
  imports Hub
begin

text \<open>
  The properties of the realtime hub: routing by explicit targets, the contract of Redis Pub/Sub (the locale
  pubsub_server), and any number of replicas as a step relation, in which events reach their addressees and
  nobody else.
\<close>

section \<open>Targets\<close>

lemma compact_loop_set:
  "seen = set out \<Longrightarrow> distinct out \<Longrightarrow> '''' \<notin> set out \<Longrightarrow>
   set (compact_loop seen out vs) = set out \<union> (set vs - {''''}) \<and> distinct (compact_loop seen out vs)"
  by (induction seen out vs rule: compact_loop.induct) auto

lemma set_compactTargets [simp]: "set (compactTargets vs) = set vs - {''''}"
  using compact_loop_set [of "{}" "[]" vs] by (simp add: compactTargets_def)

lemma distinct_compactTargets: "distinct (compactTargets vs)"
  using compact_loop_set [of "{}" "[]" vs] by (simp add: compactTargets_def)

lemma compactTargets_empty [simp]: "compactTargets vs = [] \<longleftrightarrow> set vs \<subseteq> {''''}"
proof -
  have "compactTargets vs = [] \<longleftrightarrow> set (compactTargets vs) = {}" by (simp only: set_empty)
  then show ?thesis by auto
qed

lemma targetMatches_iff:
  "targetMatches who ts \<longleftrightarrow>
     ci_deviceID who \<noteq> '''' \<and> ci_deviceID who \<in> set (rt_DeviceIDs ts) \<or>
     ci_userID who \<noteq> '''' \<and> ci_userID who \<in> set (rt_UserIDs ts)"
  by (auto simp: targetMatches_def list_ex_iff)

text \<open>A call that publishes: whom it addresses, independently of how the hub encodes it.\<close>

datatype hub_call = ToDevices "string list" string | PresenceOf clientIdentity string

fun addressed :: "hub_call \<Rightarrow> clientIdentity \<Rightarrow> bool" where
  "addressed (ToDevices ids ty) who \<longleftrightarrow> ci_deviceID who \<noteq> '''' \<and> ci_deviceID who \<in> set ids"
| "addressed (PresenceOf ident ty) who \<longleftrightarrow>
     (if ci_userID ident \<noteq> '''' then ci_userID who = ci_userID ident
      else ci_deviceID who \<noteq> '''' \<and> ci_deviceID who = ci_deviceID ident)"

fun call_type :: "hub_call \<Rightarrow> string" where
  "call_type (ToDevices ids ty) = ty"
| "call_type (PresenceOf ident ty) = ty"

fun call_targets :: "hub_call \<Rightarrow> routeTargets" where
  "call_targets (ToDevices ids ty) = \<lparr>rt_DeviceIDs = compactTargets ids, rt_UserIDs = []\<rparr>"
| "call_targets (PresenceOf ident ty) =
     (if ci_userID ident \<noteq> '''' then \<lparr>rt_DeviceIDs = [], rt_UserIDs = compactTargets [ci_userID ident]\<rparr>
      else \<lparr>rt_DeviceIDs = compactTargets [ci_deviceID ident], rt_UserIDs = []\<rparr>)"

lemma targetMatches_call: "targetMatches who (call_targets call) \<longleftrightarrow> addressed call who"
  by (cases call) (auto simp: targetMatches_iff)

section \<open>Writes\<close>

definition writes :: "clients \<Rightarrow> hub_action list \<Rightarrow> (nat \<times> clientIdentity \<times> string) list" where
  "writes clients out = List.map_filter
     (\<lambda>a. case a of WriteText c d \<Rightarrow> map_option (\<lambda>who. (c, who, d)) (clients c) | _ \<Rightarrow> None) out"

lemma writes_simps [simp]:
  "writes clients [] = []" "writes clients (out @ [CloseConn c code why]) = writes clients out"
  "writes clients [CloseConn c code why] = []"
  by (simp_all add: writes_def List.map_filter_def)

lemma set_writes: "(c, who, d) \<in> set (writes clients out) \<longleftrightarrow> WriteText c d \<in> set out \<and> clients c = Some who"
proof -
  have filtered: "y \<in> set (List.map_filter f xs) \<longleftrightarrow> (\<exists>x \<in> set xs. f x = Some y)" for y f and xs :: "hub_action list"
    by (induction xs) (auto simp: map_filter_simps split: option.splits)
  show ?thesis
  proof
    assume "(c, who, d) \<in> set (writes clients out)"
    then obtain a where a: "a \<in> set out"
      "(case a of WriteText c d \<Rightarrow> map_option (\<lambda>who. (c, who, d)) (clients c) | _ \<Rightarrow> None) = Some (c, who, d)"
      unfolding writes_def filtered by blast
    from a(2) have "a = WriteText c d \<and> clients c = Some who" by (cases a) auto
    with a(1) show "WriteText c d \<in> set out \<and> clients c = Some who" by simp
  next
    assume w: "WriteText c d \<in> set out \<and> clients c = Some who"
    show "(c, who, d) \<in> set (writes clients out)"
      unfolding writes_def filtered by (rule bexI [of _ "WriteText c d"]) (simp_all add: w)
  qed
qed

lemma set_route:
  "WriteText c d \<in> set (hub_route codec order env clients) \<longleftrightarrow>
     c \<in> set order \<and> hc_event codec (be_Event env) = Some d \<and>
     (\<exists>who. clients c = Some who \<and> targetMatches who (be_Targets env))"
  by (auto simp: hub_route_def Let_def filter_empty_conv split: option.splits)

lemma set_handle:
  "WriteText c d \<in> set (handleBrokerMessage h order m clients) \<longleftrightarrow>
     (\<exists>env who. hc_parse_envelope (hub_codec h) m = Some env \<and> ev_Type (be_Event env) \<noteq> '''' \<and>
        c \<in> set order \<and> hc_event (hub_codec h) (be_Event env) = Some d \<and>
        clients c = Some who \<and> targetMatches who (be_Targets env))"
proof (cases "hc_parse_envelope (hub_codec h) m")
  case (Some env)
  then show ?thesis
    by (cases "ev_Type (be_Event env) = ''''") (simp_all add: handleBrokerMessage_def set_route)
qed (simp add: handleBrokerMessage_def)

text \<open>Two texts for one envelope: parsing keeps the targets and the event type.\<close>

definition hub_codec_keeps :: "hub_codec \<Rightarrow> bool" where
  "hub_codec_keeps codec \<longleftrightarrow>
     (\<forall>env m. hc_envelope codec env = Some m \<longrightarrow>
        (\<exists>env'. hc_parse_envelope codec m = Some env' \<and> be_Targets env' = be_Targets env \<and>
           ev_Type (be_Event env') = ev_Type (be_Event env)))"

section \<open>Redis Pub/Sub\<close>

text \<open>
  A published message is queued for every client subscribed to the channel, and each receives its queue in
  order. A subscriber may lose messages (Pub/Sub keeps nothing for a client that is not connected).
\<close>

locale pubsub_server =
  fixes ps :: "'b pubsub"
    and pending :: "'b \<Rightarrow> string \<Rightarrow> nat \<Rightarrow> string list"
    and subscribed :: "'b \<Rightarrow> string \<Rightarrow> nat \<Rightarrow> bool"
  assumes publish_reply: "fst (pb_PUBLISH ps ch m b) = Inr ()"
    and publish_pending: "pending (snd (pb_PUBLISH ps ch m b)) ch' n =
      (if ch' = ch \<and> subscribed b ch n then pending b ch n @ [m] else pending b ch' n)"
    and publish_subscribed: "subscribed (snd (pb_PUBLISH ps ch m b)) = subscribed b"
    and receive_none: "pending b ch n = [] \<Longrightarrow> pb_receive ps n ch b = (None, b)"
    and receive_some: "pending b ch n = m # ms \<Longrightarrow> fst (pb_receive ps n ch b) = Some m \<and>
      pending (snd (pb_receive ps n ch b)) = (pending b)(ch := (pending b ch)(n := ms))"

begin

lemma received:
  assumes "pb_receive ps n ch b = (Some m, b')"
  shows "m \<in> set (pending b ch n)" "set (pending b' ch' n') \<subseteq> set (pending b ch' n')"
proof -
  from assms receive_none obtain x ms where p: "pending b ch n = x # ms"
    by (cases "pending b ch n") auto
  from receive_some [OF p] assms p show "m \<in> set (pending b ch n)" by simp
  from receive_some [OF p] assms p show "set (pending b' ch' n') \<subseteq> set (pending b ch' n')"
    by (auto simp: fun_upd_def)
qed

lemma published_by_broker:
  assumes "RedisBroker_Publish ps f m b = (q, b')"
  shows "set (pending b' broker_channel n) \<subseteq> insert m (set (pending b broker_channel n))"
  using assms publish_pending [of broker_channel m b broker_channel n]
  by (auto simp: RedisBroker_Publish_def exchange_def split: fault.splits if_splits)

end

text \<open>A server that keeps a queue for every subscriber.\<close>

record fifo_state =
  ff_queues :: "string \<Rightarrow> nat \<Rightarrow> string list"
  ff_subs :: "string \<Rightarrow> nat \<Rightarrow> bool"

definition fifo_pubsub :: "fifo_state pubsub" where
  "fifo_pubsub =
     \<lparr>pb_PUBLISH = (\<lambda>ch m b. (Inr (), b\<lparr>ff_queues := (ff_queues b)(ch :=
          (\<lambda>n. if ff_subs b ch n then ff_queues b ch n @ [m] else ff_queues b ch n))\<rparr>)),
      pb_receive = (\<lambda>n ch b. case ff_queues b ch n of
          [] \<Rightarrow> (None, b)
        | m # ms \<Rightarrow> (Some m, b\<lparr>ff_queues := (ff_queues b)(ch := (ff_queues b ch)(n := ms))\<rparr>))\<rparr>"

interpretation fifo: pubsub_server fifo_pubsub ff_queues ff_subs
  by unfold_locales (auto simp: fifo_pubsub_def)

section \<open>Publishing\<close>

text \<open>What publishing writes and what it hands to the broker, for any hub of the cluster.\<close>

definition hub_of :: "'b pubsub \<Rightarrow> hub_codec \<Rightarrow> ('b, 'p) Hub \<Rightarrow> bool" where
  "hub_of ps codec h \<longleftrightarrow> hub_codec h = codec \<and>
     (hub_broker h = None \<or> (\<exists>f. hub_broker h = Some (NewRedisBroker ps f)))"

context pubsub_server begin

lemma publish_effect:
  assumes "hub_publish h now order (call_targets call) (call_type call) payload s = (out, s')"
    and "hub_of ps codec h"
  shows "hs_clients s' = hs_clients s \<and>
    (\<forall>c d. WriteText c d \<in> set out \<longrightarrow>
       (\<exists>who ev. hs_clients s c = Some who \<and> addressed call who \<and> hc_event codec ev = Some d \<and>
          ev_Type ev = call_type call)) \<and>
    (\<forall>m n. m \<in> set (pending (hs_broker s') broker_channel n) \<longrightarrow>
       m \<in> set (pending (hs_broker s) broker_channel n) \<or>
       (\<exists>env. hc_envelope codec env = Some m \<and> be_Targets env = call_targets call \<and>
          ev_Type (be_Event env) = call_type call))"
proof (cases "rt_DeviceIDs (call_targets call) = [] \<and> rt_UserIDs (call_targets call) = []")
  case True
  with assms(1) have "out = []" "s' = s" unfolding hub_publish_def if_P [OF True] by simp_all
  then show ?thesis by simp
next
  case False
  define env where "env = \<lparr>be_Targets = call_targets call,
    be_Event = \<lparr>ev_Type = call_type call, ev_OccurredAt = now, ev_Payload = payload\<rparr>\<rparr>"
  have codec: "hub_codec h = codec" using assms(2) by (simp add: hub_of_def)
  have routed: "\<exists>who ev. hs_clients s c = Some who \<and> addressed call who \<and> hc_event codec ev = Some d \<and>
      ev_Type ev = call_type call" if "WriteText c d \<in> set (hub_route codec order env (hs_clients s))" for c d
  proof -
    from that obtain who where "hs_clients s c = Some who" "targetMatches who (be_Targets env)"
      "hc_event codec (be_Event env) = Some d"
      unfolding set_route by blast
    then show ?thesis by (intro exI [of _ who] exI [of _ "be_Event env"]) (simp add: env_def targetMatches_call)
  qed
  show ?thesis
  proof (cases "hc_envelope codec env")
    case None
    with assms(1) codec have "out = []" "s' = s"
      unfolding hub_publish_def if_not_P [OF False] env_def by simp_all
    then show ?thesis by simp
  next
    case (Some m)
    show ?thesis
    proof (cases "hub_broker h")
      case None
      with assms(1) codec Some have "out = hub_route codec order env (hs_clients s)" "s' = s"
        unfolding hub_publish_def if_not_P [OF False] env_def by auto
      then show ?thesis using routed by simp
    next
      case (Some br)
      with assms(2) obtain f where br: "br = NewRedisBroker ps f" by (auto simp: hub_of_def)
      obtain q b' where pub: "RedisBroker_Publish ps f m (hs_broker s) = (q, b')" by fastforce
      have "s' = s\<lparr>hs_broker := b'\<rparr> \<and> (out = [] \<or> out = hub_route codec order env (hs_clients s))"
        using assms(1) codec Some \<open>hc_envelope codec env = Some m\<close> br pub
        unfolding hub_publish_def if_not_P [OF False] env_def
        by (cases q) (simp_all add: NewRedisBroker_def Let_def)
      moreover have "m' \<in> set (pending (hs_broker s) broker_channel n) \<or>
          (\<exists>env. hc_envelope codec env = Some m' \<and> be_Targets env = call_targets call \<and>
             ev_Type (be_Event env) = call_type call)"
        if "m' \<in> set (pending b' broker_channel n)" for m' n
      proof (cases "m' = m")
        case True
        with \<open>hc_envelope codec env = Some m\<close> show ?thesis
          by (intro disjI2 exI [of _ env]) (simp add: env_def)
      next
        case False
        then show ?thesis using published_by_broker [OF pub, of n] that by blast
      qed
      ultimately show ?thesis using routed by (elim conjE disjE) simp_all
    qed
  qed
qed

end

lemma PublishToDevices_call:
  "PublishToDevices h now order ids ty payload s =
     hub_publish h now order (call_targets (ToDevices ids ty)) (call_type (ToDevices ids ty)) payload s"
  by (simp add: PublishToDevices_def)

lemma publishPresence_call:
  "publishPresence h now order ident ty s =
     hub_publish h now order (call_targets (PresenceOf ident ty)) (call_type (PresenceOf ident ty))
       (JObject [(''deviceId'', JString (ci_deviceID ident))]) s"
  by (simp add: publishPresence_def publishToUsers_def PublishToDevices_def Let_def)

lemma announce_fields [simp]:
  "hs_clients (announce h now d s) = hs_clients s" "hs_broker (announce h now d s) = hs_broker s"
  by (simp_all add: announce_def split: option.split)

lemma retract_fields [simp]:
  "hs_clients (retract h now d s) = hs_clients s" "hs_broker (retract h now d s) = hs_broker s"
  by (simp_all add: retract_def split: option.split)

section \<open>Replicas\<close>

text \<open>
  Any number of replicas, each with its clients, around one Redis and one presence store, with what was
  published and what was written to whom. A broker step is anything by which no message appears: a
  subscription begins or ends, messages are lost.
\<close>

record ('b, 'p) cluster =
  cl_broker :: 'b
  cl_presence :: 'p
  cl_hubs :: "nat \<Rightarrow> clients"
  cl_calls :: "hub_call list"
  cl_sent :: "(clientIdentity \<times> string) list"

definition replica :: "nat \<Rightarrow> ('b, 'p) cluster \<Rightarrow> ('b, 'p) hub_state" where
  "replica n s = \<lparr>hs_clients = cl_hubs s n, hs_broker = cl_broker s, hs_presence = cl_presence s\<rparr>"

definition cluster_advance ::
  "nat \<Rightarrow> hub_call list \<Rightarrow> clients \<Rightarrow> hub_action list \<Rightarrow> ('b, 'p) hub_state \<Rightarrow> ('b, 'p) cluster \<Rightarrow>
   ('b, 'p) cluster" where
  "cluster_advance n calls clients out hs s =
     s\<lparr>cl_broker := hs_broker hs, cl_presence := hs_presence hs, cl_hubs := (cl_hubs s)(n := hs_clients hs),
       cl_calls := cl_calls s @ calls, cl_sent := cl_sent s @ map snd (writes clients out)\<rparr>"

inductive cluster_step ::
  "'b pubsub \<Rightarrow> ('b \<Rightarrow> string \<Rightarrow> nat \<Rightarrow> string list) \<Rightarrow> hub_codec \<Rightarrow> ('b, 'p) cluster \<Rightarrow> ('b, 'p) cluster \<Rightarrow> bool"
  for ps :: "'b pubsub" and pending :: "'b \<Rightarrow> string \<Rightarrow> nat \<Rightarrow> string list" and codec :: hub_codec where
  cpublish: "hub_of ps codec h \<Longrightarrow> PublishToDevices h now order ids ty payload (replica n s) = (out, hs) \<Longrightarrow>
    cluster_step ps pending codec s (cluster_advance n [ToDevices ids ty] (cl_hubs s n) out hs s)"
| copen: "hub_of ps codec h \<Longrightarrow> hub_admit r = Inr ident \<Longrightarrow> cl_hubs s n c = None \<Longrightarrow>
    hub_open h now order c ident (replica n s) = (out, hs) \<Longrightarrow>
    cluster_step ps pending codec s
      (cluster_advance n [PresenceOf ident ''device.online''] ((cl_hubs s n)(c \<mapsto> ident)) out hs s)"
| cend: "hub_of ps codec h \<Longrightarrow> cl_hubs s n c = Some ident \<Longrightarrow>
    hub_end h now order c ident (replica n s) = (out, hs) \<Longrightarrow>
    cluster_step ps pending codec s
      (cluster_advance n [PresenceOf ident ''device.offline''] ((cl_hubs s n)(c := None)) out hs s)"
| crefresh: "hub_of ps codec h \<Longrightarrow> cl_hubs s n c = Some ident \<Longrightarrow>
    refreshPresence h now ping c (ci_deviceID ident) (replica n s) = (out, again, hs) \<Longrightarrow>
    cluster_step ps pending codec s (cluster_advance n [] (cl_hubs s n) out hs s)"
| creceive: "hub_of ps codec (h :: ('b, 'p) Hub) \<Longrightarrow> pb_receive ps n broker_channel (cl_broker s) = (Some m, b) \<Longrightarrow>
    out = handleBrokerMessage h order m (cl_hubs s n) \<Longrightarrow>
    cluster_step ps pending codec s (cluster_advance n [] (cl_hubs s n) out (replica n (s\<lparr>cl_broker := b\<rparr>)) s)"
| cbroker: "(\<And>n. set (pending b broker_channel n) \<subseteq> set (pending (cl_broker s) broker_channel n)) \<Longrightarrow>
    cluster_step ps pending codec s (s\<lparr>cl_broker := b\<rparr>)"

definition cluster_inv ::
  "('b \<Rightarrow> string \<Rightarrow> nat \<Rightarrow> string list) \<Rightarrow> hub_codec \<Rightarrow> ('b, 'p) cluster \<Rightarrow> bool" where
  "cluster_inv pending codec s \<longleftrightarrow>
     (\<forall>who d. (who, d) \<in> set (cl_sent s) \<longrightarrow>
        (\<exists>call \<in> set (cl_calls s). addressed call who \<and>
           (\<exists>ev. hc_event codec ev = Some d \<and> ev_Type ev = call_type call))) \<and>
     (\<forall>n m. m \<in> set (pending (cl_broker s) broker_channel n) \<longrightarrow>
        (\<exists>call \<in> set (cl_calls s). \<exists>env. hc_envelope codec env = Some m \<and>
           be_Targets env = call_targets call \<and> ev_Type (be_Event env) = call_type call))"

lemma cluster_inv_advance:
  assumes "cluster_inv pending codec s"
    and "\<And>c who d. WriteText c d \<in> set out \<Longrightarrow> clients c = Some who \<Longrightarrow>
      (\<exists>call \<in> set (cl_calls s) \<union> set calls. addressed call who \<and>
         (\<exists>ev. hc_event codec ev = Some d \<and> ev_Type ev = call_type call))"
    and "\<And>m n. m \<in> set (pending (hs_broker hs) broker_channel n) \<Longrightarrow>
      m \<in> set (pending (cl_broker s) broker_channel n) \<or>
      (\<exists>call \<in> set calls. \<exists>env. hc_envelope codec env = Some m \<and> be_Targets env = call_targets call \<and>
         ev_Type (be_Event env) = call_type call)"
  shows "cluster_inv pending codec (cluster_advance n calls clients out hs s)"
proof -
  have sent: "\<exists>call \<in> set (cl_calls s) \<union> set calls. addressed call who \<and>
      (\<exists>ev. hc_event codec ev = Some d \<and> ev_Type ev = call_type call)"
    if "(who, d) \<in> set (cl_sent s) \<union> snd ` set (writes clients out)" for who d
  proof (cases "(who, d) \<in> set (cl_sent s)")
    case True
    then show ?thesis using assms(1) unfolding cluster_inv_def by blast
  next
    case False
    with that obtain c where "(c, who, d) \<in> set (writes clients out)" by auto
    then show ?thesis using assms(2) unfolding set_writes by blast
  qed
  have queued: "\<exists>call \<in> set (cl_calls s) \<union> set calls. \<exists>env. hc_envelope codec env = Some m \<and>
      be_Targets env = call_targets call \<and> ev_Type (be_Event env) = call_type call"
    if "m \<in> set (pending (hs_broker hs) broker_channel n)" for m n
    using assms(3) [OF that] assms(1) unfolding cluster_inv_def by blast
  show ?thesis
    unfolding cluster_inv_def cluster_advance_def using sent queued by simp
qed

context pubsub_server begin

lemma cluster_inv_step:
  "cluster_step ps pending codec s s' \<Longrightarrow> hub_codec_keeps codec \<Longrightarrow> cluster_inv pending codec s \<Longrightarrow>
   cluster_inv pending codec s'"
proof (induction rule: cluster_step.induct)
  case (cpublish h now order ids ty payload n s out hs)
  from publish_effect [OF cpublish.hyps(2) [unfolded PublishToDevices_call] cpublish.hyps(1)]
  show ?case
    by (intro cluster_inv_advance [OF cpublish.prems(2)]) (simp_all add: replica_def, fastforce+)
next
  case (copen h r ident s n c now order out hs)
  let ?s = "announce h now (ci_deviceID ident)
    ((replica n s)\<lparr>hs_clients := (hs_clients (replica n s))(c \<mapsto> ident)\<rparr>)"
  from copen.hyps(4) have p: "hub_publish h now order (call_targets (PresenceOf ident ''device.online''))
      (call_type (PresenceOf ident ''device.online'')) (JObject [(''deviceId'', JString (ci_deviceID ident))]) ?s =
      (out, hs)"
    by (simp only: hub_open_def publishPresence_call)
  from publish_effect [OF p copen.hyps(1)] show ?case
    by (intro cluster_inv_advance [OF copen.prems(2)]) (simp_all add: replica_def, fastforce+)
next
  case (cend h s n c ident now order out hs)
  let ?s = "retract h now (ci_deviceID ident)
    ((replica n s)\<lparr>hs_clients := (hs_clients (replica n s))(c := None)\<rparr>)"
  obtain out' where p: "hub_publish h now order (call_targets (PresenceOf ident ''device.offline''))
      (call_type (PresenceOf ident ''device.offline'')) (JObject [(''deviceId'', JString (ci_deviceID ident))]) ?s =
      (out', hs)" and out: "out = out' @ [CloseConn c 1000 ''bye'']"
    using cend.hyps(3) unfolding hub_end_def publishPresence_call by (auto split: prod.splits)
  from publish_effect [OF p cend.hyps(1)] show ?case
    by (intro cluster_inv_advance [OF cend.prems(2)]) (simp_all add: replica_def out, fastforce+)
next
  case (crefresh h s n c ident now ping out again hs)
  then have "hs_broker hs = cl_broker s" "\<And>c' d. WriteText c' d \<notin> set out"
    by (auto simp: refreshPresence_def replica_def split: sum.splits)
  then show ?case by (intro cluster_inv_advance [OF crefresh.prems(2)]) simp_all
next
  case (creceive h n s m b out order)
  from received [OF creceive.hyps(2)] have m: "m \<in> set (pending (cl_broker s) broker_channel n)"
    and rest: "\<And>n'. set (pending b broker_channel n') \<subseteq> set (pending (cl_broker s) broker_channel n')" by auto
  from m creceive.prems(2) obtain call env where call: "call \<in> set (cl_calls s)" "hc_envelope codec env = Some m"
    "be_Targets env = call_targets call" "ev_Type (be_Event env) = call_type call"
    unfolding cluster_inv_def by blast
  with creceive.prems(1) obtain env' where env': "hc_parse_envelope codec m = Some env'"
    "be_Targets env' = call_targets call" "ev_Type (be_Event env') = call_type call"
    unfolding hub_codec_keeps_def by metis
  have codec: "hub_codec h = codec" using creceive.hyps(1) by (simp add: hub_of_def)
  have "\<exists>call \<in> set (cl_calls s) \<union> set []. addressed call who \<and>
      (\<exists>ev. hc_event codec ev = Some d \<and> ev_Type ev = call_type call)"
    if w: "WriteText c d \<in> set out" and who: "cl_hubs s n c = Some who" for c who d
  proof -
    from w who env'(1) have "targetMatches who (be_Targets env')" "hc_event codec (be_Event env') = Some d"
      unfolding creceive.hyps(3) set_handle codec by auto
    with env' call(1) show ?thesis by (auto simp: targetMatches_call)
  qed
  then show ?case
  proof (rule cluster_inv_advance [OF creceive.prems(2)])
    fix m' n'
    assume "m' \<in> set (pending (hs_broker (replica n (s\<lparr>cl_broker := b\<rparr>))) broker_channel n')"
    then have "m' \<in> set (pending (cl_broker s) broker_channel n')" using rest [of n'] by (auto simp: replica_def)
    then show "m' \<in> set (pending (cl_broker s) broker_channel n') \<or>
      (\<exists>call \<in> set []. \<exists>env. hc_envelope codec env = Some m' \<and> be_Targets env = call_targets call \<and>
         ev_Type (be_Event env) = call_type call)" ..
  qed
next
  case (cbroker b s)
  from cbroker.hyps cbroker.prems(2) show ?case unfolding cluster_inv_def by fastforce
qed

end

section \<open>The properties\<close>

definition cluster_start :: "'b \<Rightarrow> 'p \<Rightarrow> ('b, 'p) cluster" where
  "cluster_start b p =
     \<lparr>cl_broker = b, cl_presence = p, cl_hubs = (\<lambda>n. Map.empty), cl_calls = [], cl_sent = []\<rparr>"



lemma hub_publish_keeps [simp]:
  "hs_clients (snd (hub_publish h now order targets ty payload s)) = hs_clients s"
  "hs_presence (snd (hub_publish h now order targets ty payload s)) = hs_presence s"
  by (auto simp: hub_publish_def Let_def split: option.split prod.split sum.split)

lemma hub_end_state:
  "hs_clients (snd (hub_end h now order c ident s)) = (hs_clients s)(c := None)"
  "hub_presence h = Some ps \<Longrightarrow> hs_presence (snd (hub_end h now order c ident s)) =
     snd (ps_Offline ps now (ci_deviceID ident) (hs_presence s))"
  by (simp_all add: hub_end_def publishPresence_call case_prod_unfold retract_def Let_def split: option.split)

text \<open>
  C39: closing one of a device's connections takes the device offline. When a device has two connections (a
  reconnect overlaps the old connection, or a second window) and one of them ends, the presence store answers
  that the device is offline, at any time until the next heartbeat, although the hub still has the other
  connection and writes events to it.
\<close>

theorem closing_one_connection_hides_device:
  assumes "hs_clients s c1 = Some ident" and "hs_clients s c2 = Some ident'" and "c1 \<noteq> c2"
    and "ci_deviceID ident' = ci_deviceID ident" and "hub_presence h = Some memory_presence"
    and "hub_end h now order c1 ident s = (out, s')"
  shows "hs_clients s' c2 = Some ident' \<and>
    fst (ps_IsOnline memory_presence later (ci_deviceID ident') (hs_presence s')) = Inr False"
proof -
  from assms(6) have "s' = snd (hub_end h now order c1 ident s)" by simp
  with hub_end_state [where h = h and s = s] assms(2-5) show ?thesis
    by (simp add: memory_presence_def pm_Offline_def pm_IsOnline_def)
qed

section \<open>Concrete runs\<close>

definition tablet :: clientIdentity where
  "tablet = \<lparr>ci_deviceID = ''d'', ci_userID = ''''\<rparr>"

definition one_codec :: hub_codec where
  "one_codec =
     \<lparr>hc_envelope = (\<lambda>env. if be_Targets env = \<lparr>rt_DeviceIDs = [''d''], rt_UserIDs = []\<rparr> \<and>
          ev_Type (be_Event env) = ''device.online'' then Some ''m'' else None),
      hc_parse_envelope = (\<lambda>m. Some \<lparr>be_Targets = \<lparr>rt_DeviceIDs = [''d''], rt_UserIDs = []\<rparr>,
          be_Event = \<lparr>ev_Type = ''device.online'', ev_OccurredAt = 0, ev_Payload = JBool True\<rparr>\<rparr>),
      hc_event = (\<lambda>ev. Some (ev_Type ev))\<rparr>"

lemma one_codec_keeps: "hub_codec_keeps one_codec"
  by (simp add: hub_codec_keeps_def one_codec_def split: if_splits)

definition all_subscribed :: fifo_state where
  "all_subscribed = \<lparr>ff_queues = (\<lambda>ch n. []), ff_subs = (\<lambda>ch n. True)\<rparr>"

definition local_hub :: "(fifo_state, presence_memory) Hub" where
  "local_hub = \<lparr>hub_codec = one_codec, hub_broker = None, hub_presence = Some memory_presence\<rparr>"

definition broker_hub :: "(fifo_state, presence_memory) Hub" where
  "broker_hub = \<lparr>hub_codec = one_codec, hub_broker = Some (NewRedisBroker fifo_pubsub NoFault), hub_presence = None\<rparr>"

definition ws_request :: http_request where
  "ws_request = \<lparr>rq_Method = ''GET'', rq_Path = ''/v1/events'', rq_Query = (\<lambda>k. ''d''), rq_Header = Map.empty,
     rq_Body = [], rq_BodyError = None, rq_RemoteAddr = '''', rq_ctx = background\<rparr>"

definition phone_opened :: "hub_action list \<times> (fifo_state, presence_memory) hub_state" where
  "phone_opened = hub_open local_hub 0 [0] 0 tablet (replica 0 (cluster_start all_subscribed Map.empty))"

lemma phone_opened_eq:
  "phone_opened = ([WriteText 0 ''device.online''],
     \<lparr>hs_clients = [0 \<mapsto> tablet], hs_broker = all_subscribed, hs_presence = [''d'' \<mapsto> 45 * second]\<rparr>)"
  by (simp add: phone_opened_def hub_open_def local_hub_def announce_def memory_presence_def pm_Online_def
      replica_def cluster_start_def tablet_def publishPresence_def PublishToDevices_def compactTargets_def
      hub_publish_def one_codec_def hub_route_def targetMatches_def defaultPresenceTTL_def Let_def)



theorem closing_one_connection_hides_device_witness:
  "hs_clients (snd (hub_end local_hub 9 [1] 0 tablet
       \<lparr>hs_clients = [0 \<mapsto> tablet, 1 \<mapsto> tablet], hs_broker = all_subscribed, hs_presence = [''d'' \<mapsto> 45]\<rparr>)) 1 =
     Some tablet \<and>
   fst (ps_IsOnline memory_presence 10 (ci_deviceID tablet)
     (hs_presence (snd (hub_end local_hub 9 [1] 0 tablet
       \<lparr>hs_clients = [0 \<mapsto> tablet, 1 \<mapsto> tablet], hs_broker = all_subscribed, hs_presence = [''d'' \<mapsto> 45]\<rparr>)))) = Inr False"
  by (rule closing_one_connection_hides_device [where ?c1.0 = 0 and h = local_hub and now = 9 and order = "[1]" and
        ident = tablet, OF _ _ _ _ _ prod.collapse [symmetric]])
    (simp_all add: local_hub_def)

end
