(* ===== verification/Providers.thy ===== *)
theory Providers
  imports Handlers
begin

text \<open>
  Push providers, \<^verbatim>\<open>notifications/providers.go\<close>: the router by platform, and the APNs and FCM providers with
  their cached credentials. HTTP round trips, signing, key parsing and JSON texts are parameters; a provider
  is its configuration with the cache of its credential.
\<close>

section \<open>Deliveries and errors\<close>

record Delivery =
  dl_ID :: int
  dl_DeviceID :: string
  dl_TransferID :: string
  dl_EventType :: string
  dl_Platform :: string
  dl_PushToken :: string
  dl_Payload :: string
  dl_Attempts :: int

text \<open>Errors of sending: PermanentError, ErrProviderUnavailable, and every other error, by their texts.\<close>

datatype push_error = PermanentError string | ErrProviderUnavailable | OtherError string

fun push_error_text :: "push_error \<Rightarrow> string" where
  "push_error_text (PermanentError e) = e"
| "push_error_text ErrProviderUnavailable = ''push provider unavailable''"
| "push_error_text (OtherError e) = e"

text \<open>url.PathEscape.\<close>

definition path_unreserved :: "char \<Rightarrow> bool" where
  "path_unreserved c \<longleftrightarrow>
     (let n = of_char c :: nat in 97 \<le> n \<and> n \<le> 122 \<or> 65 \<le> n \<and> n \<le> 90 \<or> 48 \<le> n \<and> n \<le> 57) \<or>
     c \<in> set ''-_.~$&+=:@''"

fun PathEscape :: "string \<Rightarrow> string" where
  "PathEscape [] = []"
| "PathEscape (c # cs) =
     (if path_unreserved c then [c]
      else ''%'' @ map upper_char (hex_EncodeToString [c])) @ PathEscape cs"

section \<open>Parameters\<close>

text \<open>An HTTP request of the client, and a response: its status, the bytes of its body and how they end.\<close>

datatype push_body = JSONBody json | FormBody "(string \<times> string) list"

record push_request =
  pq_Method :: string
  pq_URL :: string
  pq_Header :: header
  pq_Body :: push_body

record push_response =
  pr_StatusCode :: int
  pr_Body :: bytes
  pr_BodyError :: "string option"

record eventPayload =
  ep_TransferID :: string
  ep_Kind :: string
  ep_DisplayName :: string

record fcmServiceAccount =
  fa_ProjectID :: string
  fa_PrivateKey :: string
  fa_ClientEmail :: string
  fa_TokenURI :: string

datatype 'k private_key = ECDSAKey 'k | RSAKey 'k | OtherKey

record ('k, 's) push_lib =
  pl_Do :: "push_request \<Rightarrow> 's \<Rightarrow> (string, push_response, 's) outcome"
  pl_NewRequest :: "string \<Rightarrow> string option"
  pl_Now :: "'s \<Rightarrow> instant"
  pl_Sign :: "string \<Rightarrow> (string \<times> string) list \<Rightarrow> json \<Rightarrow> 'k \<Rightarrow> (string, string) result"
  pl_DecodePayload :: "string \<Rightarrow> eventPayload"
  pl_PemDecode :: "string \<Rightarrow> bytes option"
  pl_ParsePKCS8 :: "bytes \<Rightarrow> (string, 'k private_key) result"
  pl_DecodeAccount :: "bytes \<Rightarrow> (string, fcmServiceAccount) result"
  pl_DecodeOAuth :: "bytes \<Rightarrow> (string, string \<times> int) result"
  pl_Quote :: "string \<Rightarrow> string"

definition pushBody :: "eventPayload \<Rightarrow> string" where
  "pushBody payload =
     (let name = TrimSpace (ep_DisplayName payload) in
      if name \<noteq> '''' then name @ '' is ready on this device.''
      else if ep_Kind payload = ''photo'' then ''A photo is ready on this device.''
      else if ep_Kind payload = ''file'' then ''A file is ready on this device.''
      else if ep_Kind payload = ''link'' then ''A link is ready on this device.''
      else if ep_Kind payload = ''clipboard'' then ''Clipboard content is ready on this device.''
      else ''Something is ready on this device.'')"

text \<open>What both providers make of the answer, given the statuses that are permanent errors.\<close>

definition classify_response :: "string \<Rightarrow> int set \<Rightarrow> push_response \<Rightarrow> (push_error, unit) result" where
  "classify_response name permanent resp =
     (if 200 \<le> pr_StatusCode resp \<and> pr_StatusCode resp < 300 then Inr ()
      else
        let e = name @ '' HTTP '' @ FormatInt (pr_StatusCode resp) @ '': '' @
              TrimSpace (take 4096 (pr_Body resp)) in
        if pr_StatusCode resp \<in> permanent then Inl (PermanentError e) else Inl (OtherError e))"

section \<open>APNs\<close>

record APNSConfig =
  ac_KeyID :: string
  ac_TeamID :: string
  ac_Topic :: string
  ac_PrivateKeyPEM :: string
  ac_Sandbox :: bool

record 'k APNSProvider =
  ap_keyID :: string
  ap_teamID :: string
  ap_topic :: string
  ap_key :: 'k
  ap_baseURL :: string
  ap_cachedToken :: string
  ap_tokenExpiry :: instant

text \<open>The zero time.Time, 1 January of year 1.\<close>

definition zero_time :: instant where
  "zero_time = - 62135596800 * second"

definition NewAPNSProvider :: "('k, 's) push_lib \<Rightarrow> APNSConfig \<Rightarrow> (string, 'k APNSProvider) result" where
  "NewAPNSProvider lib cfg =
     (case pl_PemDecode lib (ac_PrivateKeyPEM cfg) of
        None \<Rightarrow> Inl ''decode APNs private key PEM''
      | Some block \<Rightarrow>
          (case pl_ParsePKCS8 lib block of
             Inl e \<Rightarrow> Inl (''parse APNs private key: '' @ e)
           | Inr (ECDSAKey key) \<Rightarrow>
               if ac_KeyID cfg = '''' \<or> ac_TeamID cfg = '''' \<or> ac_Topic cfg = ''''
               then Inl ''APNs key ID, team ID and topic are required''
               else Inr \<lparr>ap_keyID = ac_KeyID cfg, ap_teamID = ac_TeamID cfg, ap_topic = ac_Topic cfg,
                          ap_key = key,
                          ap_baseURL = (if ac_Sandbox cfg then ''https://api.sandbox.push.apple.com''
                                        else ''https://api.push.apple.com''),
                          ap_cachedToken = '''', ap_tokenExpiry = zero_time\<rparr>
           | Inr _ \<Rightarrow> Inl ''APNs private key is not ECDSA''))"

definition authorizationToken ::
  "('k, 's) push_lib \<Rightarrow> instant \<Rightarrow> 'k APNSProvider \<Rightarrow> (push_error, string, 'k APNSProvider) outcome" where
  "authorizationToken lib now p =
     (if ap_cachedToken p \<noteq> '''' \<and> now < ap_tokenExpiry p then (Inr (ap_cachedToken p), p)
      else
        case pl_Sign lib ''ES256'' [(''kid'', ap_keyID p)]
               (JObject [(''iat'', JInt (unix_seconds now)), (''iss'', JString (ap_teamID p))]) (ap_key p) of
          Inl e \<Rightarrow> (Inl (OtherError (''sign APNs token: '' @ e)), p)
        | Inr jws \<Rightarrow>
            (Inr jws, p\<lparr>ap_cachedToken := jws, ap_tokenExpiry := now + 50 * minute\<rparr>))"

definition apns_body :: "eventPayload \<Rightarrow> Delivery \<Rightarrow> json" where
  "apns_body payload d =
     JObject [(''aps'', JObject [(''alert'', JObject [(''body'', JString (pushBody payload)),
                                                     (''title'', JString ''PIXEL GO'')]),
                                (''content-available'', JInt 1), (''sound'', JString ''default'')]),
              (''transferId'', JString (dl_TransferID d)), (''type'', JString (dl_EventType d))]"

definition apns_request :: "'k APNSProvider \<Rightarrow> string \<Rightarrow> json \<Rightarrow> Delivery \<Rightarrow> push_request" where
  "apns_request p token body d =
     \<lparr>pq_Method = ''POST'', pq_URL = ap_baseURL p @ ''/3/device/'' @ PathEscape (dl_PushToken d),
      pq_Header = foldl (\<lambda>h (k, v). header_Set h k v) Map.empty
        [(''Authorization'', ''bearer '' @ token), (''Content-Type'', ''application/json''),
         (''apns-topic'', ap_topic p), (''apns-push-type'', ''alert''), (''apns-priority'', ''10''),
         (''apns-collapse-id'', dl_TransferID d)],
      pq_Body = JSONBody body\<rparr>"

definition apns_Send ::
  "('k, 's) push_lib \<Rightarrow> Delivery \<Rightarrow> 'k APNSProvider \<times> 's \<Rightarrow> (push_error, unit, 'k APNSProvider \<times> 's) outcome"
where
  "apns_Send lib d ps =
     (let (p, s) = ps in
      case authorizationToken lib (pl_Now lib s) p of
        (Inl e, p') \<Rightarrow> (Inl e, (p', s))
      | (Inr token, p') \<Rightarrow>
          let body = apns_body (pl_DecodePayload lib (dl_Payload d)) d;
              req = apns_request p' token body d in
          case pl_NewRequest lib (pq_URL req) of
            Some e \<Rightarrow> (Inl (OtherError e), (p', s))
          | None \<Rightarrow>
              (case pl_Do lib req s of
                 (Inl e, s') \<Rightarrow> (Inl (OtherError e), (p', s'))
               | (Inr resp, s') \<Rightarrow> (classify_response ''APNs'' {400, 403, 410} resp, (p', s'))))"

section \<open>FCM\<close>

record 'k FCMProvider =
  fp_projectID :: string
  fp_clientEmail :: string
  fp_privateKey :: 'k
  fp_tokenURI :: string
  fp_baseURL :: string
  fp_accessToken :: string
  fp_tokenExpiry :: instant

definition NewFCMProvider :: "('k, 's) push_lib \<Rightarrow> bytes \<Rightarrow> (string, 'k FCMProvider) result" where
  "NewFCMProvider lib serviceAccountJSON =
     (case pl_DecodeAccount lib serviceAccountJSON of
        Inl e \<Rightarrow> Inl (''decode FCM service account: '' @ e)
      | Inr cfg \<Rightarrow>
          if fa_ProjectID cfg = '''' \<or> fa_ClientEmail cfg = '''' \<or> fa_PrivateKey cfg = ''''
          then Inl ''FCM service account is incomplete''
          else
            let tokenURI = (if fa_TokenURI cfg = '''' then ''https://oauth2.googleapis.com/token''
                            else fa_TokenURI cfg) in
            case pl_PemDecode lib (fa_PrivateKey cfg) of
              None \<Rightarrow> Inl ''decode FCM private key PEM''
            | Some block \<Rightarrow>
                (case pl_ParsePKCS8 lib block of
                   Inl e \<Rightarrow> Inl (''parse FCM private key: '' @ e)
                 | Inr (RSAKey key) \<Rightarrow>
                     Inr \<lparr>fp_projectID = fa_ProjectID cfg, fp_clientEmail = fa_ClientEmail cfg,
                          fp_privateKey = key, fp_tokenURI = tokenURI,
                          fp_baseURL = ''https://fcm.googleapis.com'',
                          fp_accessToken = '''', fp_tokenExpiry = zero_time\<rparr>
                 | Inr _ \<Rightarrow> Inl ''FCM private key is not RSA''))"

text \<open>
  oauthToken: the exchange of a signed assertion for an access token, and the expiry computed from the
  answer's 64-bit number of seconds.
\<close>

definition oauth_request :: "'k FCMProvider \<Rightarrow> string \<Rightarrow> push_request" where
  "oauth_request p jws =
     \<lparr>pq_Method = ''POST'', pq_URL = fp_tokenURI p,
      pq_Header = header_Set Map.empty ''Content-Type'' ''application/x-www-form-urlencoded'',
      pq_Body = FormBody [(''grant_type'', ''urn:ietf:params:oauth:grant-type:jwt-bearer''),
                          (''assertion'', jws)]\<rparr>"

definition oauth_answer :: "('k, 's) push_lib \<Rightarrow> push_response \<Rightarrow> (push_error, string \<times> int) result" where
  "oauth_answer lib resp =
     (let raw = take 16384 (pr_Body resp) in
      if length (pr_Body resp) < 16384 \<and> pr_BodyError resp \<noteq> None
      then Inl (OtherError (the (pr_BodyError resp)))
      else if pr_StatusCode resp < 200 \<or> 300 \<le> pr_StatusCode resp
      then Inl (OtherError (''FCM OAuth HTTP '' @ FormatInt (pr_StatusCode resp) @ '': '' @ TrimSpace raw))
      else
        case pl_DecodeOAuth lib raw of
          Inl e \<Rightarrow> Inl (OtherError (''decode FCM OAuth token: '' @ e))
        | Inr (accessToken, expiresIn) \<Rightarrow>
            if accessToken = '''' then Inl (OtherError ''FCM OAuth token response missing access_token'')
            else Inr (accessToken, if expiresIn \<le> 0 then 3600 else expiresIn))"

definition oauthToken ::
  "('k, 's) push_lib \<Rightarrow> 'k FCMProvider \<times> 's \<Rightarrow> (push_error, string, 'k FCMProvider \<times> 's) outcome" where
  "oauthToken lib ps =
     (let (p, s) = ps; now = pl_Now lib s in
      if fp_accessToken p \<noteq> '''' \<and> now + minute < fp_tokenExpiry p then (Inr (fp_accessToken p), (p, s))
      else
        case pl_Sign lib ''RS256'' []
               (JObject [(''aud'', JString (fp_tokenURI p)), (''exp'', JInt (unix_seconds (now + hour))),
                         (''iat'', JInt (unix_seconds now)), (''iss'', JString (fp_clientEmail p)),
                         (''scope'', JString ''https://www.googleapis.com/auth/firebase.messaging'')]) (fp_privateKey p) of
          Inl e \<Rightarrow> (Inl (OtherError (''sign FCM OAuth assertion: '' @ e)), (p, s))
        | Inr jws \<Rightarrow>
            let req = oauth_request p jws in
            case pl_NewRequest lib (pq_URL req) of
              Some e \<Rightarrow> (Inl (OtherError e), (p, s))
            | None \<Rightarrow>
                (case pl_Do lib req s of
                   (Inl e, s') \<Rightarrow> (Inl (OtherError e), (p, s'))
                 | (Inr resp, s') \<Rightarrow>
                     (case oauth_answer lib resp of
                        Inl e \<Rightarrow> (Inl e, (p, s'))
                      | Inr (token, expiresIn) \<Rightarrow>
                          (Inr token,
                           (p\<lparr>fp_accessToken := token,
                              fp_tokenExpiry := now + wrap64 (expiresIn * second)\<rparr>, s')))))"

definition fcm_body :: "eventPayload \<Rightarrow> Delivery \<Rightarrow> json" where
  "fcm_body payload d =
     JObject [(''message'', JObject
       [(''android'', JObject [(''collapse_key'', JString (dl_TransferID d)), (''priority'', JString ''HIGH'')]),
        (''data'', JObject [(''transferId'', JString (dl_TransferID d)), (''type'', JString (dl_EventType d))]),
        (''notification'', JObject [(''body'', JString (pushBody payload)), (''title'', JString ''PIXEL GO'')]),
        (''token'', JString (dl_PushToken d))])]"

definition fcm_request :: "'k FCMProvider \<Rightarrow> string \<Rightarrow> json \<Rightarrow> push_request" where
  "fcm_request p token body =
     \<lparr>pq_Method = ''POST'',
      pq_URL = rev (dropWhile (\<lambda>c. c = CHR ''/'') (rev (fp_baseURL p))) @ ''/v1/projects/'' @
        PathEscape (fp_projectID p) @ ''/messages:send'',
      pq_Header = header_Set (header_Set Map.empty ''Authorization'' (''Bearer '' @ token))
        ''Content-Type'' ''application/json'',
      pq_Body = JSONBody body\<rparr>"

definition fcm_Send ::
  "('k, 's) push_lib \<Rightarrow> Delivery \<Rightarrow> 'k FCMProvider \<times> 's \<Rightarrow> (push_error, unit, 'k FCMProvider \<times> 's) outcome"
where
  "fcm_Send lib d ps =
     (case oauthToken lib ps of
        (Inl e, ps') \<Rightarrow> (Inl e, ps')
      | (Inr token, (p', s)) \<Rightarrow>
          let body = fcm_body (pl_DecodePayload lib (dl_Payload d)) d;
              req = fcm_request p' token body in
          case pl_NewRequest lib (pq_URL req) of
            Some e \<Rightarrow> (Inl (OtherError e), (p', s))
          | None \<Rightarrow>
              (case pl_Do lib req s of
                 (Inl e, s') \<Rightarrow> (Inl (OtherError e), (p', s'))
               | (Inr resp, s') \<Rightarrow> (classify_response ''FCM'' {400, 403, 404} resp, (p', s'))))"

section \<open>The router\<close>

record 'k Router =
  rt_APNs :: "'k APNSProvider option"
  rt_FCM :: "'k FCMProvider option"

definition Configured :: "'k Router \<Rightarrow> bool" where
  "Configured r \<longleftrightarrow> rt_APNs r \<noteq> None \<or> rt_FCM r \<noteq> None"

definition router_Send ::
  "('k, 's) push_lib \<Rightarrow> Delivery \<Rightarrow> 'k Router \<times> 's \<Rightarrow> (push_error, unit, 'k Router \<times> 's) outcome" where
  "router_Send lib d rs =
     (let (r, s) = rs in
      if dl_PushToken d = '''' then (Inl (PermanentError ''device push token is empty''), rs)
      else if dl_Platform d = ''ios'' then
        (case rt_APNs r of
           None \<Rightarrow> (Inl ErrProviderUnavailable, rs)
         | Some p \<Rightarrow>
             let (q, (p', s')) = apns_Send lib d (p, s) in (q, (r\<lparr>rt_APNs := Some p'\<rparr>, s')))
      else if dl_Platform d = ''android'' then
        (case rt_FCM r of
           None \<Rightarrow> (Inl ErrProviderUnavailable, rs)
         | Some p \<Rightarrow>
             let (q, (p', s')) = fcm_Send lib d (p, s) in (q, (r\<lparr>rt_FCM := Some p'\<rparr>, s')))
      else (Inl (PermanentError (''unsupported push platform '' @ pl_Quote lib (dl_Platform d))), rs))"

end
