(* ===== verification/Worker.thy ===== *)
theory Worker
  imports Providers "HOL-Library.Monad_Syntax"
begin

text \<open>
  The push worker, \<^verbatim>\<open>notifications/worker.go\<close>: the delivery of one claimed notification with its retry policy,
  the loop that drains the outbox, and the sender that skips devices that are online. The repository and the
  sender act on a world that also holds the clock and the worker's context.
\<close>

section \<open>Interfaces\<close>

text \<open>
  Repository; the first argument of a call says whether the context it is given is already cancelled.
\<close>

record 's notification_repo =
  nr_Claim :: "bool \<Rightarrow> int \<Rightarrow> 's \<Rightarrow> (string, Delivery list, 's) outcome"
  nr_MarkSent :: "bool \<Rightarrow> int \<Rightarrow> 's \<Rightarrow> (string, unit, 's) outcome"
  nr_Retry :: "bool \<Rightarrow> int \<Rightarrow> string \<Rightarrow> instant \<Rightarrow> bool \<Rightarrow> 's \<Rightarrow> (string, unit, 's) outcome"

type_synonym 's push_sender = "Delivery \<Rightarrow> 's \<Rightarrow> (push_error, unit, 's) outcome"

definition OfflineOnlySender ::
  "(string \<Rightarrow> 's \<Rightarrow> (string, bool, 's) outcome) option \<Rightarrow> 's push_sender \<Rightarrow> 's push_sender" where
  "OfflineOnlySender presence nxt d s =
     (case presence of
        None \<Rightarrow> nxt d s
      | Some is_online \<Rightarrow>
          (case is_online (dl_DeviceID d) s of
             (Inl e, s') \<Rightarrow> nxt d s'
           | (Inr online, s') \<Rightarrow> if online then (Inr (), s') else nxt d s'))"

section \<open>The worker\<close>

record 's Worker =
  wk_repo :: "'s notification_repo"
  wk_sender :: "'s push_sender"
  wk_batchSize :: int
  wk_pollEvery :: duration
  wk_maxAttempts :: int
  wk_now :: "'s \<Rightarrow> instant"
  wk_cancelled :: "'s \<Rightarrow> bool"

definition NewWorker ::
  "'s notification_repo \<Rightarrow> 's push_sender \<Rightarrow> ('s \<Rightarrow> instant) \<Rightarrow> ('s \<Rightarrow> bool) \<Rightarrow> 's Worker" where
  "NewWorker repo sender now cancelled =
     \<lparr>wk_repo = repo, wk_sender = sender, wk_batchSize = 50, wk_pollEvery = second, wk_maxAttempts = 8,
      wk_now = now, wk_cancelled = cancelled\<rparr>"

datatype worker_log =
    ClaimFailed string
  | MarkSentFailed int string
  | RetryFailed int string
  | PushFailed Delivery int bool string

definition retryBackoff :: "int \<Rightarrow> duration" where
  "retryBackoff attempt =
     (let attempt = (if attempt < 1 then 1 else attempt);
          e = min (attempt - 1) 9;
          delay = 2 ^ nat e * second in
      if 5 * minute < delay then 5 * minute else delay)"

fun permanent :: "push_error \<Rightarrow> bool" where
  "permanent (PermanentError e) \<longleftrightarrow> True"
| "permanent _ \<longleftrightarrow> False"

definition push_final :: "int \<Rightarrow> push_error \<Rightarrow> int \<Rightarrow> bool" where
  "push_final maxAttempts e attempt \<longleftrightarrow> permanent e \<or> maxAttempts \<le> attempt"

definition deliver :: "'s Worker \<Rightarrow> Delivery \<Rightarrow> 's \<Rightarrow> worker_log list \<times> 's" where
  "deliver w d s =
     (case wk_sender w d s of
        (Inr _, s') \<Rightarrow>
          (case nr_MarkSent (wk_repo w) (wk_cancelled w s') (dl_ID d) s' of
             (Inl e, s'') \<Rightarrow> ([MarkSentFailed (dl_ID d) e], s'')
           | (Inr _, s'') \<Rightarrow> ([], s''))
      | (Inl err, s') \<Rightarrow>
          let attempt = dl_Attempts d + 1;
              final = push_final (wk_maxAttempts w) err attempt;
              backoff = (if wk_cancelled w s' then 0 else retryBackoff attempt) in
          case nr_Retry (wk_repo w) False (dl_ID d) (push_error_text err) (wk_now w s' + backoff) final s' of
            (Inl e, s'') \<Rightarrow> ([RetryFailed (dl_ID d) e], s'')
          | (Inr _, s'') \<Rightarrow> ([PushFailed d attempt final (push_error_text err)], s''))"

fun deliver_all :: "'s Worker \<Rightarrow> Delivery list \<Rightarrow> 's \<Rightarrow> worker_log list \<times> 's" where
  "deliver_all w [] s = ([], s)"
| "deliver_all w (d # ds) s =
     (let (l, s') = deliver w d s; (l', s'') = deliver_all w ds s' in (l @ l', s''))"

text \<open>The loop of drain has no bound of its own; None is a drain that does not return.\<close>

partial_function (option) drain :: "'s Worker \<Rightarrow> 's \<Rightarrow> (worker_log list \<times> 's) option" where
  "drain w s =
     (case nr_Claim (wk_repo w) (wk_cancelled w s) (wk_batchSize w) s of
        (Inl e, s') \<Rightarrow> Some ([ClaimFailed e], s')
      | (Inr ds, s') \<Rightarrow>
          if ds = [] then Some ([], s')
          else
            let (l, s'') = deliver_all w ds s' in
            if int (length ds) < wk_batchSize w then Some (l, s'')
            else do { (l', t) \<leftarrow> drain w s''; Some (l @ l', t) })"

text \<open>
  Run drains once and then after each tick, until the context is done. A wait changes the world in whatever
  way until the select returns.
\<close>

fun worker_Run :: "'s Worker \<Rightarrow> ('s \<Rightarrow> 's) list \<Rightarrow> 's \<Rightarrow> (worker_log list \<times> 's) option" where
  "worker_Run w [] s = drain w s"
| "worker_Run w (wait # waits) s =
     do { (l, s') \<leftarrow> drain w s;
          let s'' = wait s';
          if wk_cancelled w s'' then Some (l, s'')
          else do { (l', t) \<leftarrow> worker_Run w waits s''; Some (l @ l', t) } }"

end
