(* ===== verification/Outbox.thy ===== *)
theory Outbox
  imports Worker Redis
begin

text \<open>
  The notification outbox, \<^verbatim>\<open>notifications/postgres_repository.go\<close> with its table in
  \<^verbatim>\<open>platform/postgresdb/schema.sql\<close>: the rows, the statements as functions on them, and the repository on a
  database whose exchanges may fail. Each statement is one transaction.
\<close>

section \<open>Rows\<close>

record outbox_row =
  ob_id :: int
  ob_device_id :: string
  ob_transfer_id :: string
  ob_event_type :: string
  ob_payload :: string
  ob_attempts :: int
  ob_available_at :: instant
  ob_locked_at :: "instant option"
  ob_sent_at :: "instant option"
  ob_failed_at :: "instant option"
  ob_last_error :: "string option"

text \<open>The rows by ascending id, and the platform and push token of each device.\<close>

record outbox_db =
  od_rows :: "outbox_row list"
  od_devices :: "string \<rightharpoonup> string \<times> string option"

text \<open>A timestamptz keeps microseconds; left cuts a UTF-8 text after a number of characters.\<close>

definition pg_time :: "instant \<Rightarrow> instant" where
  "pg_time t = t div 1000 * 1000"

fun pg_left :: "nat \<Rightarrow> string \<Rightarrow> string" where
  "pg_left n [] = []"
| "pg_left n (c # cs) =
     (if cont_byte (of_char c) then c # pg_left n cs
      else case n of 0 \<Rightarrow> [] | Suc m \<Rightarrow> c # pg_left m cs)"

section \<open>Statements\<close>

definition claimable :: "instant \<Rightarrow> outbox_row \<Rightarrow> bool" where
  "claimable now r \<longleftrightarrow>
     ob_sent_at r = None \<and> ob_failed_at r = None \<and> ob_available_at r \<le> now \<and>
     (case ob_locked_at r of None \<Rightarrow> True | Some l \<Rightarrow> l < now - 5 * minute)"

definition row_delivery :: "outbox_db \<Rightarrow> outbox_row \<Rightarrow> Delivery option" where
  "row_delivery db r = map_option (\<lambda>(platform, push_token).
     \<lparr>dl_ID = ob_id r, dl_DeviceID = ob_device_id r, dl_TransferID = ob_transfer_id r,
      dl_EventType = ob_event_type r, dl_Platform = platform,
      dl_PushToken = (case push_token of None \<Rightarrow> '''' | Some t \<Rightarrow> t),
      dl_Payload = ob_payload r, dl_Attempts = ob_attempts r\<rparr>) (od_devices db (ob_device_id r))"

definition picked_rows :: "instant \<Rightarrow> int set \<Rightarrow> int \<Rightarrow> outbox_row list \<Rightarrow> outbox_row list" where
  "picked_rows now busy limit rows =
     take (nat limit) (filter (\<lambda>r. claimable now r \<and> ob_id r \<notin> busy) rows)"

text \<open>The rows other transactions have locked at that moment are skipped; they are an argument.\<close>

definition sql_Claim ::
  "instant \<Rightarrow> int set \<Rightarrow> int \<Rightarrow> outbox_db \<Rightarrow> (string, Delivery list, outbox_db) outcome" where
  "sql_Claim now busy limit db =
     (let picked = picked_rows now busy limit (od_rows db) in
      (Inr (List.map_filter (row_delivery db) picked),
       db\<lparr>od_rows := map (\<lambda>r. if ob_id r \<in> ob_id ` set picked then r\<lparr>ob_locked_at := Some now\<rparr> else r)
            (od_rows db)\<rparr>))"

definition update_row :: "int \<Rightarrow> (outbox_row \<Rightarrow> outbox_row) \<Rightarrow> outbox_db \<Rightarrow> outbox_db" where
  "update_row i f db = db\<lparr>od_rows := map (\<lambda>r. if ob_id r = i then f r else r) (od_rows db)\<rparr>"

definition sql_MarkSent :: "instant \<Rightarrow> int \<Rightarrow> outbox_db \<Rightarrow> (string, unit, outbox_db) outcome" where
  "sql_MarkSent now i db =
     (Inr (), update_row i (\<lambda>r. r\<lparr>ob_sent_at := Some now, ob_locked_at := None, ob_last_error := None\<rparr>) db)"

definition sql_Retry ::
  "instant \<Rightarrow> int \<Rightarrow> string \<Rightarrow> instant \<Rightarrow> bool \<Rightarrow> outbox_db \<Rightarrow> (string, unit, outbox_db) outcome" where
  "sql_Retry now i message availableAt final db =
     (Inr (),
      if final then
        update_row i (\<lambda>r. r\<lparr>ob_attempts := ob_attempts r + 1, ob_failed_at := Some now, ob_locked_at := None,
                            ob_last_error := Some (pg_left 2000 message)\<rparr>) db
      else
        update_row i (\<lambda>r. r\<lparr>ob_attempts := ob_attempts r + 1, ob_available_at := pg_time availableAt,
                            ob_locked_at := None, ob_last_error := Some (pg_left 2000 message)\<rparr>) db)"

text \<open>
  The trigger pixelgo_enqueue_transfer_ready_notification, for a transfer whose status has just become ready;
  the id and the payload's text are arguments.
\<close>

definition enqueue_ready :: "instant \<Rightarrow> int \<Rightarrow> string \<Rightarrow> string \<Rightarrow> string \<Rightarrow> outbox_db \<Rightarrow> outbox_db" where
  "enqueue_ready now i destination transferID payload db =
     (case od_devices db destination of
        Some (_, Some token) \<Rightarrow>
          if token = '''' \<or>
             (\<exists>r \<in> set (od_rows db). ob_device_id r = destination \<and> ob_transfer_id r = transferID \<and>
                ob_event_type r = ''transfer.ready'')
          then db
          else db\<lparr>od_rows := od_rows db @
            [\<lparr>ob_id = i, ob_device_id = destination, ob_transfer_id = transferID,
              ob_event_type = ''transfer.ready'', ob_payload = payload, ob_attempts = 0,
              ob_available_at = now, ob_locked_at = None, ob_sent_at = None, ob_failed_at = None,
              ob_last_error = None\<rparr>]\<rparr>
      | _ \<Rightarrow> db)"

section \<open>The repository\<close>

text \<open>
  What surrounds a call comes from the rest of the world: the database's clock, the fate of the exchange and
  the rows locked by others. With a context that is cancelled nothing is sent.
\<close>

record surroundings =
  su_now :: instant
  su_fault :: fault
  su_busy :: "int set"

definition db_call ::
  "('x \<Rightarrow> surroundings \<times> 'x) \<Rightarrow> bool \<Rightarrow> (surroundings \<Rightarrow> 'd \<Rightarrow> (string, 'a, 'd) outcome) \<Rightarrow>
   'd \<times> 'x \<Rightarrow> (string, 'a, 'd \<times> 'x) outcome" where
  "db_call env cancelled stmt w =
     (let (db, x) = w in
      if cancelled then (Inl ''context canceled'', w)
      else
        let (su, x') = env x; (q, db') = exchange (su_fault su) (stmt su) db in (q, (db', x')))"

definition pn_Claim ::
  "('x \<Rightarrow> surroundings \<times> 'x) \<Rightarrow> bool \<Rightarrow> int \<Rightarrow> outbox_db \<times> 'x \<Rightarrow>
   (string, Delivery list, outbox_db \<times> 'x) outcome" where
  "pn_Claim env cancelled limit =
     (let limit = (if limit \<le> 0 then 50 else limit) in
      db_call env cancelled (\<lambda>su. sql_Claim (su_now su) (su_busy su) limit))"

definition pn_MarkSent ::
  "('x \<Rightarrow> surroundings \<times> 'x) \<Rightarrow> bool \<Rightarrow> int \<Rightarrow> outbox_db \<times> 'x \<Rightarrow> (string, unit, outbox_db \<times> 'x) outcome"
where
  "pn_MarkSent env cancelled i = db_call env cancelled (\<lambda>su. sql_MarkSent (su_now su) i)"

definition pn_Retry ::
  "('x \<Rightarrow> surroundings \<times> 'x) \<Rightarrow> bool \<Rightarrow> int \<Rightarrow> string \<Rightarrow> instant \<Rightarrow> bool \<Rightarrow> outbox_db \<times> 'x \<Rightarrow>
   (string, unit, outbox_db \<times> 'x) outcome" where
  "pn_Retry env cancelled i message availableAt final =
     db_call env cancelled (\<lambda>su. sql_Retry (su_now su) i message availableAt final)"

definition pg_notifications :: "('x \<Rightarrow> surroundings \<times> 'x) \<Rightarrow> (outbox_db \<times> 'x) notification_repo" where
  "pg_notifications env =
     \<lparr>nr_Claim = pn_Claim env, nr_MarkSent = pn_MarkSent env, nr_Retry = pn_Retry env\<rparr>"

end
