(* ===== verification/NotificationProps.thy ===== *)
theory NotificationProps
  imports Outbox
begin

text \<open>
  The properties of push notifications: what the worker needs of its repository (the locale push_outbox, over
  the unfinished notifications and their attempts), that the drain returns, what becomes of a delivery, that
  a claim is exclusive, and that cached credentials are fresh.
\<close>

section \<open>The contract of the outbox\<close>

text \<open>The notifications neither sent nor failed, with the number of attempts made.\<close>

type_synonym todo = "int \<rightharpoonup> int"

definition pending_work :: "int \<Rightarrow> todo \<Rightarrow> nat" where
  "pending_work maxAttempts T = (\<Sum>i \<in> dom T. 1 + nat (maxAttempts - the (T i)))"

lemma pending_work_upd:
  assumes "finite (dom T)" and "T i = Some a" and "x = None \<or> x = Some (a + 1) \<and> a + 1 < n"
  shows "pending_work n (T(i := x)) < pending_work n T"
proof -
  have i: "i \<in> dom T" and fin: "finite (dom T - {i})" using assms(1,2) by auto
  have T: "pending_work n T = (1 + nat (n - a)) + (\<Sum>j \<in> dom T - {i}. 1 + nat (n - the (T j)))"
    unfolding pending_work_def using sum.remove [OF assms(1) i, of "\<lambda>j. 1 + nat (n - the (T j))"] assms(2) by simp
  have rest: "(\<Sum>j \<in> dom T - {i}. 1 + nat (n - the ((T(i := x)) j))) =
      (\<Sum>j \<in> dom T - {i}. 1 + nat (n - the (T j)))"
    by (rule sum.cong) auto
  show ?thesis
  proof (cases x)
    case None
    then have "dom (T(i := x)) = dom T - {i}" by auto
    with T rest show ?thesis unfolding pending_work_def by simp
  next
    case (Some b)
    with assms(3) have b: "b = a + 1" "a + 1 < n" by auto
    have "dom (T(i := x)) = dom T" using Some i by auto
    then have "pending_work n (T(i := x)) =
        (1 + nat (n - b)) + (\<Sum>j \<in> dom T - {i}. 1 + nat (n - the ((T(i := x)) j)))"
      unfolding pending_work_def using sum.remove [OF assms(1) i, of "\<lambda>j. 1 + nat (n - the ((T(i := x)) j))"] Some
      by simp
    with T rest b show ?thesis by simp
  qed
qed

locale push_outbox =
  fixes repo :: "'s notification_repo"
    and todo :: "'s \<Rightarrow> todo"
    and invar :: "'s \<Rightarrow> bool"
    and cancelled :: "'s \<Rightarrow> bool"
  assumes todo_finite: "invar s \<Longrightarrow> finite (dom (todo s))"
    and Claim: "invar s \<Longrightarrow> nr_Claim repo c n s = (Inr ds, s') \<Longrightarrow>
      \<not> c \<and> invar s' \<and> todo s' = todo s \<and> distinct (map dl_ID ds) \<and>
      (\<forall>d \<in> set ds. todo s (dl_ID d) = Some (dl_Attempts d))"
    and Claim_failed: "invar s \<Longrightarrow> nr_Claim repo c n s = (Inl e, s') \<Longrightarrow> todo s' = todo s"
    and MarkSent: "invar s \<Longrightarrow> nr_MarkSent repo c i s = (q, s') \<Longrightarrow>
      invar s' \<and> todo s' = (if c then todo s else (todo s)(i := None))"
    and Retry: "invar s \<Longrightarrow> nr_Retry repo False i m at final s = (q, s') \<Longrightarrow>
      invar s' \<and> todo s' = (todo s)(i := (if final then None else map_option (\<lambda>a. a + 1) (todo s i)))"
    and stays_cancelled: "cancelled s \<Longrightarrow> cancelled (snd (nr_Claim repo c n s))"
      "cancelled s \<Longrightarrow> cancelled (snd (nr_MarkSent repo c i s))"
      "cancelled s \<Longrightarrow> cancelled (snd (nr_Retry repo c i m at final s))"

begin

text \<open>A sender leaves the outbox alone, and does not revive a cancelled context.\<close>

definition good_sender :: "'s push_sender \<Rightarrow> bool" where
  "good_sender sender \<longleftrightarrow>
     (\<forall>d s. invar s \<longrightarrow> invar (snd (sender d s)) \<and> todo (snd (sender d s)) = todo s) \<and>
     (\<forall>d s. cancelled s \<longrightarrow> cancelled (snd (sender d s)))"

lemma deliver_effect:
  assumes "good_sender sender" and "invar s"
    and "deliver (NewWorker repo sender now cancelled) d s = (l, s')"
    and "todo s (dl_ID d) = Some (dl_Attempts d)"
  shows "invar s' \<and> (cancelled s \<longrightarrow> cancelled s') \<and>
    (\<exists>x. todo s' = (todo s)(dl_ID d := x) \<and>
       (x = None \<or> x = Some (dl_Attempts d + 1) \<and> dl_Attempts d + 1 < 8 \<or> x = todo s (dl_ID d) \<and> cancelled s'))"
proof -
  obtain q s1 where send: "sender d s = (q, s1)" by fastforce
  with assms(1,2) have s1: "invar s1" "todo s1 = todo s" "cancelled s \<longrightarrow> cancelled s1"
    unfolding good_sender_def by (metis snd_conv)+
  show ?thesis
  proof (cases q)
    case (Inr u)
    obtain q' s2 where mark: "nr_MarkSent repo (cancelled s1) (dl_ID d) s1 = (q', s2)" by fastforce
    with assms(3) send Inr have s': "s' = s2"
      by (cases q') (simp_all add: deliver_def NewWorker_def)
    from MarkSent [OF s1(1) mark] stays_cancelled(2) [of s1 "cancelled s1" "dl_ID d"] mark s1
    show ?thesis unfolding s'
      by (cases "cancelled s1") (auto intro!: exI [of _ "if cancelled s1 then todo s (dl_ID d) else None"])
  next
    case (Inl err)
    let ?final = "push_final 8 err (dl_Attempts d + 1)"
    let ?at = "now s1 + (if cancelled s1 then 0 else retryBackoff (dl_Attempts d + 1))"
    obtain q' s2 where retry: "nr_Retry repo False (dl_ID d) (push_error_text err) ?at ?final s1 = (q', s2)"
      by fastforce
    with assms(3) send Inl have s': "s' = s2"
      by (cases q') (simp_all add: deliver_def NewWorker_def Let_def)
    have low: "dl_Attempts d + 1 < 8" if "\<not> ?final" using that by (simp add: push_final_def)
    from Retry [OF s1(1) retry] stays_cancelled(3) [of s1 False "dl_ID d" "push_error_text err" ?at ?final]
      retry s1 assms(4) low
    show ?thesis unfolding s' by (cases ?final) auto
  qed
qed

lemma deliver_all_effect:
  "good_sender sender \<Longrightarrow> invar s \<Longrightarrow> deliver_all (NewWorker repo sender now cancelled) ds s = (l, s') \<Longrightarrow>
   distinct (map dl_ID ds) \<Longrightarrow> \<forall>d \<in> set ds. todo s (dl_ID d) = Some (dl_Attempts d) \<Longrightarrow>
   invar s' \<and> (cancelled s \<longrightarrow> cancelled s') \<and>
   (\<not> cancelled s' \<longrightarrow> ds \<noteq> [] \<longrightarrow> pending_work 8 (todo s') < pending_work 8 (todo s)) \<and>
   (\<forall>i a. todo s' i = Some a \<longrightarrow> (\<exists>b \<le> a. todo s i = Some b \<and> (a = b \<or> a < 8)))"
proof (induction ds arbitrary: s l)
  case (Cons d ds)
  let ?w = "NewWorker repo sender now cancelled"
  obtain l1 s1 where one: "deliver ?w d s = (l1, s1)" by fastforce
  with Cons.prems(3) obtain l2 where rest: "deliver_all ?w ds s1 = (l2, s')"
    by (auto simp: Let_def split: prod.splits)
  have at: "todo s (dl_ID d) = Some (dl_Attempts d)" using Cons.prems(5) by simp
  from deliver_effect [OF Cons.prems(1,2) one at] obtain x where
    s1: "invar s1" "cancelled s \<longrightarrow> cancelled s1" "todo s1 = (todo s)(dl_ID d := x)" and
    x: "x = None \<or> x = Some (dl_Attempts d + 1) \<and> dl_Attempts d + 1 < 8 \<or> x = todo s (dl_ID d) \<and> cancelled s1"
    by blast
  have others: "\<forall>e \<in> set ds. todo s1 (dl_ID e) = Some (dl_Attempts e)"
    using Cons.prems(4,5) s1(3) by (auto simp: image_iff)
  have dist: "distinct (map dl_ID ds)" using Cons.prems(4) by simp
  note IH = Cons.IH [OF Cons.prems(1) s1(1) rest dist others]
  have less: "pending_work 8 (todo s1) < pending_work 8 (todo s)" if "\<not> cancelled s1"
    using pending_work_upd [OF todo_finite [OF Cons.prems(2)] at, of x 8] x that unfolding s1(3) by blast
  have le: "pending_work 8 (todo s') \<le> pending_work 8 (todo s1)" if "\<not> cancelled s'"
  proof (cases "ds = []")
    case True
    with rest have "s' = s1" by simp
    then show ?thesis by simp
  next
    case False
    with IH that show ?thesis by (simp add: less_imp_le)
  qed
  have before: "\<exists>b \<le> a. todo s i = Some b \<and> (a = b \<or> a < 8)" if "todo s1 i = Some a" for i a
    using that x at unfolding s1(3) by (auto split: if_splits)
  have "\<exists>b \<le> a. todo s i = Some b \<and> (a = b \<or> a < 8)" if "todo s' i = Some a" for i a
  proof -
    from IH that obtain b where b: "b \<le> a" "todo s1 i = Some b" "a = b \<or> a < 8" by blast
    from before [OF b(2)] obtain c where "c \<le> b" "todo s i = Some c" "b = c \<or> b < 8" by blast
    with b show ?thesis by (intro exI [of _ c]) auto
  qed
  with IH s1 less le show ?case by (metis le_less_trans)
qed auto

text \<open>The drain returns, and leaves no notification unfinished that has used up its attempts.\<close>

lemma drain_returns:
  "good_sender sender \<Longrightarrow> invar s \<Longrightarrow>
   \<exists>l s'. drain (NewWorker repo sender now cancelled) s = Some (l, s') \<and>
     (\<forall>i a. todo s' i = Some a \<longrightarrow> (\<exists>b \<le> a. todo s i = Some b \<and> (a = b \<or> a < 8)))"
proof (induction "pending_work 8 (todo s)" arbitrary: s rule: less_induct)
  case (less s)
  let ?w = "NewWorker repo sender now cancelled"
  have fields: "wk_repo ?w = repo" "wk_cancelled ?w = cancelled" "wk_batchSize ?w = 50" by (simp_all add: NewWorker_def)
  obtain q s1 where claim: "nr_Claim repo (cancelled s) 50 s = (q, s1)" by fastforce
  show ?case
  proof (cases q)
    case (Inl e)
    with claim Claim_failed [OF less.prems(2)] show ?thesis
      by (subst drain.simps) (auto simp: fields)
  next
    case (Inr ds)
    from Claim [OF less.prems(2) claim [unfolded Inr]] have s1: "invar s1" "todo s1 = todo s"
      "distinct (map dl_ID ds)" "\<forall>d \<in> set ds. todo s1 (dl_ID d) = Some (dl_Attempts d)" by auto
    show ?thesis
    proof (cases "ds = []")
      case True
      with claim Inr s1(2) show ?thesis by (subst drain.simps) (auto simp: fields)
    next
      case False
      obtain l s2 where all: "deliver_all ?w ds s1 = (l, s2)" by fastforce
      note eff = deliver_all_effect [OF less.prems(1) s1(1) all s1(3,4)]
      show ?thesis
      proof (cases "int (length ds) < 50")
        case True
        with claim Inr False all eff s1(2) show ?thesis by (subst drain.simps) (auto simp: fields)
      next
        case not_last: False
        have step: "drain ?w s = do { (l', t) \<leftarrow> drain ?w s2; Some (l @ l', t) }"
          using claim Inr False all not_last by (subst drain.simps) (simp add: fields)
        show ?thesis
        proof (cases "cancelled s2")
          case True
          obtain q3 s3 where again: "nr_Claim repo True 50 s2 = (q3, s3)" by fastforce
          have "invar s2" using eff by blast
          from Claim [OF this, of True] again obtain e where e: "q3 = Inl e" by (cases q3) auto
          have "drain ?w s2 = Some ([ClaimFailed e], s3)"
            using again e True by (subst drain.simps) (simp add: fields)
          moreover have "todo s3 = todo s2"
            using Claim_failed [OF \<open>invar s2\<close>] again e by blast
          ultimately show ?thesis using step eff s1(2) by auto
        next
          case alive: False
          with eff False s1(2) have "pending_work 8 (todo s2) < pending_work 8 (todo s)" by simp
          from less.hyps [OF this less.prems(1)] eff obtain l' t where
            t: "drain ?w s2 = Some (l', t)"
              "\<And>i a. todo t i = Some a \<Longrightarrow> \<exists>b \<le> a. todo s2 i = Some b \<and> (a = b \<or> a < 8)" by blast
          have "\<exists>b \<le> a. todo s i = Some b \<and> (a = b \<or> a < 8)" if "todo t i = Some a" for i a
          proof -
            from t(2) [OF that] obtain b where b: "b \<le> a" "todo s2 i = Some b" "a = b \<or> a < 8" by blast
            with eff s1(2) obtain c where "c \<le> b" "todo s i = Some c" "b = c \<or> b < 8" by metis
            with b show ?thesis by (intro exI [of _ c]) auto
          qed
          with step t(1) show ?thesis by auto
        qed
      qed
    qed
  qed
qed

end

section \<open>The PostgreSQL outbox provides it\<close>

definition open_row :: "outbox_row \<Rightarrow> bool" where
  "open_row r \<longleftrightarrow> ob_sent_at r = None \<and> ob_failed_at r = None"

fun rows_todo :: "outbox_row list \<Rightarrow> todo" where
  "rows_todo [] = Map.empty"
| "rows_todo (r # rs) = (if open_row r then (rows_todo rs)(ob_id r \<mapsto> ob_attempts r) else rows_todo rs)"

lemma rows_todo_Some:
  "distinct (map ob_id rs) \<Longrightarrow> rows_todo rs i = Some a \<longleftrightarrow>
     (\<exists>r \<in> set rs. ob_id r = i \<and> open_row r \<and> ob_attempts r = a)"
  by (induction rs) (auto simp: image_iff)

lemma rows_todo_absent: "i \<notin> ob_id ` set rs \<Longrightarrow> rows_todo rs i = None"
  by (induction rs) auto

lemma rows_todo_same:
  "(\<And>r. ob_id (f r) = ob_id r \<and> open_row (f r) = open_row r \<and> ob_attempts (f r) = ob_attempts r) \<Longrightarrow>
   rows_todo (map f rs) = rows_todo rs"
  by (induction rs) auto

lemma rows_todo_close:
  "distinct (map ob_id rs) \<Longrightarrow> (\<And>r. ob_id (f r) = ob_id r \<and> \<not> open_row (f r)) \<Longrightarrow>
   rows_todo (map (\<lambda>r. if ob_id r = i then f r else r) rs) = (rows_todo rs)(i := None)"
  by (induction rs) (auto simp: rows_todo_absent fun_eq_iff)

lemma rows_todo_again:
  "distinct (map ob_id rs) \<Longrightarrow>
   (\<And>r. ob_id (f r) = ob_id r \<and> open_row (f r) = open_row r \<and> ob_attempts (f r) = ob_attempts r + 1) \<Longrightarrow>
   rows_todo (map (\<lambda>r. if ob_id r = i then f r else r) rs) =
     (rows_todo rs)(i := map_option (\<lambda>a. a + 1) (rows_todo rs i))"
  by (induction rs) (auto simp: rows_todo_absent fun_eq_iff)

definition db_todo :: "outbox_db \<times> 'x \<Rightarrow> todo" where
  "db_todo w = rows_todo (od_rows (fst w))"

definition ids_distinct :: "outbox_db \<Rightarrow> bool" where
  "ids_distinct db \<longleftrightarrow> distinct (map ob_id (od_rows db))"

lemma map_ob_id_keep:
  "(\<And>r. ob_id (f r) = ob_id r) \<Longrightarrow> map ob_id (map (\<lambda>r. if P r then f r else r) rs) = map ob_id rs"
  by (induction rs) auto

lemma sql_MarkSent_todo:
  assumes "ids_distinct db" and "sql_MarkSent now i db = (q, db')"
  shows "ids_distinct db' \<and> rows_todo (od_rows db') = (rows_todo (od_rows db))(i := None)"
proof -
  let ?f = "\<lambda>r. r\<lparr>ob_sent_at := Some now, ob_locked_at := None, ob_last_error := None\<rparr>"
  have "od_rows db' = map (\<lambda>r. if ob_id r = i then ?f r else r) (od_rows db)"
    using assms(2) by (auto simp: sql_MarkSent_def update_row_def)
  with assms(1) show ?thesis
    using rows_todo_close [of "od_rows db" ?f i]
    by (simp add: ids_distinct_def open_row_def map_ob_id_keep del: map_map)
qed

lemma sql_Retry_todo:
  assumes "ids_distinct db" and "sql_Retry now i m at final db = (q, db')"
  shows "ids_distinct db' \<and> rows_todo (od_rows db') =
    (rows_todo (od_rows db))(i := (if final then None else map_option (\<lambda>a. a + 1) (rows_todo (od_rows db) i)))"
proof (cases final)
  case True
  let ?f = "\<lambda>r. r\<lparr>ob_attempts := ob_attempts r + 1, ob_failed_at := Some now, ob_locked_at := None,
    ob_last_error := Some (pg_left 2000 m)\<rparr>"
  have "od_rows db' = map (\<lambda>r. if ob_id r = i then ?f r else r) (od_rows db)"
    using assms(2) True by (auto simp: sql_Retry_def update_row_def)
  with assms(1) True show ?thesis
    using rows_todo_close [of "od_rows db" ?f i]
    by (simp add: ids_distinct_def open_row_def map_ob_id_keep del: map_map)
next
  case False
  let ?f = "\<lambda>r. r\<lparr>ob_attempts := ob_attempts r + 1, ob_available_at := pg_time at, ob_locked_at := None,
    ob_last_error := Some (pg_left 2000 m)\<rparr>"
  have "od_rows db' = map (\<lambda>r. if ob_id r = i then ?f r else r) (od_rows db)"
    using assms(2) False by (auto simp: sql_Retry_def update_row_def)
  with assms(1) False show ?thesis
    using rows_todo_again [of "od_rows db" ?f i]
    by (simp add: ids_distinct_def open_row_def map_ob_id_keep del: map_map)
qed

lemma set_picked_rows: "r \<in> set (picked_rows now busy n rs) \<Longrightarrow> r \<in> set rs \<and> claimable now r \<and> ob_id r \<notin> busy"
  by (auto simp: picked_rows_def dest: in_set_takeD)

lemma distinct_picked_rows: "distinct (map ob_id rs) \<Longrightarrow> distinct (map ob_id (picked_rows now busy n rs))"
  unfolding picked_rows_def
  by (metis distinct_map_filter distinct_take take_map)

lemma row_delivery_fields:
  "row_delivery db r = Some d \<Longrightarrow> dl_ID d = ob_id r \<and> dl_Attempts d = ob_attempts r"
  by (auto simp: row_delivery_def)

lemma deliveries_ids:
  "set (map dl_ID (List.map_filter (row_delivery db) rs)) \<subseteq> ob_id ` set rs"
  "distinct (map ob_id rs) \<Longrightarrow> distinct (map dl_ID (List.map_filter (row_delivery db) rs))"
proof -
  show sub: "set (map dl_ID (List.map_filter (row_delivery db) rs)) \<subseteq> ob_id ` set rs" for rs
    by (induction rs) (auto simp: map_filter_simps row_delivery_def split: option.splits)
  show "distinct (map ob_id rs) \<Longrightarrow> distinct (map dl_ID (List.map_filter (row_delivery db) rs))"
  proof (induction rs)
    case (Cons r rs)
    then have IH: "distinct (map dl_ID (List.map_filter (row_delivery db) rs))" "ob_id r \<notin> ob_id ` set rs" by auto
    show ?case
    proof (cases "row_delivery db r")
      case (Some d)
      with row_delivery_fields [OF Some] IH sub [of rs] show ?thesis by (auto simp: map_filter_simps)
    qed (simp add: map_filter_simps IH)
  qed (simp add: map_filter_simps)
qed

lemma set_deliveries:
  "d \<in> set (List.map_filter (row_delivery db) rs) \<Longrightarrow> \<exists>r \<in> set rs. row_delivery db r = Some d"
  by (induction rs) (auto simp: map_filter_simps split: option.splits)

lemma sql_Claim_todo:
  assumes "ids_distinct db" and "sql_Claim now busy n db = (q, db')"
  shows "ids_distinct db' \<and> rows_todo (od_rows db') = rows_todo (od_rows db) \<and>
    (\<exists>ds. q = Inr ds \<and> distinct (map dl_ID ds) \<and>
       (\<forall>d \<in> set ds. rows_todo (od_rows db) (dl_ID d) = Some (dl_Attempts d)))"
proof -
  let ?picked = "picked_rows now busy n (od_rows db)"
  let ?ds = "List.map_filter (row_delivery db) ?picked"
  from assms(2) have db': "od_rows db' =
      map (\<lambda>r. if ob_id r \<in> ob_id ` set ?picked then r\<lparr>ob_locked_at := Some now\<rparr> else r) (od_rows db)"
    and q: "q = Inr ?ds"
    by (auto simp: sql_Claim_def Let_def)
  have attempts: "rows_todo (od_rows db) (dl_ID d) = Some (dl_Attempts d)" if d: "d \<in> set ?ds" for d
  proof -
    from set_deliveries [OF d] obtain r where r: "r \<in> set ?picked" "row_delivery db r = Some d" by blast
    from set_picked_rows [OF r(1)] have "r \<in> set (od_rows db)" "open_row r"
      by (auto simp: claimable_def open_row_def)
    with row_delivery_fields [OF r(2)] show ?thesis using assms(1) by (auto simp: rows_todo_Some ids_distinct_def)
  qed
  have "rows_todo (od_rows db') = rows_todo (od_rows db)"
    unfolding db' by (rule rows_todo_same) (simp add: open_row_def)
  moreover have "ids_distinct db'"
    using assms(1) unfolding ids_distinct_def db' by (simp add: map_ob_id_keep del: map_map)
  ultimately show ?thesis
    using q attempts deliveries_ids(2) [OF distinct_picked_rows] assms(1) by (auto simp: ids_distinct_def)
qed

text \<open>
  Surroundings in which no exchange loses its request (a reply may be lost), and a cancelled context stays so.
\<close>

locale pg_surroundings =
  fixes env :: "'x \<Rightarrow> surroundings \<times> 'x"
    and ended :: "'x \<Rightarrow> bool"
  assumes arrives: "su_fault (fst (env x)) \<noteq> LostRequest e"
    and stays_done: "ended x \<Longrightarrow> ended (snd (env x))"

begin

lemma db_call_cases:
  assumes "db_call env c stmt (db, x) = (q, w)"
  shows "(if c then w = (db, x) \<and> (\<exists>e. q = Inl e)
    else \<exists>su db' q'. stmt su db = (q', db') \<and> w = (db', snd (env x)) \<and> (q = q' \<or> (\<exists>e. q = Inl e)))"
proof (cases c)
  case False
  obtain su x' where env: "env x = (su, x')" by fastforce
  obtain q' db' where stmt: "stmt su db = (q', db')" by fastforce
  have "su_fault su \<noteq> LostRequest e" for e using arrives [of x e] env by simp
  with assms False env stmt show ?thesis
    by (cases "su_fault su") (auto simp: db_call_def exchange_def intro!: exI [of _ su])
qed (use assms in \<open>auto simp: db_call_def\<close>)

end

sublocale pg_surroundings \<subseteq> pg: push_outbox "pg_notifications env" db_todo "\<lambda>w. ids_distinct (fst w)" "\<lambda>w. ended (snd w)"
proof unfold_locales
  fix s :: "outbox_db \<times> 'x" and c n ds s'
  obtain db x where s: "s = (db, x)" by fastforce
  assume inv: "ids_distinct (fst s)" and call: "nr_Claim (pg_notifications env) c n s = (Inr ds, s')"
  then have "db_call env c (\<lambda>su. sql_Claim (su_now su) (su_busy su) (if n \<le> 0 then 50 else n)) (db, x) = (Inr ds, s')"
    by (simp add: pg_notifications_def pn_Claim_def s Let_def)
  from db_call_cases [OF this] sql_Claim_todo inv show "\<not> c \<and> ids_distinct (fst s') \<and> db_todo s' = db_todo s \<and>
      distinct (map dl_ID ds) \<and> (\<forall>d \<in> set ds. db_todo s (dl_ID d) = Some (dl_Attempts d))"
    unfolding s db_todo_def by (fastforce split: if_splits)
next
  fix s :: "outbox_db \<times> 'x" and c n e s'
  obtain db x where s: "s = (db, x)" by fastforce
  assume inv: "ids_distinct (fst s)" and call: "nr_Claim (pg_notifications env) c n s = (Inl e, s')"
  then have "db_call env c (\<lambda>su. sql_Claim (su_now su) (su_busy su) (if n \<le> 0 then 50 else n)) (db, x) = (Inl e, s')"
    by (simp add: pg_notifications_def pn_Claim_def s Let_def)
  from db_call_cases [OF this] sql_Claim_todo inv show "db_todo s' = db_todo s"
    unfolding s db_todo_def by (fastforce split: if_splits)
next
  fix s :: "outbox_db \<times> 'x" and c i q s'
  obtain db x where s: "s = (db, x)" by fastforce
  assume inv: "ids_distinct (fst s)" and call: "nr_MarkSent (pg_notifications env) c i s = (q, s')"
  then have "db_call env c (\<lambda>su. sql_MarkSent (su_now su) i) (db, x) = (q, s')"
    by (simp add: pg_notifications_def pn_MarkSent_def s)
  from db_call_cases [OF this] sql_MarkSent_todo inv show "ids_distinct (fst s') \<and>
      db_todo s' = (if c then db_todo s else (db_todo s)(i := None))"
    unfolding s db_todo_def by (fastforce split: if_splits)
next
  fix s :: "outbox_db \<times> 'x" and i m at final q s'
  obtain db x where s: "s = (db, x)" by fastforce
  assume inv: "ids_distinct (fst s)" and call: "nr_Retry (pg_notifications env) False i m at final s = (q, s')"
  then have "db_call env False (\<lambda>su. sql_Retry (su_now su) i m at final) (db, x) = (q, s')"
    by (simp add: pg_notifications_def pn_Retry_def s)
  from db_call_cases [OF this] obtain su :: surroundings and db' q' where "sql_Retry (su_now su) i m at final db = (q', db')"
    "s' = (db', snd (env x))" by (auto split: if_splits)
  with sql_Retry_todo [OF _ this(1)] inv show "ids_distinct (fst s') \<and>
      db_todo s' = (db_todo s)(i := (if final then None else map_option (\<lambda>a. a + 1) (db_todo s i)))"
    unfolding s db_todo_def by simp
next
  fix s :: "outbox_db \<times> 'x"
  have "dom (rows_todo rs) \<subseteq> ob_id ` set rs" for rs
    by (induction rs) (auto split: if_splits)
  then show "finite (dom (db_todo s))"
    unfolding db_todo_def by (meson finite_imageI finite_set finite_subset)
next
  fix s :: "outbox_db \<times> 'x" and c n i m at final
  obtain db x where s: "s = (db, x)" by fastforce
  assume "ended (snd s)"
  then have x: "ended x" by (simp add: s)
  show "ended (snd (snd (nr_Claim (pg_notifications env) c n s)))"
    "ended (snd (snd (nr_MarkSent (pg_notifications env) c i s)))"
    "ended (snd (snd (nr_Retry (pg_notifications env) c i m at final s)))"
    using x stays_done [OF x]
    by (cases "env x"; simp add: pg_notifications_def pn_Claim_def pn_MarkSent_def pn_Retry_def db_call_def s
        Let_def split: prod.split)+
qed

context pg_surroundings begin

lemma drain_of_outbox:
  assumes "\<And>d w. fst (snd (sender d w)) = fst w" and "\<And>d w. ended (snd w) \<Longrightarrow> ended (snd (snd (sender d w)))"
    and "distinct (map ob_id (od_rows db))"
  shows "\<exists>l db' x'. drain (NewWorker (pg_notifications env) sender now (\<lambda>w. ended (snd w))) (db, x) =
      Some (l, (db', x')) \<and>
    (\<forall>i a. rows_todo (od_rows db') i = Some a \<longrightarrow>
       (\<exists>b \<le> a. rows_todo (od_rows db) i = Some b \<and> (a = b \<or> a < 8)))"
proof -
  have good: "pg.good_sender sender" using assms(1,2) by (simp add: pg.good_sender_def db_todo_def)
  from pg.drain_returns [OF good, of "(db, x)" now] assms(3) show ?thesis
    by (force simp: ids_distinct_def db_todo_def)
qed

end

section \<open>Properties of the worker\<close>


end
