(* ===== verification/OutboxClaims.thy ===== *)
theory OutboxClaims
  imports NotificationProps
begin

text \<open>
  The statements of any number of push workers on one outbox, as a sequence of labelled steps: who may hold a
  notification, and for how long.
\<close>

section \<open>Steps\<close>

datatype outbox_event = EClaim "int list" | EMark int | ERetry int bool | EOther

text \<open>
  One statement on the outbox at a time: a worker's statement, or the insertion of a new notification or a
  change of the devices.
\<close>

inductive outbox_step :: "outbox_db \<Rightarrow> instant \<times> outbox_event \<Rightarrow> outbox_db \<Rightarrow> bool" where
  oclaim: "sql_Claim now busy n db = (Inr ds, db') \<Longrightarrow> outbox_step db (now, EClaim (map dl_ID ds)) db'"
| omark: "sql_MarkSent now i db = (q, db') \<Longrightarrow> outbox_step db (now, EMark i) db'"
| oretry: "sql_Retry now i m at final db = (q, db') \<Longrightarrow> outbox_step db (now, ERetry i final) db'"
| oenqueue: "i \<notin> ob_id ` set (od_rows db) \<Longrightarrow> db' = enqueue_ready now i device transfer payload db \<Longrightarrow>
    outbox_step db (now, EOther) db'"
| odevices: "outbox_step db (now, EOther) (db\<lparr>od_devices := devices\<rparr>)"

inductive outbox_run :: "outbox_db \<Rightarrow> (instant \<times> outbox_event) list \<Rightarrow> outbox_db \<Rightarrow> bool" where
  run_nil: "outbox_run db [] db"
| run_cons: "outbox_step db e db1 \<Longrightarrow> outbox_run db1 es db2 \<Longrightarrow> outbox_run db (e # es) db2"

inductive_cases outbox_runE: "outbox_run db (e # es) db2"

lemma outbox_run_append:
  "outbox_run db (xs @ ys) db2 \<Longrightarrow> \<exists>db1. outbox_run db xs db1 \<and> outbox_run db1 ys db2"
proof (induction xs arbitrary: db)
  case (Cons x xs)
  from Cons.prems obtain m where "outbox_step db x m" "outbox_run m (xs @ ys) db2"
    by (auto elim: outbox_runE)
  with Cons.IH show ?case by (blast intro: run_cons)
qed (auto intro: run_nil)

section \<open>What a step does to a row\<close>

text \<open>
  A notification with the id is there, and its row satisfies a predicate; every step keeps the predicate when
  each way of changing the row does.
\<close>

definition row_is :: "int \<Rightarrow> (outbox_row \<Rightarrow> bool) \<Rightarrow> outbox_db \<Rightarrow> bool" where
  "row_is i P db \<longleftrightarrow> i \<in> ob_id ` set (od_rows db) \<and> (\<forall>r \<in> set (od_rows db). ob_id r = i \<longrightarrow> P r)"

lemma row_isI:
  assumes "i \<in> ob_id ` set (od_rows db)" and "od_rows db' = map f (od_rows db)"
    and "\<And>r. ob_id (f r) = ob_id r" and "\<And>r. r \<in> set (od_rows db) \<Longrightarrow> ob_id r = i \<Longrightarrow> P (f r)"
  shows "row_is i P db'"
  using assms by (fastforce simp: row_is_def image_iff)

lemma row_is_map:
  assumes "row_is i P db" and "od_rows db' = map f (od_rows db)"
    and "\<And>r. ob_id (f r) = ob_id r" and "\<And>r. r \<in> set (od_rows db) \<Longrightarrow> ob_id r = i \<Longrightarrow> P r \<Longrightarrow> P (f r)"
  shows "row_is i P db'"
  by (rule row_isI [OF _ assms(2)]) (use assms in \<open>auto simp: row_is_def\<close>)

lemma row_is_enqueue:
  "row_is i P db \<Longrightarrow> j \<notin> ob_id ` set (od_rows db) \<Longrightarrow> row_is i P (enqueue_ready now j device transfer payload db)"
  by (auto simp: row_is_def enqueue_ready_def split: option.splits)

lemma row_is_step:
  assumes "outbox_step db (t, e) db'" and "row_is i P db"
    and "\<And>r. P r \<Longrightarrow> P (r\<lparr>ob_locked_at := Some t\<rparr>)"
    and "\<And>r at m. e = ERetry i False \<Longrightarrow> P r \<Longrightarrow> P (r\<lparr>ob_attempts := ob_attempts r + 1,
           ob_available_at := at, ob_locked_at := None, ob_last_error := m\<rparr>)"
    and "\<And>r. \<not> open_row r \<Longrightarrow> P r"
  shows "row_is i P db'"
  using assms(1)
proof cases
  case (oclaim busy n ds)
  show ?thesis
    by (rule row_is_map [OF assms(2), where f = "\<lambda>r. if ob_id r \<in> ob_id ` set (picked_rows t busy n (od_rows db))
          then r\<lparr>ob_locked_at := Some t\<rparr> else r"])
      (use oclaim assms(3) in \<open>auto simp: sql_Claim_def Let_def\<close>)
next
  case (omark j q)
  show ?thesis
    by (rule row_is_map [OF assms(2), where f = "\<lambda>r. if ob_id r = j
          then r\<lparr>ob_sent_at := Some t, ob_locked_at := None, ob_last_error := None\<rparr> else r"])
      (use omark assms(5) in \<open>auto simp: sql_MarkSent_def update_row_def open_row_def\<close>)
next
  case (oretry j m at final q)
  show ?thesis
  proof (cases final)
    case True
    show ?thesis
      by (rule row_is_map [OF assms(2), where f = "\<lambda>r. if ob_id r = j
            then r\<lparr>ob_attempts := ob_attempts r + 1, ob_failed_at := Some t, ob_locked_at := None,
                   ob_last_error := Some (pg_left 2000 m)\<rparr> else r"])
        (use oretry True assms(5) in \<open>auto simp: sql_Retry_def update_row_def open_row_def\<close>)
  next
    case False
    show ?thesis
      by (rule row_is_map [OF assms(2), where f = "\<lambda>r. if ob_id r = j
            then r\<lparr>ob_attempts := ob_attempts r + 1, ob_available_at := pg_time at, ob_locked_at := None,
                   ob_last_error := Some (pg_left 2000 m)\<rparr> else r"])
        (use oretry False assms(4) in \<open>auto simp: sql_Retry_def update_row_def\<close>)
  qed
next
  case (oenqueue j device transfer payload)
  then show ?thesis using row_is_enqueue [OF assms(2)] by simp
next
  case (odevices devices)
  then show ?thesis using assms(2) by (simp add: row_is_def)
qed

section \<open>Holding a notification\<close>

definition held_since :: "instant \<Rightarrow> outbox_row \<Rightarrow> bool" where
  "held_since t r \<longleftrightarrow> \<not> open_row r \<or> (\<exists>l. ob_locked_at r = Some l \<and> t \<le> l)"

lemma held_run:
  "outbox_run db tr db' \<Longrightarrow> row_is i (held_since t) db \<Longrightarrow> \<forall>(u, e) \<in> set tr. t \<le> u \<and> e \<noteq> ERetry i False \<Longrightarrow>
   row_is i (held_since t) db'"
proof (induction rule: outbox_run.induct)
  case (run_cons db e db1 es db2)
  obtain u ev where e: "e = (u, ev)" by fastforce
  have "row_is i (held_since t) db1"
    by (rule row_is_step [OF run_cons.hyps(1) [unfolded e] run_cons.prems(1)])
      (use run_cons.prems(2) e in \<open>auto simp: held_since_def open_row_def\<close>)
  then show ?case using run_cons.IH run_cons.prems(2) by simp
qed

lemma known_run: "outbox_run db tr db' \<Longrightarrow> row_is i (\<lambda>r. True) db \<Longrightarrow> row_is i (\<lambda>r. True) db'"
proof (induction rule: outbox_run.induct)
  case (run_cons db e db1 es db2)
  obtain u ev where e: "e = (u, ev)" by fastforce
  have "row_is i (\<lambda>r. True) db1"
    by (rule row_is_step [OF run_cons.hyps(1) [unfolded e] run_cons.prems]) simp_all
  then show ?case using run_cons.IH by simp
qed

lemma closed_run:
  "outbox_run db tr db' \<Longrightarrow> row_is i (\<lambda>r. \<not> open_row r) db \<Longrightarrow> row_is i (\<lambda>r. \<not> open_row r) db'"
proof (induction rule: outbox_run.induct)
  case (run_cons db e db1 es db2)
  obtain u ev where e: "e = (u, ev)" by fastforce
  have "row_is i (\<lambda>r. \<not> open_row r) db1"
    by (rule row_is_step [OF run_cons.hyps(1) [unfolded e] run_cons.prems]) (auto simp: open_row_def)
  then show ?case using run_cons.IH by simp
qed

lemma claimed_id:
  assumes "sql_Claim now busy n db = (Inr ds, db')" and "i \<in> set (map dl_ID ds)"
  shows "\<exists>r \<in> set (od_rows db). ob_id r = i \<and> claimable now r"
    "row_is i (held_since now) db'"
proof -
  let ?picked = "picked_rows now busy n (od_rows db)"
  from assms(1) have ds: "ds = List.map_filter (row_delivery db) ?picked" and db': "od_rows db' =
      map (\<lambda>r. if ob_id r \<in> ob_id ` set ?picked then r\<lparr>ob_locked_at := Some now\<rparr> else r) (od_rows db)"
    by (auto simp: sql_Claim_def Let_def)
  from assms(2) ds deliveries_ids(1) [of db ?picked] have i: "i \<in> ob_id ` set ?picked" by auto
  then obtain r where r: "r \<in> set ?picked" "ob_id r = i" by auto
  with set_picked_rows [OF r(1)] show "\<exists>r \<in> set (od_rows db). ob_id r = i \<and> claimable now r" by blast
  have "i \<in> ob_id ` set (od_rows db)"
    using r set_picked_rows [OF r(1)] by blast
  from row_isI [OF this db'] i show "row_is i (held_since now) db'"
    by (auto simp: held_since_def)
qed

text \<open>Marking a row sent, or giving it up, closes it.\<close>

lemma closing_step:
  assumes "outbox_step m1 (t, e) m2" and "row_is i (\<lambda>r. True) m1" and "e = EMark i \<or> e = ERetry i True"
  shows "row_is i (\<lambda>r. \<not> open_row r) m2"
  using assms(1)
proof (cases rule: outbox_step.cases)
  case (omark j q)
  with assms(3) have "j = i" by auto
  show ?thesis
    by (rule row_isI [where f = "\<lambda>r. if ob_id r = j
          then r\<lparr>ob_sent_at := Some t, ob_locked_at := None, ob_last_error := None\<rparr> else r"])
      (use omark assms(2) \<open>j = i\<close> in \<open>auto simp: row_is_def sql_MarkSent_def update_row_def open_row_def\<close>)
next
  case (oretry j m at final q)
  with assms(3) have "j = i" final by auto
  show ?thesis
    by (rule row_isI [where f = "\<lambda>r. if ob_id r = j
          then r\<lparr>ob_attempts := ob_attempts r + 1, ob_failed_at := Some t, ob_locked_at := None,
                 ob_last_error := Some (pg_left 2000 m)\<rparr> else r"])
      (use oretry assms(2) \<open>j = i\<close> \<open>final\<close> in \<open>auto simp: row_is_def sql_Retry_def update_row_def open_row_def\<close>)
qed (use assms(3) in auto)

text \<open>
  C20: a push notification is worked on by one worker at a time. In any sequence of statements of any number
  of workers (in the order of time), when a notification is claimed twice, it was neither sent nor failed for
  good in between, and either a worker had put it back for a retry or the second claim comes more than five
  minutes after the first.
\<close>

theorem push_claims_are_exclusive:
  assumes "outbox_run db (before @ (t1, EClaim ids1) # between @ [(t2, EClaim ids2)]) db'"
    and "sorted (map fst (before @ (t1, EClaim ids1) # between @ [(t2, EClaim ids2)]))"
    and "i \<in> set ids1" and "i \<in> set ids2"
  shows "((\<exists>t. (t, ERetry i False) \<in> set between) \<or> t1 + 5 * minute < t2) \<and>
    (\<forall>(t, e) \<in> set between. e \<noteq> EMark i \<and> e \<noteq> ERetry i True)"
proof -
  from outbox_run_append [OF assms(1)] obtain db1 where
    "outbox_run db1 ((t1, EClaim ids1) # between @ [(t2, EClaim ids2)]) db'" by blast
  then obtain db2 where c1: "outbox_step db1 (t1, EClaim ids1) db2"
    and rest: "outbox_run db2 (between @ [(t2, EClaim ids2)]) db'" by (auto elim: outbox_runE)
  from outbox_run_append [OF rest] obtain db3 where mid: "outbox_run db2 between db3"
    and "outbox_run db3 [(t2, EClaim ids2)] db'" by blast
  then obtain db4 where c2: "outbox_step db3 (t2, EClaim ids2) db4" by (auto elim: outbox_runE)
  from c1 assms(3) have held: "row_is i (held_since t1) db2"
    by (cases rule: outbox_step.cases) (auto intro: claimed_id(2))
  from c2 assms(4) have "\<exists>r \<in> set (od_rows db3). ob_id r = i \<and> claimable t2 r"
    by (cases rule: outbox_step.cases) (simp add: claimed_id(1))
  then obtain r where r: "r \<in> set (od_rows db3)" "ob_id r = i" "claimable t2 r" by blast
  have "t1 + 5 * minute < t2" if "\<And>t. (t, ERetry i False) \<notin> set between"
  proof -
    have "\<forall>(u, e) \<in> set between. t1 \<le> u \<and> e \<noteq> ERetry i False"
      using assms(2) that by (auto simp: sorted_append)
    from held_run [OF mid held this] r have "held_since t1 r" by (simp add: row_is_def)
    with r(3) show ?thesis by (auto simp: held_since_def claimable_def open_row_def)
  qed
  moreover have "e \<noteq> EMark i \<and> e \<noteq> ERetry i True" if te: "(t, e) \<in> set between" for t e
  proof (rule ccontr)
    assume bad: "\<not> (e \<noteq> EMark i \<and> e \<noteq> ERetry i True)"
    from te obtain xs ys where split: "between = xs @ (t, e) # ys" by (meson split_list)
    from outbox_run_append [OF mid [unfolded split]] obtain m1 where
      m1: "outbox_run db2 xs m1" "outbox_run m1 ((t, e) # ys) db3" by blast
    then obtain m2 where m2: "outbox_step m1 (t, e) m2" "outbox_run m2 ys db3" by (auto elim: outbox_runE)
    have "row_is i (\<lambda>r. True) db2" using held by (simp add: row_is_def)
    from known_run [OF m1(1) this] have known: "row_is i (\<lambda>r. True) m1" .
    have "row_is i (\<lambda>r. \<not> open_row r) m2" using closing_step [OF m2(1) known] bad by blast
    from closed_run [OF m2(2) this] r show False
      by (auto simp: row_is_def claimable_def open_row_def)
  qed
  ultimately show ?thesis by blast
qed

end
