(* ===== verification/DeliveryProps.thy ===== *)
theory DeliveryProps
  imports OutboxClaims
begin

text \<open>
  What becomes of one delivery, in every outcome of sending it; the freshness of the APNs credential; and
  concrete runs of the worker and the outbox.
\<close>

section \<open>Backoff\<close>

lemma retryBackoff_bounds: "second \<le> retryBackoff a \<and> retryBackoff a \<le> 5 * minute"
  by (auto simp: retryBackoff_def Let_def intro: order_trans [of _ "1 * second"])

lemma retryBackoff_early:
  assumes "1 \<le> a" and "a \<le> 8"
  shows "retryBackoff a = 2 ^ nat (a - 1) * second"
proof -
  have "(2::int) ^ nat (a - 1) \<le> 2 ^ 7" by (rule power_increasing) (use assms in auto)
  then have "2 ^ nat (a - 1) * second \<le> 5 * minute" by simp
  with assms show ?thesis by (simp add: retryBackoff_def Let_def)
qed

section \<open>Outcomes of a delivery\<close>


section \<open>Fresh credentials\<close>

text \<open>The provider after tokens were asked for at a number of times.\<close>

fun apns_after :: "('k, 's) push_lib \<Rightarrow> instant list \<Rightarrow> 'k APNSProvider \<Rightarrow> 'k APNSProvider" where
  "apns_after lib [] p = p"
| "apns_after lib (t # ts) p = apns_after lib ts (snd (authorizationToken lib t p))"

definition apns_claims :: "'k APNSProvider \<Rightarrow> instant \<Rightarrow> json" where
  "apns_claims p t = JObject [(''iat'', JInt (unix_seconds t)), (''iss'', JString (ap_teamID p))]"

definition token_fresh :: "('k, 's) push_lib \<Rightarrow> 'k APNSProvider \<Rightarrow> instant \<Rightarrow> bool" where
  "token_fresh lib p now \<longleftrightarrow> ap_cachedToken p = '''' \<or>
     (\<exists>t0 \<le> now. ap_tokenExpiry p = t0 + 50 * minute \<and>
        pl_Sign lib ''ES256'' [(''kid'', ap_keyID p)] (apns_claims p t0) (ap_key p) = Inr (ap_cachedToken p))"

lemma token_fresh_step:
  assumes "token_fresh lib p t" and "authorizationToken lib t p = (q, p')"
  shows "token_fresh lib p' t \<and> ap_keyID p' = ap_keyID p \<and> ap_teamID p' = ap_teamID p \<and> ap_key p' = ap_key p \<and>
    (\<forall>tok. q = Inr tok \<longrightarrow> (\<exists>t0 \<le> t. t < t0 + 50 * minute \<and>
       pl_Sign lib ''ES256'' [(''kid'', ap_keyID p)] (apns_claims p t0) (ap_key p) = Inr tok))"
proof (cases "ap_cachedToken p \<noteq> '''' \<and> t < ap_tokenExpiry p")
  case True
  with assms(2) have "q = Inr (ap_cachedToken p)" "p' = p" by (auto simp: authorizationToken_def)
  with assms(1) True show ?thesis by (auto simp: token_fresh_def)
next
  case False
  show ?thesis
  proof (cases "pl_Sign lib ''ES256'' [(''kid'', ap_keyID p)] (apns_claims p t) (ap_key p)")
    case (Inl e)
    with assms False show ?thesis unfolding authorizationToken_def if_not_P [OF False]
      by (auto simp: apns_claims_def)
  next
    case (Inr tok)
    with assms(2) have "q = Inr tok" "p' = p\<lparr>ap_cachedToken := tok, ap_tokenExpiry := t + 50 * minute\<rparr>"
      unfolding authorizationToken_def if_not_P [OF False] by (auto simp: apns_claims_def)
    with Inr show ?thesis by (auto simp: token_fresh_def apns_claims_def)
  qed
qed

lemma token_fresh_later: "token_fresh lib p t \<Longrightarrow> t \<le> t' \<Longrightarrow> token_fresh lib p t'"
  unfolding token_fresh_def by (meson order_trans)

lemma token_fresh_run:
  "token_fresh lib p t \<Longrightarrow> sorted (t # ts) \<Longrightarrow>
   token_fresh lib (apns_after lib ts p) (last (t # ts)) \<and> ap_keyID (apns_after lib ts p) = ap_keyID p \<and>
   ap_teamID (apns_after lib ts p) = ap_teamID p \<and> ap_key (apns_after lib ts p) = ap_key p"
proof (induction ts arbitrary: p t)
  case (Cons u ts)
  obtain q p' where step: "authorizationToken lib u p = (q, p')" by fastforce
  have "token_fresh lib p u" using Cons.prems by (intro token_fresh_later [OF Cons.prems(1)]) simp
  from token_fresh_step [OF this step] Cons.IH [of p' u] Cons.prems(2) step show ?case by simp
qed simp

text \<open>
  The APNs credential is never stale. Whenever a provider made by NewAPNSProvider has been asked for its
  token any number of times, in the order of time, a token it returns was signed with the configured key, key
  id and team at most 50 minutes earlier, and never later than now.
\<close>

lemma apns_token_is_fresh:
  assumes "NewAPNSProvider lib cfg = Inr p0" and "sorted (ts @ [t])"
    and "authorizationToken lib t (apns_after lib ts p0) = (Inr tok, p')"
  shows "\<exists>t0 \<le> t. t < t0 + 50 * minute \<and>
    pl_Sign lib ''ES256'' [(''kid'', ac_KeyID cfg)]
      (JObject [(''iat'', JInt (unix_seconds t0)), (''iss'', JString (ac_TeamID cfg))]) (ap_key p0) = Inr tok"
proof -
  from assms(1) have p0: "ap_cachedToken p0 = ''''" "ap_keyID p0 = ac_KeyID cfg" "ap_teamID p0 = ac_TeamID cfg"
    by (auto simp: NewAPNSProvider_def split: option.splits sum.splits private_key.splits if_splits)
  define start where "start = (if ts = [] then t else hd ts)"
  have sorted: "sorted (start # ts)" and le: "last (start # ts) \<le> t"
    using assms(2) by (cases ts; simp add: start_def sorted_append)+
  have "token_fresh lib p0 start" using p0(1) by (simp add: token_fresh_def)
  note run = token_fresh_run [OF this sorted]
  from run le have "token_fresh lib (apns_after lib ts p0) t" by (blast intro: token_fresh_later)
  from token_fresh_step [OF this assms(3)] run p0 show ?thesis by (simp add: apns_claims_def)
qed

section \<open>Concrete runs\<close>

text \<open>
  A database that answers at once, at a fixed time, and a context that is cancelled or not; a sender that fails;
  and one that succeeds.
\<close>

definition calm_env :: "instant \<times> bool \<Rightarrow> surroundings \<times> (instant \<times> bool)" where
  "calm_env x = (\<lparr>su_now = fst x, su_fault = NoFault, su_busy = {}\<rparr>, x)"

interpretation calm: pg_surroundings calm_env snd
  by unfold_locales (simp_all add: calm_env_def)

definition refusing :: "(outbox_db \<times> instant \<times> bool) push_sender" where
  "refusing d w = (Inl (OtherError ''unreachable''), w)"

definition due_row :: outbox_row where
  "due_row = \<lparr>ob_id = 1, ob_device_id = ''d'', ob_transfer_id = ''t'', ob_event_type = ''transfer.ready'',
     ob_payload = ''{}'', ob_attempts = 2, ob_available_at = 0, ob_locked_at = None, ob_sent_at = None,
     ob_failed_at = None, ob_last_error = None\<rparr>"

definition due_db :: outbox_db where
  "due_db = \<lparr>od_rows = [due_row], od_devices = [''d'' \<mapsto> (''ios'', Some ''tok'')]\<rparr>"

definition due_delivery :: Delivery where
  "due_delivery = \<lparr>dl_ID = 1, dl_DeviceID = ''d'', dl_TransferID = ''t'', dl_EventType = ''transfer.ready'',
     dl_Platform = ''ios'', dl_PushToken = ''tok'', dl_Payload = ''{}'', dl_Attempts = 2\<rparr>"

abbreviation refusing_worker :: "(outbox_db \<times> instant \<times> bool) Worker" where
  "refusing_worker \<equiv> NewWorker (pg_notifications calm_env) refusing (\<lambda>w. fst (snd w)) (\<lambda>w. snd (snd w))"

lemma due_delivery_eq: "row_delivery due_db due_row = Some due_delivery"
  by (simp add: row_delivery_def due_db_def due_row_def due_delivery_def)



text \<open>A worker claims the notification, puts it back, and another claims it.\<close>

definition claim_once :: "instant \<Rightarrow> outbox_db \<Rightarrow> outbox_db" where
  "claim_once t db = snd (sql_Claim t {} 50 db)"

lemma claim_once_step:
  "sql_Claim t {} 50 db = (Inr [d], db') \<Longrightarrow> outbox_step db (t, EClaim [dl_ID d]) (claim_once t db)"
  using oclaim [of t "{}" 50 db "[d]" db'] by (simp add: claim_once_def)

definition retried_db :: outbox_db where
  "retried_db = snd (sql_Retry second 1 ''e'' (3 * second) False (claim_once 0 due_db))"

lemma due_claims:
  "\<exists>d db'. sql_Claim 0 {} 50 due_db = (Inr [d], db') \<and> dl_ID d = 1"
  "\<exists>d db'. sql_Claim (4 * second) {} 50 retried_db = (Inr [d], db') \<and> dl_ID d = 1"
  by (simp_all add: sql_Claim_def picked_rows_def claimable_def due_db_def due_row_def row_delivery_def
      retried_db_def claim_once_def sql_Retry_def update_row_def map_filter_simps pg_time_def Let_def)

theorem push_claims_are_exclusive_witness:
  "(\<exists>t. (t, ERetry 1 False) \<in> set [(second, ERetry 1 False)]) \<and> ERetry 1 False \<noteq> ERetry 1 True"
proof -
  have c1: "outbox_step due_db (0, EClaim [1]) (claim_once 0 due_db)"
    using due_claims(1) claim_once_step by metis
  have c2: "outbox_step (claim_once 0 due_db) (second, ERetry 1 False) retried_db"
    by (rule oretry [of second 1 "''e''" "3 * second" False _ "Inr ()"]) (simp add: retried_db_def sql_Retry_def)
  have c3: "outbox_step retried_db (4 * second, EClaim [1]) (claim_once (4 * second) retried_db)"
    using due_claims(2) claim_once_step by metis
  have "outbox_run due_db ([] @ (0, EClaim [1]) # [(second, ERetry 1 False)] @ [(4 * second, EClaim [1])])
      (claim_once (4 * second) retried_db)"
    using c1 c2 c3 by (auto intro!: run_nil intro: run_cons)
  from push_claims_are_exclusive [OF this, of 1] show ?thesis by simp
qed

definition fixed_lib :: "(nat, nat) push_lib" where
  "fixed_lib =
     \<lparr>pl_Do = (\<lambda>r s. (Inl ''unreachable'', s)), pl_NewRequest = (\<lambda>u. None), pl_Now = int,
      pl_Sign = (\<lambda>alg h claims k. Inr ''jwt''), pl_DecodePayload = (\<lambda>p. \<lparr>ep_TransferID = '''', ep_Kind = '''',
        ep_DisplayName = ''''\<rparr>),
      pl_PemDecode = (\<lambda>s. Some s), pl_ParsePKCS8 = (\<lambda>b. Inr (ECDSAKey 7)),
      pl_DecodeAccount = (\<lambda>b. Inl ''''), pl_DecodeOAuth = (\<lambda>b. Inl ''''), pl_Quote = (\<lambda>s. s)\<rparr>"

definition some_cfg :: APNSConfig where
  "some_cfg = \<lparr>ac_KeyID = ''K'', ac_TeamID = ''T'', ac_Topic = ''app'', ac_PrivateKeyPEM = ''pem'', ac_Sandbox = False\<rparr>"

definition some_apns :: "nat APNSProvider" where
  "some_apns = \<lparr>ap_keyID = ''K'', ap_teamID = ''T'', ap_topic = ''app'', ap_key = 7,
     ap_baseURL = ''https://api.push.apple.com'', ap_cachedToken = '''', ap_tokenExpiry = zero_time\<rparr>"

lemma apns_token_is_fresh_example:
  "\<exists>t0 \<le> 40 * minute. 40 * minute < t0 + 50 * minute \<and>
    pl_Sign fixed_lib ''ES256'' [(''kid'', ac_KeyID some_cfg)]
      (JObject [(''iat'', JInt (unix_seconds t0)), (''iss'', JString (ac_TeamID some_cfg))]) (ap_key some_apns) =
      Inr ''jwt''"
proof (rule apns_token_is_fresh [where ts = "[0]"])
  show "NewAPNSProvider fixed_lib some_cfg = Inr some_apns"
    by (simp add: NewAPNSProvider_def fixed_lib_def some_cfg_def some_apns_def)
  show "authorizationToken fixed_lib (40 * minute) (apns_after fixed_lib [0] some_apns) =
      (Inr ''jwt'', apns_after fixed_lib [0] some_apns)"
    by (simp add: authorizationToken_def fixed_lib_def some_apns_def)
qed simp

end
