(* ===== verification/Postgres.thy ===== *)
theory Postgres
  imports Outbox TransferService Devices AuthStore
begin

text \<open>
  The PostgreSQL database: the tables of \<^verbatim>\<open>platform/postgresdb/schema.sql\<close> as maps from their primary keys,
  with the constraints a statement can violate, and an exchange with the server that may fail. What the server
  itself computes (parsing and generating uuids, the encodings it accepts, JSON texts) is a parameter.
\<close>

section \<open>Tables\<close>

record pg_user =
  gu_email :: string
  gu_password_hash :: string
  gu_created_at :: instant

record pg_device =
  gd_user_id :: "string option"
  gd_name :: string
  gd_platform :: string
  gd_push_token :: "string option"
  gd_created_at :: instant

record pg_transfer =
  gt_user_id :: "string option"
  gt_source :: string
  gt_destination :: string
  gt_kind :: string
  gt_status :: Status
  gt_display_name :: "string option"
  gt_content_type :: "string option"
  gt_size_bytes :: int
  gt_sha256 :: string
  gt_created_at :: instant
  gt_updated_at :: instant
  gt_completed_at :: "instant option"

record pg_db =
  db_users :: "string \<rightharpoonup> pg_user"
  db_refresh :: "string \<rightharpoonup> refresh_row"
  db_devices :: "string \<rightharpoonup> pg_device"
  db_transfers :: "string \<rightharpoonup> pg_transfer"
  db_outbox :: "outbox_row list"
  db_outbox_seq :: int

text \<open>Casting a text to uuid (its canonical text), generating one, the accepted texts, the outbox payload.\<close>

record pg_lib =
  pl_uuid :: "string \<Rightarrow> string option"
  pl_gen_uuid :: "bytes \<Rightarrow> string"
  pl_text :: "string \<Rightarrow> bool"
  pl_payload :: "string \<Rightarrow> string \<Rightarrow> string \<Rightarrow> string"

text \<open>NULLIF and COALESCE with the empty text, and the comparison of char(64) values.\<close>

definition nullif :: "string \<Rightarrow> string option" where
  "nullif v = (if v = '''' then None else Some v)"

definition coalesce :: "string option \<Rightarrow> string" where
  "coalesce v = (case v of None \<Rightarrow> '''' | Some t \<Rightarrow> t)"

lemma coalesce_nullif [simp]: "coalesce (nullif v) = v"
  by (simp add: coalesce_def nullif_def)

definition char64 :: "string \<Rightarrow> string option" where
  "char64 v = (let k = rev (dropWhile (\<lambda>c. c = CHR '' '') (rev v)) in if length k \<le> 64 then Some k else None)"

section \<open>Exchanges\<close>

datatype pg_error = SqlState string | ConnError string

text \<open>
  One statement outside a transaction, or the commit of one: its request may be lost, or it takes effect and
  its reply is lost.
\<close>

definition pg_exec ::
  "('x \<Rightarrow> surroundings \<times> 'x) \<Rightarrow> (surroundings \<Rightarrow> pg_db \<Rightarrow> (pg_error, 'a, pg_db) outcome) \<Rightarrow>
   pg_db \<times> 'x \<Rightarrow> (pg_error, 'a, pg_db \<times> 'x) outcome" where
  "pg_exec env stmt w =
     (let (db, x) = w; (su, x') = env x in
      case su_fault su of
        NoFault \<Rightarrow> (let (q, db') = stmt su db in (q, (db', x')))
      | LostRequest e \<Rightarrow> (Inl (ConnError e), (db, x'))
      | LostReply e \<Rightarrow> (Inl (ConnError e), (snd (stmt su db), x')))"

text \<open>A cast of the context's user to uuid, as a statement that names a user does it.\<close>

definition sql_user :: "pg_lib \<Rightarrow> string \<Rightarrow> (pg_error, string) result" where
  "sql_user lib userID = (case pl_uuid lib userID of None \<Rightarrow> Inl (SqlState ''22P02'') | Some u \<Rightarrow> Inr u)"

text \<open>NULLIF($n, '')::uuid.\<close>

definition sql_nullif_user :: "pg_lib \<Rightarrow> string \<Rightarrow> (pg_error, string option) result" where
  "sql_nullif_user lib userID =
     (if userID = '''' then Inr None
      else case sql_user lib userID of Inl e \<Rightarrow> Inl e | Inr u \<Rightarrow> Inr (Some u))"

text \<open>
  A condition on the owner, added to a statement when the context has a user. Errors are those of the cast.
\<close>

definition owner_filter :: "pg_lib \<Rightarrow> string \<Rightarrow> (pg_error, string option \<Rightarrow> bool) result" where
  "owner_filter lib userID =
     (if userID = '''' then Inr (\<lambda>u. True)
      else case sql_user lib userID of Inl e \<Rightarrow> Inl e | Inr v \<Rightarrow> Inr (\<lambda>u. u = Some v))"

text \<open>The error a value of a statement is rejected with, the first one that is.\<close>

definition reject_texts :: "pg_lib \<Rightarrow> string list \<Rightarrow> bool" where
  "reject_texts lib vs \<longleftrightarrow> (\<exists>v \<in> set vs. \<not> pl_text lib v)"

text \<open>The columns the outbox statements see.\<close>

definition outbox_of :: "pg_db \<Rightarrow> outbox_db" where
  "outbox_of db =
     \<lparr>od_rows = db_outbox db, od_devices = map_option (\<lambda>d. (gd_platform d, gd_push_token d)) \<circ> db_devices db\<rparr>"

definition set_outbox :: "pg_db \<Rightarrow> outbox_db \<Rightarrow> pg_db" where
  "set_outbox db o' = db\<lparr>db_outbox := od_rows o'\<rparr>"

section \<open>Surroundings in which failures change nothing\<close>

text \<open>
  The repositories promise that an operation that fails changes nothing; for that, no exchange may take effect
  and lose its reply. Requests may be lost.
\<close>

locale pg_clean =
  fixes env :: "'x \<Rightarrow> surroundings \<times> 'x"
  assumes replies_arrive: "su_fault (fst (env x)) \<noteq> LostReply e"

begin

lemma pg_exec_cases:
  assumes "pg_exec env stmt (db, x) = (q, w)"
  shows "w = (db, snd (env x)) \<and> (\<exists>e. q = Inl (ConnError e)) \<or>
    (\<exists>db'. stmt (fst (env x)) db = (q, db') \<and> w = (db', snd (env x)))"
  using assms replies_arrive [of x]
  by (cases "env x"; cases "su_fault (fst (env x))") (auto simp: pg_exec_def split: prod.splits)

end

text \<open>A server that is always there, at a fixed time.\<close>

definition still_env :: "instant \<Rightarrow> surroundings \<times> instant" where
  "still_env t = (\<lparr>su_now = t, su_fault = NoFault, su_busy = {}\<rparr>, t)"

interpretation still: pg_clean still_env
  by unfold_locales (simp add: still_env_def)

section \<open>Calls the contracts are stated for\<close>

text \<open>
  The database keeps microseconds and canonical uuids. The contracts are stated for calls whose user id, if it
  is a uuid at all, is in canonical form (every id the database hands out is) and whose times are whole
  microseconds.
\<close>

definition canonical_user :: "pg_lib \<Rightarrow> string \<Rightarrow> bool" where
  "canonical_user lib u \<longleftrightarrow> pl_uuid lib u \<in> {None, Some u} \<and> pl_uuid lib '''' = None"

definition whole_us :: "instant \<Rightarrow> bool" where
  "whole_us t \<longleftrightarrow> pg_time t = t"

lemma pg_time_idem [simp]: "pg_time (pg_time t) = pg_time t"
  by (simp add: pg_time_def)

lemma owner_filter_canonical:
  assumes "canonical_user lib u" and "owner_filter lib u = Inr P" and "\<And>v. w = Some v \<Longrightarrow> v \<noteq> ''''"
  shows "P w \<longleftrightarrow> u = '''' \<or> coalesce w = u"
  using assms by (cases w) (auto simp: owner_filter_def sql_user_def canonical_user_def coalesce_def
      split: if_splits option.splits)

lemma nullif_user_canonical:
  assumes "canonical_user lib u" and "sql_nullif_user lib u = Inr w"
  shows "coalesce w = u" "\<And>v. w = Some v \<Longrightarrow> v \<noteq> ''''"
  using assms by (cases "pl_uuid lib u"; auto simp: sql_nullif_user_def sql_user_def canonical_user_def coalesce_def
      split: if_splits)+

end
