(* ===== verification/PgAuth.thy ===== *)
theory PgAuth
  imports Postgres AuthService
begin

text \<open>
  The PostgreSQL user and refresh-token repository, \<^verbatim>\<open>auth/postgres_repository.go\<close>: its statements and
  operations, the rotation of a refresh token as one transaction. It keeps the contract auth_store.
\<close>

section \<open>Statements\<close>

definition scanUser :: "string \<Rightarrow> pg_user \<Rightarrow> User" where
  "scanUser i r = \<lparr>us_ID = i, us_Email = gu_email r, us_PasswordHash = gu_password_hash r,
     us_CreatedAt = gu_created_at r\<rparr>"

text \<open>The id is generated by the database, from the random bytes given; created_at is its clock.\<close>

definition sql_insert_user ::
  "pg_lib \<Rightarrow> instant \<Rightarrow> (string, bytes) result \<Rightarrow> string \<Rightarrow> string \<Rightarrow> pg_db \<Rightarrow> (pg_error, User, pg_db) outcome" where
  "sql_insert_user lib now rnd email passwordHash db =
     (if reject_texts lib [email, passwordHash] then (Inl (SqlState ''22021''), db)
      else case rnd of
        Inl e \<Rightarrow> (Inl (SqlState e), db)
      | Inr b \<Rightarrow>
          let i = pl_gen_uuid lib b; row = \<lparr>gu_email = email, gu_password_hash = passwordHash,
                gu_created_at = pg_time now\<rparr> in
          if i \<in> dom (db_users db) \<or> (\<exists>r \<in> ran (db_users db). gu_email r = email)
          then (Inl (SqlState ''23505''), db)
          else (Inr (scanUser i row), db\<lparr>db_users := (db_users db)(i \<mapsto> row)\<rparr>))"

text \<open>The row with the address, found among the ids in the order of the argument.\<close>

definition sql_user_by_email ::
  "pg_lib \<Rightarrow> string list \<Rightarrow> string \<Rightarrow> pg_db \<Rightarrow> (pg_error, User option, pg_db) outcome" where
  "sql_user_by_email lib ids email db =
     (if reject_texts lib [email] then (Inl (SqlState ''22021''), db)
      else
        (Inr (case List.map_filter (\<lambda>i. case db_users db i of None \<Rightarrow> None
                    | Some r \<Rightarrow> if gu_email r = email then Some (scanUser i r) else None) ids of
                [] \<Rightarrow> None | u # _ \<Rightarrow> Some u), db))"

definition sql_insert_refresh ::
  "pg_lib \<Rightarrow> string \<Rightarrow> string \<Rightarrow> string \<Rightarrow> instant \<Rightarrow> pg_db \<Rightarrow> (pg_error, unit, pg_db) outcome" where
  "sql_insert_refresh lib tokenHash userID familyID expiresAt db =
     (if reject_texts lib [tokenHash, userID, familyID] then (Inl (SqlState ''22021''), db)
      else case sql_user lib userID of
        Inl e \<Rightarrow> (Inl e, db)
      | Inr u \<Rightarrow>
          (case char64 tokenHash of
             None \<Rightarrow> (Inl (SqlState ''22001''), db)
           | Some h \<Rightarrow>
               if h \<in> dom (db_refresh db) then (Inl (SqlState ''23505''), db)
               else if u \<notin> dom (db_users db) then (Inl (SqlState ''23503''), db)
               else (Inr (), db\<lparr>db_refresh := (db_refresh db)(h \<mapsto> new_row u familyID (pg_time expiresAt))\<rparr>)))"

text \<open>A parameter compared with a char(64) column; one that is too long equals no value.\<close>

definition sql_select_refresh ::
  "pg_lib \<Rightarrow> string \<Rightarrow> pg_db \<Rightarrow> (pg_error, refresh_row option, pg_db) outcome" where
  "sql_select_refresh lib tokenHash db =
     (if reject_texts lib [tokenHash] then (Inl (SqlState ''22021''), db)
      else (Inr (Option.bind (char64 tokenHash) (db_refresh db)), db))"

definition sql_revoke_family :: "string \<Rightarrow> instant \<Rightarrow> pg_db \<Rightarrow> (pg_error, unit, pg_db) outcome" where
  "sql_revoke_family familyID now db =
     (Inr (), db\<lparr>db_refresh := map_option (\<lambda>r. if rr_familyID r = familyID
        then r\<lparr>rr_revokedAt := (case rr_revokedAt r of None \<Rightarrow> Some (pg_time now) | Some t \<Rightarrow> Some t)\<rparr> else r)
        \<circ> db_refresh db\<rparr>)"

definition sql_mark_used :: "string \<Rightarrow> instant \<Rightarrow> pg_db \<Rightarrow> (pg_error, unit, pg_db) outcome" where
  "sql_mark_used tokenHash now db =
     (Inr (), case char64 tokenHash of
        None \<Rightarrow> db
      | Some h \<Rightarrow>
          (case db_refresh db h of
             None \<Rightarrow> db
           | Some r \<Rightarrow> db\<lparr>db_refresh := (db_refresh db)(h \<mapsto> r\<lparr>rr_usedAt := Some (pg_time now)\<rparr>)\<rparr>))"

section \<open>The repository\<close>

definition au_error :: "pg_error \<Rightarrow> auth_error" where
  "au_error e = Auth_Err (case e of SqlState c \<Rightarrow> c | ConnError m \<Rightarrow> m)"

definition pa_CreateUser ::
  "pg_lib \<Rightarrow> ('x \<Rightarrow> surroundings \<times> 'x) \<Rightarrow> instant \<Rightarrow> (string, bytes) result \<Rightarrow> string \<Rightarrow> string \<Rightarrow> pg_db \<times> 'x \<Rightarrow>
   (auth_error, User, pg_db \<times> 'x) outcome" where
  "pa_CreateUser lib env now rnd email passwordHash w =
     (case pg_exec env (\<lambda>su. sql_insert_user lib now rnd email passwordHash) w of
        (Inl e, w') \<Rightarrow> (Inl (if e = SqlState ''23505'' then ErrEmailTaken else au_error e), w')
      | (Inr u, w') \<Rightarrow> (Inr u, w'))"

definition pa_GetUserByEmail ::
  "pg_lib \<Rightarrow> ('x \<Rightarrow> surroundings \<times> 'x) \<Rightarrow> (pg_db \<Rightarrow> string list) \<Rightarrow> string \<Rightarrow> pg_db \<times> 'x \<Rightarrow>
   (auth_error, User, pg_db \<times> 'x) outcome" where
  "pa_GetUserByEmail lib env ids email w =
     (case pg_exec env (\<lambda>su db. sql_user_by_email lib (ids db) email db) w of
        (Inl e, w') \<Rightarrow> (Inl (au_error e), w')
      | (Inr None, w') \<Rightarrow> (Inl ErrInvalidCredentials, w')
      | (Inr (Some u), w') \<Rightarrow> (Inr u, w'))"

definition pa_CreateRefresh ::
  "pg_lib \<Rightarrow> ('x \<Rightarrow> surroundings \<times> 'x) \<Rightarrow> string \<Rightarrow> string \<Rightarrow> string \<Rightarrow> instant \<Rightarrow> pg_db \<times> 'x \<Rightarrow>
   (auth_error, unit, pg_db \<times> 'x) outcome" where
  "pa_CreateRefresh lib env userID familyID tokenHash expiresAt w =
     (case pg_exec env (\<lambda>su. sql_insert_refresh lib tokenHash userID familyID expiresAt) w of
        (Inl e, w') \<Rightarrow> (Inl (au_error e), w')
      | (Inr _, w') \<Rightarrow> (Inr (), w'))"

text \<open>
  RotateRefresh. The transaction works on its own copy of the database, which the commit installs; the row
  lock taken by the first statement lets no other transaction use the token meanwhile. Every exchange, the
  begin and the commit included, may fail, and then nothing is kept (unless the commit's reply is lost).
\<close>

definition tx_begin ::
  "('x \<Rightarrow> surroundings \<times> 'x) \<Rightarrow> pg_db \<times> 'x \<Rightarrow> (pg_error, unit, pg_db \<times> 'x) outcome" where
  "tx_begin env = pg_exec env (\<lambda>su db. (Inr (), db))"

definition tx_commit ::
  "('x \<Rightarrow> surroundings \<times> 'x) \<Rightarrow> pg_db \<Rightarrow> pg_db \<times> 'x \<Rightarrow> (pg_error, unit, pg_db \<times> 'x) outcome" where
  "tx_commit env new = pg_exec env (\<lambda>su db. (Inr (), new))"

definition pa_RotateRefresh ::
  "pg_lib \<Rightarrow> ('x \<Rightarrow> surroundings \<times> 'x) \<Rightarrow> string \<Rightarrow> string \<Rightarrow> instant \<Rightarrow> instant \<Rightarrow> pg_db \<times> 'x \<Rightarrow>
   (auth_error, string, pg_db \<times> 'x) outcome" where
  "pa_RotateRefresh lib env tokenHash replacementHash replacementExpiresAt now w =
     (case tx_begin env w of
        (Inl e, w') \<Rightarrow> (Inl (au_error e), w')
      | (Inr _, (db, x)) \<Rightarrow>
     (case pg_exec env (\<lambda>su. sql_select_refresh lib tokenHash) (db, x) of
        (Inl e, (_, x)) \<Rightarrow> (Inl (au_error e), (db, x))
      | (Inr None, (_, x)) \<Rightarrow> (Inl ErrInvalidRefresh, (db, x))
      | (Inr (Some r), (_, x)) \<Rightarrow>
          if rr_revokedAt r \<noteq> None \<or> \<not> now < rr_expiresAt r then (Inl ErrInvalidRefresh, (db, x))
          else if rr_usedAt r \<noteq> None then
            (case pg_exec env (\<lambda>su. sql_revoke_family (rr_familyID r) now) (db, x) of
               (Inl e, (_, x)) \<Rightarrow> (Inl (au_error e), (db, x))
             | (Inr _, (db1, x)) \<Rightarrow>
                 (case tx_commit env db1 (db, x) of
                    (Inl e, w') \<Rightarrow> (Inl (au_error e), w')
                  | (Inr _, w') \<Rightarrow> (Inl ErrRefreshReuse, w')))
          else
            (case pg_exec env (\<lambda>su. sql_mark_used tokenHash now) (db, x) of
               (Inl e, (_, x)) \<Rightarrow> (Inl (au_error e), (db, x))
             | (Inr _, (db1, x)) \<Rightarrow>
                 (case pg_exec env (\<lambda>su. sql_insert_refresh lib replacementHash (rr_userID r) (rr_familyID r)
                         replacementExpiresAt) (db1, x) of
                    (Inl e, (_, x)) \<Rightarrow> (Inl (au_error e), (db, x))
                  | (Inr _, (db2, x)) \<Rightarrow>
                      (case tx_commit env db2 (db, x) of
                         (Inl e, w') \<Rightarrow> (Inl (au_error e), w')
                       | (Inr _, w') \<Rightarrow> (Inr (rr_userID r), w'))))))"

definition pg_auth :: "pg_lib \<Rightarrow> ('x \<Rightarrow> surroundings \<times> 'x) \<Rightarrow> (pg_db \<Rightarrow> string list) \<Rightarrow> (pg_db \<times> 'x) auth_repo" where
  "pg_auth lib env ids =
     \<lparr>ar_CreateUser = pa_CreateUser lib env, ar_GetUserByEmail = pa_GetUserByEmail lib env ids,
      ar_CreateRefresh = pa_CreateRefresh lib env, ar_RotateRefresh = pa_RotateRefresh lib env\<rparr>"

end
