(* ===== verification/PgTransfers.thy ===== *)
theory PgTransfers
  imports Postgres
begin

text \<open>
  The PostgreSQL transfer repository, \<^verbatim>\<open>transfers/postgres_repository.go\<close>: its statements, with the ownership
  check of Create and the trigger that queues a notification, and the repository. It keeps the contract
  transfer_store.
\<close>

section \<open>Statements\<close>

text \<open>scanTransfer: the selected columns of a row.\<close>

definition scanTransfer :: "string \<Rightarrow> pg_transfer \<Rightarrow> Transfer" where
  "scanTransfer i r =
     \<lparr>tr_ID = i, tr_SourceDeviceID = gt_source r, tr_DestinationDeviceID = gt_destination r, tr_Kind = gt_kind r,
      tr_Status = gt_status r, tr_DisplayName = coalesce (gt_display_name r),
      tr_ContentType = coalesce (gt_content_type r), tr_SizeBytes = gt_size_bytes r, tr_SHA256 = gt_sha256 r,
      tr_UploadURL = '''', tr_DownloadURL = '''', tr_CreatedAt = gt_created_at r, tr_UpdatedAt = gt_updated_at r\<rparr>"

definition sql_owns_both ::
  "pg_lib \<Rightarrow> string \<Rightarrow> string \<Rightarrow> string \<Rightarrow> pg_db \<Rightarrow> (pg_error, bool, pg_db) outcome" where
  "sql_owns_both lib src dst userID db =
     (if reject_texts lib [src, dst, userID] then (Inl (SqlState ''22021''), db)
      else case sql_user lib userID of
        Inl e \<Rightarrow> (Inl e, db)
      | Inr u \<Rightarrow>
          (Inr (map_option gd_user_id (db_devices db src) = Some (Some u) \<and>
                map_option gd_user_id (db_devices db dst) = Some (Some u)), db))"

definition kind_enum :: "string \<Rightarrow> bool" where
  "kind_enum k \<longleftrightarrow> k \<in> {''file'', ''photo'', ''link'', ''text'', ''clipboard''}"

definition sql_insert_transfer :: "pg_lib \<Rightarrow> string \<Rightarrow> Transfer \<Rightarrow> pg_db \<Rightarrow> (pg_error, unit, pg_db) outcome" where
  "sql_insert_transfer lib userID t db =
     (if reject_texts lib [tr_ID t, userID, tr_SourceDeviceID t, tr_DestinationDeviceID t, tr_Kind t,
           tr_DisplayName t, tr_ContentType t, tr_SHA256 t]
      then (Inl (SqlState ''22021''), db)
      else case sql_nullif_user lib userID of
        Inl e \<Rightarrow> (Inl e, db)
      | Inr owner \<Rightarrow>
          if \<not> kind_enum (tr_Kind t) then (Inl (SqlState ''22P02''), db)
          else if tr_SizeBytes t < 0 \<or> \<not> checksumPattern (tr_SHA256 t) then (Inl (SqlState ''23514''), db)
          else if tr_ID t \<in> dom (db_transfers db) then (Inl (SqlState ''23505''), db)
          else if tr_SourceDeviceID t \<notin> dom (db_devices db) \<or> tr_DestinationDeviceID t \<notin> dom (db_devices db) \<or>
              (\<exists>u \<in> set_option owner. u \<notin> dom (db_users db))
          then (Inl (SqlState ''23503''), db)
          else
            (Inr (), db\<lparr>db_transfers := (db_transfers db)(tr_ID t \<mapsto>
               \<lparr>gt_user_id = owner, gt_source = tr_SourceDeviceID t, gt_destination = tr_DestinationDeviceID t,
                gt_kind = tr_Kind t, gt_status = tr_Status t, gt_display_name = nullif (tr_DisplayName t),
                gt_content_type = nullif (tr_ContentType t), gt_size_bytes = tr_SizeBytes t,
                gt_sha256 = tr_SHA256 t, gt_created_at = pg_time (tr_CreatedAt t),
                gt_updated_at = pg_time (tr_UpdatedAt t), gt_completed_at = None\<rparr>)\<rparr>))"

text \<open>
  The rows come in descending order of creation; rows created in the same microsecond in the order of the
  argument, an enumeration of the table.
\<close>

definition sql_list_transfers ::
  "pg_lib \<Rightarrow> string \<Rightarrow> string list \<Rightarrow> pg_db \<Rightarrow> (pg_error, Transfer list, pg_db) outcome" where
  "sql_list_transfers lib userID ks db =
     (case owner_filter lib userID of
        Inl e \<Rightarrow> (Inl e, db)
      | Inr mine \<Rightarrow>
          (Inr (sort_key (\<lambda>t. - tr_CreatedAt t)
             (map (\<lambda>(i, r). scanTransfer i r) (filter (\<lambda>(i, r). mine (gt_user_id r))
               (List.map_filter (\<lambda>i. map_option (Pair i) (db_transfers db i)) ks)))), db))"

definition sql_get_transfer ::
  "pg_lib \<Rightarrow> string \<Rightarrow> string \<Rightarrow> pg_db \<Rightarrow> (pg_error, Transfer option, pg_db) outcome" where
  "sql_get_transfer lib userID i db =
     (if reject_texts lib [i] then (Inl (SqlState ''22021''), db)
      else case owner_filter lib userID of
        Inl e \<Rightarrow> (Inl e, db)
      | Inr mine \<Rightarrow>
          (Inr (case db_transfers db i of None \<Rightarrow> None
                | Some r \<Rightarrow> if mine (gt_user_id r) then Some (scanTransfer i r) else None), db))"

text \<open>
  The update of a row, with the trigger that fires once it is written; the result is the number of rows.
\<close>

definition updated_transfer :: "Transfer \<Rightarrow> pg_transfer \<Rightarrow> pg_transfer" where
  "updated_transfer t r = r\<lparr>gt_status := tr_Status t, gt_display_name := nullif (tr_DisplayName t),
     gt_content_type := nullif (tr_ContentType t), gt_size_bytes := tr_SizeBytes t, gt_sha256 := tr_SHA256 t,
     gt_updated_at := pg_time (tr_UpdatedAt t),
     gt_completed_at := (if tr_Status t = StatusCompleted then Some (pg_time (tr_UpdatedAt t))
                         else gt_completed_at r)\<rparr>"

definition ready_trigger :: "pg_lib \<Rightarrow> instant \<Rightarrow> string \<Rightarrow> pg_transfer \<Rightarrow> pg_transfer \<Rightarrow> pg_db \<Rightarrow> pg_db" where
  "ready_trigger lib now i old r db =
     (if gt_status r = StatusReady \<and> gt_status old \<noteq> gt_status r then
        let db' = set_outbox db (enqueue_ready now (db_outbox_seq db + 1) (gt_destination r) i
                    (pl_payload lib i (gt_kind r) (coalesce (gt_display_name r))) (outbox_of db))
        in if (case db_devices db (gt_destination r) of None \<Rightarrow> False | Some d \<Rightarrow> coalesce (gd_push_token d) \<noteq> '''')
           then db'\<lparr>db_outbox_seq := db_outbox_seq db + 1\<rparr> else db'
      else db)"

definition sql_update_transfer ::
  "pg_lib \<Rightarrow> instant \<Rightarrow> string \<Rightarrow> Transfer \<Rightarrow> pg_db \<Rightarrow> (pg_error, nat, pg_db) outcome" where
  "sql_update_transfer lib now userID t db =
     (if reject_texts lib [tr_ID t, tr_DisplayName t, tr_ContentType t, tr_SHA256 t]
      then (Inl (SqlState ''22021''), db)
      else case owner_filter lib userID of
        Inl e \<Rightarrow> (Inl e, db)
      | Inr mine \<Rightarrow>
          (case db_transfers db (tr_ID t) of
             None \<Rightarrow> (Inr 0, db)
           | Some r \<Rightarrow>
               if \<not> mine (gt_user_id r) then (Inr 0, db)
               else if tr_SizeBytes t < 0 \<or> \<not> checksumPattern (tr_SHA256 t) then (Inl (SqlState ''23514''), db)
               else
                 let r' = updated_transfer t r in
                 (Inr 1, ready_trigger lib now (tr_ID t) r r'
                    (db\<lparr>db_transfers := (db_transfers db)(tr_ID t \<mapsto> r')\<rparr>))))"

section \<open>The repository\<close>

definition pg_error_text :: "pg_error \<Rightarrow> string" where
  "pg_error_text e = (case e of SqlState c \<Rightarrow> c | ConnError m \<Rightarrow> m)"

definition pt_Create ::
  "pg_lib \<Rightarrow> ('x \<Rightarrow> surroundings \<times> 'x) \<Rightarrow> ctx \<Rightarrow> Transfer \<Rightarrow> pg_db \<times> 'x \<Rightarrow>
   (transfer_error, Transfer, pg_db \<times> 'x) outcome" where
  "pt_Create lib env c t w =
     (let userID = UserID c;
          insert = (\<lambda>w. case pg_exec env (\<lambda>su. sql_insert_transfer lib userID t) w of
            (Inl e, w') \<Rightarrow> (Inl (Tr_Err (pg_error_text e)), w')
          | (Inr _, w') \<Rightarrow> (Inr t, w')) in
      if userID \<noteq> '''' then
        (case pg_exec env (\<lambda>su. sql_owns_both lib (tr_SourceDeviceID t) (tr_DestinationDeviceID t) userID) w of
           (Inl e, w') \<Rightarrow> (Inl (Tr_Err (pg_error_text e)), w')
         | (Inr ownsBoth, w') \<Rightarrow> if \<not> ownsBoth then (Inl Tr_ErrInvalidInput, w') else insert w')
      else insert w)"

definition pt_List ::
  "pg_lib \<Rightarrow> ('x \<Rightarrow> surroundings \<times> 'x) \<Rightarrow> ctx \<Rightarrow> string list \<Rightarrow> pg_db \<times> 'x \<Rightarrow>
   (transfer_error, Transfer list, pg_db \<times> 'x) outcome" where
  "pt_List lib env c ks w =
     (case pg_exec env (\<lambda>su. sql_list_transfers lib (UserID c) ks) w of
        (Inl e, w') \<Rightarrow> (Inl (Tr_Err (pg_error_text e)), w')
      | (Inr out, w') \<Rightarrow> (Inr out, w'))"

definition pt_Get ::
  "pg_lib \<Rightarrow> ('x \<Rightarrow> surroundings \<times> 'x) \<Rightarrow> ctx \<Rightarrow> string \<Rightarrow> pg_db \<times> 'x \<Rightarrow>
   (transfer_error, Transfer, pg_db \<times> 'x) outcome" where
  "pt_Get lib env c i w =
     (case pg_exec env (\<lambda>su. sql_get_transfer lib (UserID c) i) w of
        (Inl e, w') \<Rightarrow> (Inl (Tr_Err (pg_error_text e)), w')
      | (Inr None, w') \<Rightarrow> (Inl Tr_ErrNotFound, w')
      | (Inr (Some t), w') \<Rightarrow> (Inr t, w'))"

definition pt_Update ::
  "pg_lib \<Rightarrow> ('x \<Rightarrow> surroundings \<times> 'x) \<Rightarrow> ctx \<Rightarrow> Transfer \<Rightarrow> pg_db \<times> 'x \<Rightarrow>
   (transfer_error, Transfer, pg_db \<times> 'x) outcome" where
  "pt_Update lib env c t w =
     (case pg_exec env (\<lambda>su. sql_update_transfer lib (su_now su) (UserID c) t) w of
        (Inl e, w') \<Rightarrow> (Inl (Tr_Err (pg_error_text e)), w')
      | (Inr n, w') \<Rightarrow> if n = 0 then (Inl Tr_ErrNotFound, w') else (Inr t, w'))"

definition pg_transfers :: "pg_lib \<Rightarrow> ('x \<Rightarrow> surroundings \<times> 'x) \<Rightarrow> (pg_db \<times> 'x) transfer_repo" where
  "pg_transfers lib env =
     \<lparr>trp_Create = pt_Create lib env, trp_List = pt_List lib env, trp_Get = pt_Get lib env,
      trp_Update = pt_Update lib env\<rparr>"

section \<open>The contract\<close>

definition pt_table :: "pg_db \<Rightarrow> transfer_table" where
  "pt_table db = (\<lambda>i. map_option (\<lambda>r. (scanTransfer i r, coalesce (gt_user_id r))) (db_transfers db i))"

definition pt_invar :: "pg_db \<Rightarrow> bool" where
  "pt_invar db \<longleftrightarrow> (\<forall>i r. db_transfers db i = Some r \<longrightarrow> gt_user_id r \<noteq> Some '''')"

definition transfer_us :: "Transfer \<Rightarrow> bool" where
  "transfer_us t \<longleftrightarrow> whole_us (tr_CreatedAt t) \<and> whole_us (tr_UpdatedAt t)"

text \<open>The repository for the calls the contract is stated for; every other call is answered with an error.\<close>

definition only_if :: "bool \<Rightarrow> 'e \<Rightarrow> ('s \<Rightarrow> ('e, 'a, 's) outcome) \<Rightarrow> 's \<Rightarrow> ('e, 'a, 's) outcome" where
  "only_if P e f s = (if P then f s else (Inl e, s))"

definition micro_transfers :: "pg_lib \<Rightarrow> 's transfer_repo \<Rightarrow> 's transfer_repo" where
  "micro_transfers lib repo =
     (let ok = (\<lambda>c. canonical_user lib (UserID c)); e = Tr_Err ''outside the contract'' in
      \<lparr>trp_Create = (\<lambda>c t. only_if (ok c \<and> transfer_us t) e (trp_Create repo c t)),
       trp_List = (\<lambda>c ks. only_if (ok c) e (trp_List repo c ks)),
       trp_Get = (\<lambda>c i. only_if (ok c) e (trp_Get repo c i)),
       trp_Update = (\<lambda>c t. only_if (ok c \<and> transfer_us t) e (trp_Update repo c t))\<rparr>)"

lemma pt_table_Some:
  "pt_table db i = Some (t, u) \<longleftrightarrow> (\<exists>r. db_transfers db i = Some r \<and> t = scanTransfer i r \<and> u = coalesce (gt_user_id r))"
  by (auto simp: pt_table_def)

lemma dom_pt_table [simp]: "dom (pt_table db) = dom (db_transfers db)"
  by (auto simp: pt_table_def dom_def)

lemma visible_row:
  assumes "canonical_user lib (UserID c)" and "owner_filter lib (UserID c) = Inr mine" and "pt_invar db"
    and "db_transfers db i = Some r"
  shows "mine (gt_user_id r) \<longleftrightarrow> sees c (coalesce (gt_user_id r))"
  using owner_filter_canonical [OF assms(1,2), of "gt_user_id r"] assms(3,4)
  by (auto simp: pt_invar_def sees_def)

lemma insert_transfer_table:
  assumes "sql_insert_transfer lib u t db = (q, db')" and "canonical_user lib u" and "transfer_us t" "no_urls t"
    and "pt_invar db"
  shows "case q of Inl e \<Rightarrow> db' = db
    | Inr _ \<Rightarrow> pt_invar db' \<and> pt_table db' = (pt_table db)(tr_ID t \<mapsto> (t, u))"
proof (cases q)
  case (Inl e)
  with assms(1) show ?thesis by (auto simp: sql_insert_transfer_def split: if_splits sum.splits)
next
  case (Inr v)
  from assms(1) Inr obtain owner where owner: "sql_nullif_user lib u = Inr owner"
    by (auto simp: sql_insert_transfer_def split: if_splits sum.splits)
  let ?r = "\<lparr>gt_user_id = owner, gt_source = tr_SourceDeviceID t, gt_destination = tr_DestinationDeviceID t,
    gt_kind = tr_Kind t, gt_status = tr_Status t, gt_display_name = nullif (tr_DisplayName t),
    gt_content_type = nullif (tr_ContentType t), gt_size_bytes = tr_SizeBytes t, gt_sha256 = tr_SHA256 t,
    gt_created_at = pg_time (tr_CreatedAt t), gt_updated_at = pg_time (tr_UpdatedAt t), gt_completed_at = None\<rparr>"
  from assms(1) Inr owner have db': "db' = db\<lparr>db_transfers := (db_transfers db)(tr_ID t \<mapsto> ?r)\<rparr>"
    by (auto simp: sql_insert_transfer_def split: if_splits)
  have "scanTransfer (tr_ID t) ?r = t"
    using assms(3,4) by (simp add: scanTransfer_def transfer_us_def whole_us_def no_urls_def)
  with nullif_user_canonical [OF assms(2) owner] assms(5) show ?thesis
    unfolding Inr db' by (auto simp: pt_table_def pt_invar_def fun_eq_iff)
qed

lemma ready_trigger_tables [simp]:
  "db_transfers (ready_trigger lib now i old r db) = db_transfers db"
  "db_devices (ready_trigger lib now i old r db) = db_devices db"
  by (simp_all add: ready_trigger_def set_outbox_def Let_def)

lemma update_transfer_table:
  assumes "sql_update_transfer lib now (UserID c) t db = (q, db')" and "canonical_user lib (UserID c)"
    and "transfer_us t" "no_urls t" and "pt_invar db"
    and "\<And>t0 u. lookup_visible c (tr_ID t) (pt_table db) = Some (t0, u) \<Longrightarrow> same_identity t0 t"
  shows "case q of Inl e \<Rightarrow> db' = db
    | Inr n \<Rightarrow> pt_invar db' \<and> (if n = 0 then db' = db else
        \<exists>t0 u. lookup_visible c (tr_ID t) (pt_table db) = Some (t0, u) \<and>
          pt_table db' = (pt_table db)(tr_ID t \<mapsto> (t, u)))"
proof (cases q)
  case (Inl e)
  with assms(1) show ?thesis
    by (auto simp: sql_update_transfer_def Let_def split: if_splits sum.splits option.splits)
next
  case (Inr n)
  show ?thesis
  proof (cases "n = 0")
    case True
    with assms(1,5) Inr show ?thesis
      by (auto simp: sql_update_transfer_def Let_def split: if_splits sum.splits option.splits)
  next
    case False
    with assms(1) Inr obtain mine r where mine: "owner_filter lib (UserID c) = Inr mine" "mine (gt_user_id r)"
      and r: "db_transfers db (tr_ID t) = Some r"
      and db': "db_transfers db' = (db_transfers db)(tr_ID t \<mapsto> updated_transfer t r)"
      by (auto simp: sql_update_transfer_def Let_def split: if_splits sum.splits option.splits)
    have vis: "lookup_visible c (tr_ID t) (pt_table db) = Some (scanTransfer (tr_ID t) r, coalesce (gt_user_id r))"
      using visible_row [OF assms(2) mine(1) assms(5) r] mine(2) r by (simp add: lookup_visible_Some pt_table_Some)
    from assms(6) [OF vis] assms(3,4) have "scanTransfer (tr_ID t) (updated_transfer t r) = t"
      by (simp add: same_identity_def scanTransfer_def updated_transfer_def transfer_us_def whole_us_def no_urls_def)
    then have "pt_table db' = (pt_table db)(tr_ID t \<mapsto> (t, coalesce (gt_user_id r)))"
      by (auto simp: pt_table_def fun_eq_iff db' updated_transfer_def)
    moreover have "pt_invar db'"
      using assms(5) r by (auto simp: pt_invar_def db' updated_transfer_def)
    ultimately show ?thesis using Inr False vis by simp
  qed
qed

lemma list_transfers_table:
  assumes "owner_filter lib (UserID c) = Inr mine" and "canonical_user lib (UserID c)" and "pt_invar db"
  shows "map (\<lambda>(i, r). scanTransfer i r) (filter (\<lambda>(i, r). mine (gt_user_id r))
      (List.map_filter (\<lambda>i. map_option (Pair i) (db_transfers db i)) ks)) =
    map fst (filter (\<lambda>(t, u). sees c u) (range_values ks (pt_table db)))"
proof (induction ks)
  case (Cons k ks)
  show ?case
  proof (cases "db_transfers db k")
    case None
    with Cons show ?thesis by (simp add: map_filter_simps range_values_Cons pt_table_def)
  next
    case (Some r)
    with Cons visible_row [OF assms(2,1,3) Some] show ?thesis
      by (simp add: map_filter_simps range_values_Cons pt_table_def)
  qed
qed (simp add: map_filter_simps)

context pg_clean begin

lemma listed:
  assumes call: "trp_List (micro_transfers lib (pg_transfers lib env)) c ks s = (rl, s')"
  shows "fst s' = fst s \<and> (pt_invar (fst s) \<longrightarrow> (case rl of Inl e \<Rightarrow> \<exists>m. e = Tr_Err m
    | Inr ts \<Rightarrow> ts = sort_key (\<lambda>t. - tr_CreatedAt t)
        (map fst (filter (\<lambda>(t, u). sees c u) (range_values ks (pt_table (fst s)))))))"
proof (cases "canonical_user lib (UserID c)")
  case False
  with call show ?thesis by (auto simp: micro_transfers_def Let_def only_if_def)
next
  case ok: True
  obtain db x where s: "s = (db, x)" by (rule prod.exhaust)
  obtain q w where ex: "pg_exec env (\<lambda>su. sql_list_transfers lib (UserID c) ks) (db, x) = (q, w)"
    by (rule prod.exhaust)
  from call ok ex have r: "s' = w \<and> rl = (case q of Inl e \<Rightarrow> Inl (Tr_Err (pg_error_text e)) | Inr ts \<Rightarrow> Inr ts)"
    by (auto simp: micro_transfers_def Let_def only_if_def pg_transfers_def pt_List_def s split: sum.splits)
  from pg_exec_cases [OF ex] show ?thesis
  proof (elim disjE exE conjE)
    fix db'
    assume run: "sql_list_transfers lib (UserID c) ks db = (q, db')" "w = (db', snd (env x))"
    with r list_transfers_table [OF _ ok, of _ db ks] show ?thesis
      by (cases "owner_filter lib (UserID c)") (auto simp: s sql_list_transfers_def)
  qed (use r in \<open>simp add: s\<close>)
qed

lemma got:
  assumes call: "trp_Get (micro_transfers lib (pg_transfers lib env)) c i s = (r, s')" and inv: "pt_invar (fst s)"
  shows "fst s' = fst s \<and> ((\<exists>m. r = Inl (Tr_Err m)) \<or>
     r = (case lookup_visible c i (pt_table (fst s)) of None \<Rightarrow> Inl Tr_ErrNotFound | Some (t, u) \<Rightarrow> Inr t))"
proof (cases "canonical_user lib (UserID c)")
  case False
  with call show ?thesis by (auto simp: micro_transfers_def Let_def only_if_def)
next
  case ok: True
  obtain db x where s: "s = (db, x)" by (rule prod.exhaust)
  obtain q w where ex: "pg_exec env (\<lambda>su. sql_get_transfer lib (UserID c) i) (db, x) = (q, w)"
    by (rule prod.exhaust)
  from call ok ex have r: "s' = w \<and> r = (case q of Inl e \<Rightarrow> Inl (Tr_Err (pg_error_text e))
      | Inr None \<Rightarrow> Inl Tr_ErrNotFound | Inr (Some t) \<Rightarrow> Inr t)"
    by (auto simp: micro_transfers_def Let_def only_if_def pg_transfers_def pt_Get_def s
        split: sum.splits option.splits)
  from pg_exec_cases [OF ex] show ?thesis
  proof (elim disjE exE conjE)
    fix db'
    assume run: "sql_get_transfer lib (UserID c) i db = (q, db')" "w = (db', snd (env x))"
    show ?thesis
    proof (cases q)
      case (Inl e)
      with run r show ?thesis by (auto simp: s sql_get_transfer_def split: if_splits sum.splits)
    next
      case (Inr res)
      with run obtain mine where mine: "owner_filter lib (UserID c) = Inr mine" and db': "db' = db"
        and res: "res = (case db_transfers db i of None \<Rightarrow> None
            | Some r \<Rightarrow> if mine (gt_user_id r) then Some (scanTransfer i r) else None)"
        by (auto simp: sql_get_transfer_def split: if_splits sum.splits)
      have "lookup_visible c i (pt_table db) = (case db_transfers db i of None \<Rightarrow> None
          | Some r \<Rightarrow> if mine (gt_user_id r) then Some (scanTransfer i r, coalesce (gt_user_id r)) else None)"
        using visible_row [OF ok mine, of db i] inv
        by (auto simp: lookup_visible_def pt_table_def s split: option.splits)
      with r run Inr res db' show ?thesis by (auto simp: s split: option.splits if_splits)
    qed
  qed (use r in \<open>simp add: s\<close>)
qed

lemma transfer_store_pg:
  "transfer_store (micro_transfers lib (pg_transfers lib env)) (\<lambda>w. pt_table (fst w)) (\<lambda>w. pt_invar (fst w))"
proof unfold_locales
  fix s :: "pg_db \<times> 'x"
  show "keyed (pt_table (fst s))"
    by (auto simp: keyed_def pt_table_Some scanTransfer_def no_urls_def)
next
  fix s :: "pg_db \<times> 'x" and t c r s'
  obtain db x where s: "s = (db, x)" by fastforce
  assume inv: "pt_invar (fst s)" and urls: "no_urls t"
    and call: "trp_Create (micro_transfers lib (pg_transfers lib env)) c t s = (r, s')"
  show "pt_invar (fst s') \<and> (case r of Inl e \<Rightarrow> pt_table (fst s') = pt_table (fst s)
      | Inr t' \<Rightarrow> t' = t \<and> pt_table (fst s') = (pt_table (fst s))(tr_ID t \<mapsto> (t, UserID c)))"
  proof (cases "canonical_user lib (UserID c) \<and> transfer_us t")
    case False
    with call inv show ?thesis by (auto simp: micro_transfers_def Let_def only_if_def)
  next
    case ok: True
    have insert: "pt_invar (fst s2) \<and> (case r of Inl e \<Rightarrow> pt_table (fst s2) = pt_table db
        | Inr t' \<Rightarrow> t' = t \<and> pt_table (fst s2) = (pt_table db)(tr_ID t \<mapsto> (t, UserID c)))"
      if "(case pg_exec env (\<lambda>su. sql_insert_transfer lib (UserID c) t) (db, y) of
            (Inl e, w') \<Rightarrow> (Inl (Tr_Err (pg_error_text e)), w') | (Inr _, w') \<Rightarrow> (Inr t, w')) = (r, s2)" for y s2
    proof -
      obtain q w where ex: "pg_exec env (\<lambda>su. sql_insert_transfer lib (UserID c) t) (db, y) = (q, w)"
        by (rule prod.exhaust)
      from pg_exec_cases [OF ex] insert_transfer_table [of lib "UserID c" t db q "fst w"] ok urls inv that ex
      show ?thesis unfolding s by (cases q) auto
    qed
    show ?thesis
    proof (cases "UserID c = ''''")
      case True
      with call ok have "(case pg_exec env (\<lambda>su. sql_insert_transfer lib (UserID c) t) (db, x) of
            (Inl e, w') \<Rightarrow> (Inl (Tr_Err (pg_error_text e)), w') | (Inr _, w') \<Rightarrow> (Inr t, w')) = (r, s')"
        by (simp add: micro_transfers_def Let_def only_if_def pg_transfers_def pt_Create_def s)
      from insert [OF this] show ?thesis by (simp only: s fst_conv)
    next
      case False
      obtain q w where own: "pg_exec env (\<lambda>su. sql_owns_both lib (tr_SourceDeviceID t) (tr_DestinationDeviceID t)
          (UserID c)) (db, x) = (q, w)" by (rule prod.exhaust)
      have w: "fst w = db"
        using pg_exec_cases [OF own] by (auto simp: sql_owns_both_def split: if_splits sum.splits)
      then obtain y where wy: "w = (db, y)" by (cases w) simp
      show ?thesis
      proof (cases "q = Inr True")
        case True
        with call ok own False have "(case pg_exec env (\<lambda>su. sql_insert_transfer lib (UserID c) t) (db, y) of
            (Inl e, w') \<Rightarrow> (Inl (Tr_Err (pg_error_text e)), w') | (Inr _, w') \<Rightarrow> (Inr t, w')) = (r, s')"
          by (simp add: micro_transfers_def Let_def only_if_def pg_transfers_def pt_Create_def s wy)
        from insert [OF this] show ?thesis by (simp only: s fst_conv)
      next
        case not_owned: False
        with call ok own False have "(\<exists>e. r = Inl e) \<and> s' = w"
          by (cases q) (auto simp: micro_transfers_def Let_def only_if_def pg_transfers_def pt_Create_def s
              split: if_splits)
        with w inv show ?thesis by (auto simp: s)
      qed
    qed
  qed
next
  fix s :: "pg_db \<times> 'x" and c ks rl s'
  obtain db x where s: "s = (db, x)" by (rule prod.exhaust)
  assume "pt_invar (fst s)" and call: "trp_List (micro_transfers lib (pg_transfers lib env)) c ks s = (rl, s')"
  then show "pt_invar (fst s') \<and> pt_table (fst s') = pt_table (fst s)" using listed [OF call] by simp
next
  fix s :: "pg_db \<times> 'x" and c ks rl s'
  assume inv: "pt_invar (fst s)"
    and call: "trp_List (micro_transfers lib (pg_transfers lib env)) c ks s = (rl, s')"
  show "case rl of Inl e \<Rightarrow> \<exists>m. e = Tr_Err m
    | Inr ts \<Rightarrow> mset ts = mset (map fst (filter (\<lambda>(t, u). sees c u) (range_values ks (pt_table (fst s))))) \<and>
        sorted_wrt (\<lambda>x y. tr_CreatedAt y \<le> tr_CreatedAt x) ts"
    using listed [OF call] inv sorted_wrt_sort_key_desc [of tr_CreatedAt] by (auto split: sum.splits)
next
  fix s :: "pg_db \<times> 'x" and c i r s'
  assume inv: "pt_invar (fst s)"
    and call: "trp_Get (micro_transfers lib (pg_transfers lib env)) c i s = (r, s')"
  show "pt_invar (fst s') \<and> pt_table (fst s') = pt_table (fst s) \<and>
    ((\<exists>m. r = Inl (Tr_Err m)) \<or>
     r = (case lookup_visible c i (pt_table (fst s)) of None \<Rightarrow> Inl Tr_ErrNotFound | Some (t, u) \<Rightarrow> Inr t))"
    using got [OF call inv] inv by simp
next
  fix s :: "pg_db \<times> 'x" and t c r s'
  assume inv: "pt_invar (fst s)" and urls: "no_urls t"
    and same: "\<And>t0 u. lookup_visible c (tr_ID t) (pt_table (fst s)) = Some (t0, u) \<Longrightarrow> same_identity t0 t"
    and call: "trp_Update (micro_transfers lib (pg_transfers lib env)) c t s = (r, s')"
  obtain db x where s: "s = (db, x)" by (rule prod.exhaust)
  show "pt_invar (fst s') \<and>
    (case r of Inl e \<Rightarrow> pt_table (fst s') = pt_table (fst s)
     | Inr t' \<Rightarrow> t' = t \<and> (\<exists>t0 u. lookup_visible c (tr_ID t) (pt_table (fst s)) = Some (t0, u) \<and>
         pt_table (fst s') = (pt_table (fst s))(tr_ID t \<mapsto> (t, u))))"
  proof (cases "canonical_user lib (UserID c) \<and> transfer_us t")
    case False
    with call inv show ?thesis by (auto simp: micro_transfers_def Let_def only_if_def)
  next
    case ok: True
    obtain q w where ex: "pg_exec env (\<lambda>su. sql_update_transfer lib (su_now su) (UserID c) t) (db, x) = (q, w)"
      by (rule prod.exhaust)
    from call ok ex have r: "s' = w \<and> (case q of Inl e \<Rightarrow> r = Inl (Tr_Err (pg_error_text e))
        | Inr n \<Rightarrow> r = (if n = 0 then Inl Tr_ErrNotFound else Inr t))"
      by (auto simp: micro_transfers_def Let_def only_if_def pg_transfers_def pt_Update_def s split: sum.splits if_splits)
    from pg_exec_cases [OF ex] show ?thesis
    proof (elim disjE exE conjE)
      fix e
      assume "w = (db, snd (env x))" "q = Inl (ConnError e)"
      with r inv show ?thesis by (simp add: s)
    next
      fix db'
      assume run: "sql_update_transfer lib (su_now (fst (env x))) (UserID c) t db = (q, db')" "w = (db', snd (env x))"
      from update_transfer_table [OF run(1)] ok urls inv same have tab: "case q of Inl e \<Rightarrow> db' = db
        | Inr n \<Rightarrow> pt_invar db' \<and> (if n = 0 then db' = db else
            \<exists>t0 u. lookup_visible c (tr_ID t) (pt_table db) = Some (t0, u) \<and>
              pt_table db' = (pt_table db)(tr_ID t \<mapsto> (t, u)))"
        by (simp add: s)
      with r run(2) inv show ?thesis by (cases q) (auto simp: s split: if_splits)
    qed
  qed
qed

end

end
