(* ===== verification/PgDevices.thy ===== *)
theory PgDevices
  imports PgTransfers
begin

text \<open>
  The PostgreSQL device repository, \<^verbatim>\<open>devices/postgres_repository.go\<close>: its statements and operations. It
  keeps the contract device_store, and a device that transfers refer to cannot be deleted.
\<close>

section \<open>Statements\<close>

definition scanDevice :: "string \<Rightarrow> pg_device \<Rightarrow> Device" where
  "scanDevice i r =
     \<lparr>dv_ID = i, dv_Name = gd_name r, dv_Platform = gd_platform r, dv_PushToken = coalesce (gd_push_token r),
      dv_CreatedAt = gd_created_at r\<rparr>"

definition sql_insert_device :: "pg_lib \<Rightarrow> string \<Rightarrow> Device \<Rightarrow> pg_db \<Rightarrow> (pg_error, unit, pg_db) outcome" where
  "sql_insert_device lib userID d db =
     (if reject_texts lib [dv_ID d, userID, dv_Name d, dv_Platform d, dv_PushToken d]
      then (Inl (SqlState ''22021''), db)
      else case sql_nullif_user lib userID of
        Inl e \<Rightarrow> (Inl e, db)
      | Inr owner \<Rightarrow>
          if dv_Platform d \<notin> {''ios'', ''android''} then (Inl (SqlState ''23514''), db)
          else if dv_ID d \<in> dom (db_devices db) then (Inl (SqlState ''23505''), db)
          else if \<exists>u \<in> set_option owner. u \<notin> dom (db_users db) then (Inl (SqlState ''23503''), db)
          else
            (Inr (), db\<lparr>db_devices := (db_devices db)(dv_ID d \<mapsto>
               \<lparr>gd_user_id = owner, gd_name = dv_Name d, gd_platform = dv_Platform d,
                gd_push_token = nullif (dv_PushToken d), gd_created_at = pg_time (dv_CreatedAt d)\<rparr>)\<rparr>))"

definition sql_list_devices ::
  "pg_lib \<Rightarrow> string \<Rightarrow> string list \<Rightarrow> pg_db \<Rightarrow> (pg_error, Device list, pg_db) outcome" where
  "sql_list_devices lib userID ks db =
     (case owner_filter lib userID of
        Inl e \<Rightarrow> (Inl e, db)
      | Inr mine \<Rightarrow>
          (Inr (sort_key dv_CreatedAt
             (map (\<lambda>(i, r). scanDevice i r) (filter (\<lambda>(i, r). mine (gd_user_id r))
               (List.map_filter (\<lambda>i. map_option (Pair i) (db_devices db i)) ks)))), db))"

text \<open>The rows of one id that belong to the user, for the statements on one device.\<close>

definition sql_one_device ::
  "pg_lib \<Rightarrow> string \<Rightarrow> string list \<Rightarrow> string \<Rightarrow> pg_db \<Rightarrow> (pg_error, pg_device option) result" where
  "sql_one_device lib userID values i db =
     (if reject_texts lib values then Inl (SqlState ''22021'')
      else case owner_filter lib userID of
        Inl e \<Rightarrow> Inl e
      | Inr mine \<Rightarrow>
          Inr (case db_devices db i of None \<Rightarrow> None | Some r \<Rightarrow> if mine (gd_user_id r) then Some r else None))"

definition sql_get_device ::
  "pg_lib \<Rightarrow> string \<Rightarrow> string \<Rightarrow> pg_db \<Rightarrow> (pg_error, Device option, pg_db) outcome" where
  "sql_get_device lib userID i db =
     (case sql_one_device lib userID [i] i db of
        Inl e \<Rightarrow> (Inl e, db)
      | Inr row \<Rightarrow> (Inr (map_option (scanDevice i) row), db))"

definition sql_update_token ::
  "pg_lib \<Rightarrow> string \<Rightarrow> string \<Rightarrow> string \<Rightarrow> pg_db \<Rightarrow> (pg_error, Device option, pg_db) outcome" where
  "sql_update_token lib userID i token db =
     (case sql_one_device lib userID [i, token] i db of
        Inl e \<Rightarrow> (Inl e, db)
      | Inr None \<Rightarrow> (Inr None, db)
      | Inr (Some r) \<Rightarrow>
          let r' = r\<lparr>gd_push_token := nullif token\<rparr> in
          (Inr (Some (scanDevice i r')), db\<lparr>db_devices := (db_devices db)(i \<mapsto> r')\<rparr>))"

text \<open>
  Deleting a row: refused while a transfer refers to the device; its notifications go with it.
\<close>

definition device_in_use :: "string \<Rightarrow> pg_db \<Rightarrow> bool" where
  "device_in_use i db \<longleftrightarrow> (\<exists>t \<in> ran (db_transfers db). gt_source t = i \<or> gt_destination t = i)"

definition sql_delete_device :: "pg_lib \<Rightarrow> string \<Rightarrow> string \<Rightarrow> pg_db \<Rightarrow> (pg_error, nat, pg_db) outcome" where
  "sql_delete_device lib userID i db =
     (case sql_one_device lib userID [i] i db of
        Inl e \<Rightarrow> (Inl e, db)
      | Inr None \<Rightarrow> (Inr 0, db)
      | Inr (Some r) \<Rightarrow>
          if device_in_use i db then (Inl (SqlState ''23503''), db)
          else (Inr 1, db\<lparr>db_devices := (db_devices db)(i := None),
                          db_outbox := filter (\<lambda>n. ob_device_id n \<noteq> i) (db_outbox db)\<rparr>))"

section \<open>The repository\<close>

definition pd_Create ::
  "pg_lib \<Rightarrow> ('x \<Rightarrow> surroundings \<times> 'x) \<Rightarrow> ctx \<Rightarrow> Device \<Rightarrow> pg_db \<times> 'x \<Rightarrow> (device_error, Device, pg_db \<times> 'x) outcome"
where
  "pd_Create lib env c d w =
     (case pg_exec env (\<lambda>su. sql_insert_device lib (UserID c) d) w of
        (Inl e, w') \<Rightarrow> (Inl (Dev_Err (pg_error_text e)), w')
      | (Inr _, w') \<Rightarrow> (Inr d, w'))"

definition pd_List ::
  "pg_lib \<Rightarrow> ('x \<Rightarrow> surroundings \<times> 'x) \<Rightarrow> ctx \<Rightarrow> string list \<Rightarrow> pg_db \<times> 'x \<Rightarrow>
   (device_error, Device list, pg_db \<times> 'x) outcome" where
  "pd_List lib env c ks w =
     (case pg_exec env (\<lambda>su. sql_list_devices lib (UserID c) ks) w of
        (Inl e, w') \<Rightarrow> (Inl (Dev_Err (pg_error_text e)), w')
      | (Inr out, w') \<Rightarrow> (Inr out, w'))"

definition pd_Get ::
  "pg_lib \<Rightarrow> ('x \<Rightarrow> surroundings \<times> 'x) \<Rightarrow> ctx \<Rightarrow> string \<Rightarrow> pg_db \<times> 'x \<Rightarrow> (device_error, Device, pg_db \<times> 'x) outcome"
where
  "pd_Get lib env c i w =
     (case pg_exec env (\<lambda>su. sql_get_device lib (UserID c) i) w of
        (Inl e, w') \<Rightarrow> (Inl (Dev_Err (pg_error_text e)), w')
      | (Inr None, w') \<Rightarrow> (Inl Dev_ErrNotFound, w')
      | (Inr (Some d), w') \<Rightarrow> (Inr d, w'))"

definition pd_UpdatePushToken ::
  "pg_lib \<Rightarrow> ('x \<Rightarrow> surroundings \<times> 'x) \<Rightarrow> ctx \<Rightarrow> string \<Rightarrow> string \<Rightarrow> pg_db \<times> 'x \<Rightarrow>
   (device_error, Device, pg_db \<times> 'x) outcome" where
  "pd_UpdatePushToken lib env c i token w =
     (case pg_exec env (\<lambda>su. sql_update_token lib (UserID c) i token) w of
        (Inl e, w') \<Rightarrow> (Inl (Dev_Err (pg_error_text e)), w')
      | (Inr None, w') \<Rightarrow> (Inl Dev_ErrNotFound, w')
      | (Inr (Some d), w') \<Rightarrow> (Inr d, w'))"

definition pd_Delete ::
  "pg_lib \<Rightarrow> ('x \<Rightarrow> surroundings \<times> 'x) \<Rightarrow> ctx \<Rightarrow> string \<Rightarrow> pg_db \<times> 'x \<Rightarrow> (device_error, unit, pg_db \<times> 'x) outcome"
where
  "pd_Delete lib env c i w =
     (case pg_exec env (\<lambda>su. sql_delete_device lib (UserID c) i) w of
        (Inl e, w') \<Rightarrow> (Inl (Dev_Err (pg_error_text e)), w')
      | (Inr n, w') \<Rightarrow> if n = 0 then (Inl Dev_ErrNotFound, w') else (Inr (), w'))"

definition pg_devices :: "pg_lib \<Rightarrow> ('x \<Rightarrow> surroundings \<times> 'x) \<Rightarrow> (pg_db \<times> 'x) device_repo" where
  "pg_devices lib env =
     \<lparr>dvr_Create = pd_Create lib env, dvr_List = pd_List lib env, dvr_Get = pd_Get lib env,
      dvr_UpdatePushToken = pd_UpdatePushToken lib env, dvr_Delete = pd_Delete lib env\<rparr>"

section \<open>The contract\<close>

definition pd_table :: "pg_db \<Rightarrow> device_table" where
  "pd_table db = (\<lambda>i. map_option (\<lambda>r. (scanDevice i r, coalesce (gd_user_id r))) (db_devices db i))"

definition pd_invar :: "pg_db \<Rightarrow> bool" where
  "pd_invar db \<longleftrightarrow> (\<forall>i r. db_devices db i = Some r \<longrightarrow> gd_user_id r \<noteq> Some '''')"

definition micro_devices :: "pg_lib \<Rightarrow> 's device_repo \<Rightarrow> 's device_repo" where
  "micro_devices lib repo =
     (let ok = (\<lambda>c. canonical_user lib (UserID c)); e = Dev_Err ''outside the contract'' in
      \<lparr>dvr_Create = (\<lambda>c d. only_if (ok c \<and> whole_us (dv_CreatedAt d)) e (dvr_Create repo c d)),
       dvr_List = (\<lambda>c ks. only_if (ok c) e (dvr_List repo c ks)),
       dvr_Get = (\<lambda>c i. only_if (ok c) e (dvr_Get repo c i)),
       dvr_UpdatePushToken = (\<lambda>c i tok. only_if (ok c) e (dvr_UpdatePushToken repo c i tok)),
       dvr_Delete = (\<lambda>c i. only_if (ok c) e (dvr_Delete repo c i))\<rparr>)"

lemma pd_visible:
  assumes "canonical_user lib (UserID c)" and "owner_filter lib (UserID c) = Inr mine" and "pd_invar db"
    and "db_devices db i = Some r"
  shows "mine (gd_user_id r) \<longleftrightarrow> owned_by c (coalesce (gd_user_id r))"
  using owner_filter_canonical [OF assms(1,2), of "gd_user_id r"] assms(3,4)
  by (auto simp: pd_invar_def owned_by_def)

lemma one_device:
  assumes "canonical_user lib (UserID c)" and "pd_invar db" and "sql_one_device lib (UserID c) vs i db = Inr row"
  shows "find_device c i (pd_table db) = map_option (\<lambda>r. (scanDevice i r, coalesce (gd_user_id r))) row"
    "\<And>r. row = Some r \<Longrightarrow> db_devices db i = Some r"
proof -
  from assms(3) obtain mine where mine: "owner_filter lib (UserID c) = Inr mine"
    and row: "row = (case db_devices db i of None \<Rightarrow> None | Some r \<Rightarrow> if mine (gd_user_id r) then Some r else None)"
    by (auto simp: sql_one_device_def split: if_splits sum.splits)
  show "find_device c i (pd_table db) = map_option (\<lambda>r. (scanDevice i r, coalesce (gd_user_id r))) row"
    using pd_visible [OF assms(1) mine assms(2), of i]
    by (auto simp: find_device_def pd_table_def row split: option.splits)
  show "\<And>r. row = Some r \<Longrightarrow> db_devices db i = Some r" using row by (auto split: option.splits if_splits)
qed

lemma insert_device_table:
  assumes "sql_insert_device lib u d db = (q, db')" and "canonical_user lib u" and "whole_us (dv_CreatedAt d)"
    and "pd_invar db"
  shows "pd_invar db' \<and> pd_table db' = (case q of Inl e \<Rightarrow> pd_table db | Inr _ \<Rightarrow> (pd_table db)(dv_ID d \<mapsto> (d, u)))"
proof (cases q)
  case (Inl e)
  with assms(1,4) show ?thesis by (auto simp: sql_insert_device_def split: if_splits sum.splits)
next
  case (Inr v)
  from assms(1) Inr obtain owner where owner: "sql_nullif_user lib u = Inr owner"
    by (auto simp: sql_insert_device_def split: if_splits sum.splits)
  let ?r = "\<lparr>gd_user_id = owner, gd_name = dv_Name d, gd_platform = dv_Platform d,
    gd_push_token = nullif (dv_PushToken d), gd_created_at = pg_time (dv_CreatedAt d)\<rparr>"
  from assms(1) Inr owner have db': "db' = db\<lparr>db_devices := (db_devices db)(dv_ID d \<mapsto> ?r)\<rparr>"
    by (auto simp: sql_insert_device_def split: if_splits)
  have "scanDevice (dv_ID d) ?r = d" using assms(3) by (simp add: scanDevice_def whole_us_def)
  with nullif_user_canonical [OF assms(2) owner] assms(4) show ?thesis
    unfolding Inr db' by (auto simp: pd_table_def pd_invar_def fun_eq_iff)
qed

lemma list_devices_table:
  assumes "owner_filter lib (UserID c) = Inr mine" and "canonical_user lib (UserID c)" and "pd_invar db"
  shows "map (\<lambda>(i, r). scanDevice i r) (filter (\<lambda>(i, r). mine (gd_user_id r))
      (List.map_filter (\<lambda>i. map_option (Pair i) (db_devices db i)) ks)) =
    map fst (filter (\<lambda>(d, u). owned_by c u) (range_values ks (pd_table db)))"
proof (induction ks)
  case (Cons k ks)
  show ?case
  proof (cases "db_devices db k")
    case None
    with Cons show ?thesis by (simp add: map_filter_simps range_values_Cons pd_table_def)
  next
    case (Some r)
    with Cons pd_visible [OF assms(2,1,3) Some] show ?thesis
      by (simp add: map_filter_simps range_values_Cons pd_table_def)
  qed
qed (simp add: map_filter_simps)

lemma update_token_table:
  assumes "sql_update_token lib (UserID c) i tok db = (q, db')" and "canonical_user lib (UserID c)" and "pd_invar db"
  shows "pd_invar db' \<and> (case q of
      Inl e \<Rightarrow> pd_table db' = pd_table db
    | Inr None \<Rightarrow> find_device c i (pd_table db) = None \<and> pd_table db' = pd_table db
    | Inr (Some d') \<Rightarrow> \<exists>d u. find_device c i (pd_table db) = Some (d, u) \<and> d' = d\<lparr>dv_PushToken := tok\<rparr> \<and>
        pd_table db' = (pd_table db)(i \<mapsto> (d', u)))"
proof (cases "sql_one_device lib (UserID c) [i, tok] i db")
  case (Inl e)
  with assms(1,3) show ?thesis by (auto simp: sql_update_token_def)
next
  case (Inr row)
  note row = one_device [OF assms(2,3) Inr]
  show ?thesis
  proof (cases row)
    case None
    with assms(1,3) Inr row show ?thesis by (auto simp: sql_update_token_def)
  next
    case (Some r)
    let ?r = "r\<lparr>gd_push_token := nullif tok\<rparr>"
    from assms(1) Inr Some have q: "q = Inr (Some (scanDevice i ?r))"
      and db': "db' = db\<lparr>db_devices := (db_devices db)(i \<mapsto> ?r)\<rparr>"
      by (auto simp: sql_update_token_def Let_def)
    have scan: "scanDevice i ?r = (scanDevice i r)\<lparr>dv_PushToken := tok\<rparr>" by (simp add: scanDevice_def)
    have "pd_table db' = (pd_table db)(i \<mapsto> (scanDevice i ?r, coalesce (gd_user_id r)))"
      by (auto simp: pd_table_def fun_eq_iff db')
    moreover have "pd_invar db'" using assms(3) row(2) [OF Some] by (auto simp: pd_invar_def db')
    ultimately show ?thesis using row(1) Some q scan by simp
  qed
qed

lemma delete_device_table:
  assumes "sql_delete_device lib (UserID c) i db = (q, db')" and "canonical_user lib (UserID c)" and "pd_invar db"
  shows "pd_invar db' \<and> (case q of
      Inl e \<Rightarrow> pd_table db' = pd_table db
    | Inr n \<Rightarrow> if n = 0 then find_device c i (pd_table db) = None \<and> pd_table db' = pd_table db
        else find_device c i (pd_table db) \<noteq> None \<and> pd_table db' = (pd_table db)(i := None))"
proof (cases "sql_one_device lib (UserID c) [i] i db")
  case (Inl e)
  with assms(1,3) show ?thesis by (auto simp: sql_delete_device_def)
next
  case (Inr row)
  note row = one_device [OF assms(2,3) Inr]
  show ?thesis
  proof (cases row)
    case None
    with assms(1,3) Inr row show ?thesis by (auto simp: sql_delete_device_def)
  next
    case (Some r)
    show ?thesis
    proof (cases "device_in_use i db")
      case True
      with assms(1,3) Inr Some show ?thesis by (auto simp: sql_delete_device_def)
    next
      case False
      with assms(1) Inr Some have "q = Inr 1" and db': "db_devices db' = (db_devices db)(i := None)"
        by (auto simp: sql_delete_device_def)
      moreover have "pd_table db' = (pd_table db)(i := None)" by (auto simp: pd_table_def fun_eq_iff db')
      moreover have "pd_invar db'" using assms(3) by (auto simp: pd_invar_def db')
      ultimately show ?thesis using row(1) Some by simp
    qed
  qed
qed

end
