(* ===== verification/PgTransferProps.thy ===== *)
theory PgTransferProps
  imports PgTransfers DeliveryProps
begin

text \<open>
  The properties of the PostgreSQL transfer repository: it keeps the contract of a transfer store, and a
  transfer that becomes ready queues a push notification.
\<close>

section \<open>The contract\<close>

text \<open>
  C10: the PostgreSQL transfer repository implements the transfer store. As long as no statement takes effect
  and loses its reply, and for calls with canonical user ids and times of whole microseconds, its operations
  keep the contract the service is proved against: a failed operation changes no transfer, Get, Update and
  List see exactly the transfers visible to the user, and Create and Update store the transfer they are given.
\<close>

theorem pg_transfers_implement_store:
  assumes "\<And>x e. su_fault (fst (env x)) \<noteq> LostReply e"
  shows "transfer_store (micro_transfers lib (pg_transfers lib env)) (\<lambda>w. pt_table (fst w)) (\<lambda>w. pt_invar (fst w))"
  by (rule pg_clean.transfer_store_pg, unfold_locales) (use assms in auto)

definition plain_lib :: pg_lib where
  "plain_lib = \<lparr>pl_uuid = (\<lambda>s. if length s = 36 then Some s else None), pl_gen_uuid = (\<lambda>b. replicate 36 CHR ''0''),
     pl_text = (\<lambda>s. True), pl_payload = (\<lambda>i k n. ''{}'')\<rparr>"

theorem pg_transfers_implement_store_witness:
  "transfer_store (micro_transfers plain_lib (pg_transfers plain_lib still_env))
     (\<lambda>w. pt_table (fst w)) (\<lambda>w. pt_invar (fst w))"
  by (rule pg_transfers_implement_store) (simp add: still_env_def)

section \<open>Notifications of ready transfers\<close>

definition announces :: "string \<Rightarrow> string \<Rightarrow> outbox_row \<Rightarrow> bool" where
  "announces device i row \<longleftrightarrow> ob_device_id row = device \<and> ob_transfer_id row = i \<and>
     ob_event_type row = ''transfer.ready''"

lemma enqueue_ready_rows:
  assumes "od_devices o1 device = Some (p, Some tok)" and "tok \<noteq> ''''"
  shows "(\<exists>row \<in> set (od_rows o1). announces device i row) \<and> enqueue_ready now n device i payload o1 = o1 \<or>
    (\<exists>row. od_rows (enqueue_ready now n device i payload o1) = od_rows o1 @ [row] \<and> announces device i row \<and>
       open_row row \<and> ob_attempts row = 0 \<and> ob_available_at row = now \<and> ob_locked_at row = None)"
  using assms by (auto simp: enqueue_ready_def announces_def open_row_def split: if_splits)

lemma update_to_ready_queues:
  assumes "sql_update_transfer lib now u t db = (Inr n, db')" and "n \<noteq> 0" and "tr_Status t = StatusReady"
    and "db_transfers db (tr_ID t) = Some r" and "gt_status r \<noteq> StatusReady"
    and "db_devices db (gt_destination r) = Some d" and "gd_push_token d = Some tok" "tok \<noteq> ''''"
  shows "(\<exists>row \<in> set (db_outbox db). announces (gt_destination r) (tr_ID t) row) \<and> db_outbox db' = db_outbox db \<or>
    (\<exists>row. db_outbox db' = db_outbox db @ [row] \<and> announces (gt_destination r) (tr_ID t) row \<and>
       open_row row \<and> ob_attempts row = 0 \<and> ob_available_at row = now \<and> ob_locked_at row = None)"
proof -
  let ?r = "updated_transfer t r"
  let ?db = "db\<lparr>db_transfers := (db_transfers db)(tr_ID t \<mapsto> ?r)\<rparr>"
  let ?rows = "od_rows (enqueue_ready now (db_outbox_seq ?db + 1) (gt_destination r) (tr_ID t)
    (pl_payload lib (tr_ID t) (gt_kind ?r) (coalesce (gt_display_name ?r))) (outbox_of ?db))"
  have "db' = ready_trigger lib now (tr_ID t) r ?r ?db"
    using assms(1,2,4) by (auto simp: sql_update_transfer_def Let_def split: if_splits sum.splits)
  moreover have "gt_status ?r = StatusReady" "gt_destination ?r = gt_destination r"
    using assms(3) by (simp_all add: updated_transfer_def)
  ultimately have rows: "db_outbox db' = ?rows"
    using assms(5) by (simp add: ready_trigger_def set_outbox_def Let_def)
  have "od_devices (outbox_of ?db) (gt_destination r) = Some (gd_platform d, Some tok)"
    using assms(6,7) by (simp add: outbox_of_def)
  note queued = enqueue_ready_rows [OF this assms(8), of "tr_ID t" now "db_outbox_seq ?db + 1"
      "pl_payload lib (tr_ID t) (gt_kind ?r) (coalesce (gt_display_name ?r))"]
  have "od_rows (outbox_of ?db) = db_outbox db" by (simp add: outbox_of_def)
  with queued show ?thesis unfolding rows by (elim disjE) simp_all
qed


section \<open>A concrete database\<close>

definition digest64 :: string where
  "digest64 = replicate 64 CHR ''a''"

definition pg_device_row :: pg_device where
  "pg_device_row = \<lparr>gd_user_id = None, gd_name = ''n'', gd_platform = ''ios'', gd_push_token = Some ''tok'',
     gd_created_at = 0\<rparr>"

definition pg_upload_row :: pg_transfer where
  "pg_upload_row = \<lparr>gt_user_id = None, gt_source = ''a'', gt_destination = ''b'', gt_kind = ''text'',
     gt_status = StatusUploading, gt_display_name = None, gt_content_type = None, gt_size_bytes = 3,
     gt_sha256 = digest64, gt_created_at = 0, gt_updated_at = 0, gt_completed_at = None\<rparr>"

definition pg_upload_db :: pg_db where
  "pg_upload_db = \<lparr>db_users = Map.empty, db_refresh = Map.empty,
     db_devices = [''a'' \<mapsto> pg_device_row, ''b'' \<mapsto> pg_device_row], db_transfers = [''t'' \<mapsto> pg_upload_row],
     db_outbox = [], db_outbox_seq = 0\<rparr>"

definition pg_service :: "(pg_db \<times> instant) transfer_service" where
  "pg_service = \<lparr>ts_repo = pg_transfers plain_lib still_env,
     ts_urls = \<lparr>urls_UploadURL = (\<lambda>c i ct. Inr ''''), urls_DownloadURL = (\<lambda>c i. Inr ''u''),
       urls_InspectUploaded = (\<lambda>c i. Inr (3, digest64))\<rparr>\<rparr>"

definition pg_marked :: "(transfer_error, Transfer, pg_db \<times> instant) outcome \<times> publication list" where
  "pg_marked = transfers_MarkUploaded pg_service (5 * second) background ''t'' (pg_upload_db, 5 * second)"

lemma digest64_ok: "EqualFold digest64 digest64" "checksumPattern digest64"
  by (simp_all add: EqualFold_def digest64_def checksumPattern_def is_hex_digit_def hex_value_def list_all_iff)

definition pg_marked_transfer :: Transfer where
  "pg_marked_transfer = (scanTransfer ''t'' pg_upload_row)
     \<lparr>tr_Status := StatusReady, tr_UploadURL := '''', tr_DownloadURL := ''u'', tr_UpdatedAt := 5 * second\<rparr>"

lemma pg_marked_ok: "fst (fst pg_marked) = Inr pg_marked_transfer"
  using digest64_ok
  by (simp add: pg_marked_def transfers_MarkUploaded_def pg_service_def pg_transfers_def pt_Get_def pg_exec_def
      still_env_def sql_get_transfer_def reject_texts_def plain_lib_def owner_filter_def pg_upload_db_def
      markUploaded_check_def scanTransfer_def pg_upload_row_def markUploaded_commit_def pt_Update_def
      sql_update_transfer_def pg_marked_transfer_def Let_def split: prod.split)


end
