(* ===== verification/PgDeviceProps.thy ===== *)
theory PgDeviceProps
  imports PgDevices PgTransferProps Handlers
begin

text \<open>
  The PostgreSQL device repository keeps the contract of a device store.
\<close>

context pg_clean begin

lemma pg_exec_run:
  assumes "pg_exec env stmt w = (q, w')"
  shows "(\<exists>e. q = Inl (ConnError e)) \<and> fst w' = fst w \<or> (\<exists>su. stmt su (fst w) = (q, fst w'))"
  using pg_exec_cases [of stmt "fst w" "snd w" q w'] assms by auto

lemma device_store_pg:
  "device_store (micro_devices lib (pg_devices lib env)) (\<lambda>w. pd_table (fst w)) (\<lambda>w. pd_invar (fst w))"
proof unfold_locales
  fix s :: "pg_db \<times> 'x" and i d u
  assume "pd_table (fst s) i = Some (d, u)"
  then show "dv_ID d = i" by (auto simp: pd_table_def scanDevice_def)
next
  fix s :: "pg_db \<times> 'x" and c d r s'
  assume inv: "pd_invar (fst s)" and call: "dvr_Create (micro_devices lib (pg_devices lib env)) c d s = (r, s')"
  obtain q w where ex: "pg_exec env (\<lambda>su. sql_insert_device lib (UserID c) d) s = (q, w)" by (rule prod.exhaust)
  show "pd_invar (fst s') \<and> (case r of Inl e \<Rightarrow> pd_table (fst s') = pd_table (fst s)
      | Inr d' \<Rightarrow> d' = d \<and> pd_table (fst s') = (pd_table (fst s))(dv_ID d \<mapsto> (d, UserID c)))"
  proof (cases "canonical_user lib (UserID c) \<and> whole_us (dv_CreatedAt d)")
    case False
    with call inv show ?thesis by (auto simp: micro_devices_def Let_def only_if_def)
  next
    case ok: True
    with call ex have r: "s' = w" "(\<exists>e. q = Inl e) \<and> (\<exists>e. r = Inl e) \<or> (\<exists>v. q = Inr v) \<and> r = Inr d"
      by (auto simp: micro_devices_def Let_def only_if_def pg_devices_def pd_Create_def split: sum.splits)
    from pg_exec_run [OF ex] insert_device_table [of lib "UserID c" d "fst s" q "fst w"] ok inv r
    show ?thesis by (auto split: sum.splits)
  qed
next
  fix s :: "pg_db \<times> 'x" and c ks rl s'
  assume inv: "pd_invar (fst s)" and call: "dvr_List (micro_devices lib (pg_devices lib env)) c ks s = (rl, s')"
  have "fst s' = fst s \<and> (case rl of Inl e \<Rightarrow> \<exists>m. e = Dev_Err m
    | Inr ds \<Rightarrow> ds = sort_key dv_CreatedAt
        (map fst (filter (\<lambda>(d, u). owned_by c u) (range_values ks (pd_table (fst s))))))"
  proof (cases "canonical_user lib (UserID c)")
    case False
    with call show ?thesis by (auto simp: micro_devices_def Let_def only_if_def)
  next
    case ok: True
    obtain q w where ex: "pg_exec env (\<lambda>su. sql_list_devices lib (UserID c) ks) s = (q, w)" by (rule prod.exhaust)
    from call ok ex have r: "s' = w" "rl = (case q of Inl e \<Rightarrow> Inl (Dev_Err (pg_error_text e)) | Inr ds \<Rightarrow> Inr ds)"
      by (auto simp: micro_devices_def Let_def only_if_def pg_devices_def pd_List_def split: sum.splits)
    from pg_exec_run [OF ex] show ?thesis
    proof (elim disjE exE conjE)
      fix su
      assume "sql_list_devices lib (UserID c) ks (fst s) = (q, fst w)"
      with r list_devices_table [OF _ ok inv, of _ ks] show ?thesis
        by (cases "owner_filter lib (UserID c)") (auto simp: sql_list_devices_def)
    qed (use r in simp)
  qed
  with inv sorted_wrt_sort_key_asc [of dv_CreatedAt] show "pd_invar (fst s') \<and> pd_table (fst s') = pd_table (fst s)"
    "case rl of Inl e \<Rightarrow> \<exists>m. e = Dev_Err m
     | Inr ds \<Rightarrow> mset ds = mset (map fst (filter (\<lambda>(d, u). owned_by c u) (range_values ks (pd_table (fst s))))) \<and>
         sorted_wrt (\<lambda>x y. dv_CreatedAt x \<le> dv_CreatedAt y) ds"
    by (auto split: sum.splits)
next
  fix s :: "pg_db \<times> 'x" and c i r s'
  assume inv: "pd_invar (fst s)" and call: "dvr_Get (micro_devices lib (pg_devices lib env)) c i s = (r, s')"
  show "pd_invar (fst s') \<and> pd_table (fst s') = pd_table (fst s) \<and>
    ((\<exists>m. r = Inl (Dev_Err m)) \<or>
     r = (case find_device c i (pd_table (fst s)) of None \<Rightarrow> Inl Dev_ErrNotFound | Some (d, u) \<Rightarrow> Inr d))"
  proof (cases "canonical_user lib (UserID c)")
    case False
    with call inv show ?thesis by (auto simp: micro_devices_def Let_def only_if_def)
  next
    case ok: True
    obtain q w where ex: "pg_exec env (\<lambda>su. sql_get_device lib (UserID c) i) s = (q, w)" by (rule prod.exhaust)
    from call ok ex have r: "s' = w" "r = (case q of Inl e \<Rightarrow> Inl (Dev_Err (pg_error_text e))
        | Inr None \<Rightarrow> Inl Dev_ErrNotFound | Inr (Some d) \<Rightarrow> Inr d)"
      by (auto simp: micro_devices_def Let_def only_if_def pg_devices_def pd_Get_def split: sum.splits option.splits)
    from pg_exec_run [OF ex] show ?thesis
    proof (elim disjE exE conjE)
      fix su
      assume run: "sql_get_device lib (UserID c) i (fst s) = (q, fst w)"
      show ?thesis
      proof (cases "sql_one_device lib (UserID c) [i] i (fst s)")
        case (Inl e)
        with run r inv show ?thesis by (auto simp: sql_get_device_def)
      next
        case (Inr row)
        from one_device(1) [OF ok inv Inr] run r Inr inv show ?thesis
          by (cases row) (auto simp: sql_get_device_def)
      qed
    qed (use r inv in simp)
  qed
next
  fix s :: "pg_db \<times> 'x" and c i tok r s'
  assume inv: "pd_invar (fst s)"
    and call: "dvr_UpdatePushToken (micro_devices lib (pg_devices lib env)) c i tok s = (r, s')"
  show "pd_invar (fst s') \<and> (pd_table (fst s') = pd_table (fst s) \<and> (\<exists>m. r = Inl (Dev_Err m)) \<or>
     (case find_device c i (pd_table (fst s)) of
        None \<Rightarrow> r = Inl Dev_ErrNotFound \<and> pd_table (fst s') = pd_table (fst s)
      | Some (d, u) \<Rightarrow> r = Inr (d\<lparr>dv_PushToken := tok\<rparr>) \<and>
          pd_table (fst s') = (pd_table (fst s))(i \<mapsto> (d\<lparr>dv_PushToken := tok\<rparr>, u))))"
  proof (cases "canonical_user lib (UserID c)")
    case False
    with call inv show ?thesis by (auto simp: micro_devices_def Let_def only_if_def)
  next
    case ok: True
    obtain q w where ex: "pg_exec env (\<lambda>su. sql_update_token lib (UserID c) i tok) s = (q, w)"
      by (rule prod.exhaust)
    from call ok ex have r: "s' = w" "r = (case q of Inl e \<Rightarrow> Inl (Dev_Err (pg_error_text e))
        | Inr None \<Rightarrow> Inl Dev_ErrNotFound | Inr (Some d) \<Rightarrow> Inr d)"
      by (auto simp: micro_devices_def Let_def only_if_def pg_devices_def pd_UpdatePushToken_def
          split: sum.splits option.splits)
    from pg_exec_run [OF ex] update_token_table [OF _ ok inv, of i tok q "fst w"] r inv show ?thesis
      by (auto split: sum.splits option.splits)
  qed
next
  fix s :: "pg_db \<times> 'x" and c i ru s'
  assume inv: "pd_invar (fst s)" and call: "dvr_Delete (micro_devices lib (pg_devices lib env)) c i s = (ru, s')"
  show "pd_invar (fst s') \<and> (pd_table (fst s') = pd_table (fst s) \<and> (\<exists>m. ru = Inl (Dev_Err m)) \<or>
     (case find_device c i (pd_table (fst s)) of
        None \<Rightarrow> ru = Inl Dev_ErrNotFound \<and> pd_table (fst s') = pd_table (fst s)
      | Some (d, u) \<Rightarrow> ru = Inr () \<and> pd_table (fst s') = (pd_table (fst s))(i := None)))"
  proof (cases "canonical_user lib (UserID c)")
    case False
    with call inv show ?thesis by (auto simp: micro_devices_def Let_def only_if_def)
  next
    case ok: True
    obtain q w where ex: "pg_exec env (\<lambda>su. sql_delete_device lib (UserID c) i) s = (q, w)" by (rule prod.exhaust)
    from call ok ex have r: "s' = w" "ru = (case q of Inl e \<Rightarrow> Inl (Dev_Err (pg_error_text e))
        | Inr n \<Rightarrow> if n = 0 then Inl Dev_ErrNotFound else Inr ())"
      by (auto simp: micro_devices_def Let_def only_if_def pg_devices_def pd_Delete_def
          split: sum.splits if_splits)
    from pg_exec_run [OF ex] delete_device_table [OF _ ok inv, of i q "fst w"] r inv show ?thesis
      by (auto split: sum.splits option.splits if_splits)
  qed
qed

end



end
