(* ===== verification/PgAuthProps.thy ===== *)
theory PgAuthProps
  imports PgAuth PgDeviceProps "HOL-Library.Char_ord" "HOL-Library.List_Lexorder"
begin

text \<open>
  The PostgreSQL user and token repository keeps the contract of an auth store.
\<close>

section \<open>Abstraction\<close>

definition email_rows :: "(pg_db \<Rightarrow> string list) \<Rightarrow> pg_db \<Rightarrow> string \<Rightarrow> User list" where
  "email_rows ids db email = List.map_filter (\<lambda>i. case db_users db i of None \<Rightarrow> None
     | Some r \<Rightarrow> if gu_email r = email then Some (scanUser i r) else None) (ids db)"

definition pa_users :: "(pg_db \<Rightarrow> string list) \<Rightarrow> pg_db \<Rightarrow> string \<rightharpoonup> User" where
  "pa_users ids db email = (case email_rows ids db email of [] \<Rightarrow> None | u # us \<Rightarrow> Some u)"

text \<open>What the schema keeps: finitely many users, one for each address; canonical user ids in the tokens.\<close>

definition wf_auth :: "pg_lib \<Rightarrow> pg_db \<Rightarrow> bool" where
  "wf_auth lib db \<longleftrightarrow> finite (dom (db_users db)) \<and>
     (\<forall>i j r s. db_users db i = Some r \<longrightarrow> db_users db j = Some s \<longrightarrow> gu_email r = gu_email s \<longrightarrow> i = j) \<and>
     (\<forall>r \<in> ran (db_refresh db). pl_uuid lib (rr_userID r) \<in> {None, Some (rr_userID r)})"

definition micro_auth :: "pg_lib \<Rightarrow> (pg_db \<times> 'x) auth_repo \<Rightarrow> (pg_db \<times> 'x) auth_repo" where
  "micro_auth lib repo =
     (let e = Auth_Err ''outside the contract''; ok = (\<lambda>w. wf_auth lib (fst w)) in
      \<lparr>ar_CreateUser = (\<lambda>now rnd email hash w. only_if (ok w) e (ar_CreateUser repo now rnd email hash) w),
       ar_GetUserByEmail = (\<lambda>email w. only_if (ok w) e (ar_GetUserByEmail repo email) w),
       ar_CreateRefresh = (\<lambda>u fam h t w.
         only_if (ok w \<and> canonical_user lib u \<and> char64 h = Some h \<and> whole_us t) e
           (ar_CreateRefresh repo u fam h t) w),
       ar_RotateRefresh = (\<lambda>h h' t now w.
         only_if (ok w \<and> char64 h = Some h \<and> char64 h' = Some h' \<and> whole_us t \<and> whole_us now) e
           (ar_RotateRefresh repo h h' t now) w)\<rparr>)"

definition lists_users :: "(pg_db \<Rightarrow> string list) \<Rightarrow> bool" where
  "lists_users ids \<longleftrightarrow> (\<forall>db. finite (dom (db_users db)) \<longrightarrow> set (ids db) = dom (db_users db))"

lemma set_email_rows:
  "u \<in> set (email_rows ids db email) \<longleftrightarrow>
     (\<exists>i \<in> set (ids db). \<exists>r. db_users db i = Some r \<and> gu_email r = email \<and> u = scanUser i r)"
proof -
  have mem: "y \<in> set (List.map_filter f xs) \<longleftrightarrow> (\<exists>x \<in> set xs. f x = Some y)" for y f and xs :: "string list"
    by (induction xs) (auto simp: map_filter_simps split: option.splits)
  have one: "(case db_users db i of None \<Rightarrow> None
      | Some r \<Rightarrow> if gu_email r = email then Some (scanUser i r) else None) = Some u \<longleftrightarrow>
      (\<exists>r. db_users db i = Some r \<and> gu_email r = email \<and> u = scanUser i r)" for i
    by (cases "db_users db i") auto
  show ?thesis unfolding email_rows_def mem one ..
qed

lemma pa_users_Some:
  assumes "lists_users ids" and "wf_auth lib db"
  shows "pa_users ids db email = Some u \<longleftrightarrow>
    (\<exists>i r. db_users db i = Some r \<and> gu_email r = email \<and> u = scanUser i r)"
proof -
  have ids: "set (ids db) = dom (db_users db)" using assms by (simp add: lists_users_def wf_auth_def)
  have mem: "v \<in> set (email_rows ids db email) \<longleftrightarrow>
      (\<exists>i r. db_users db i = Some r \<and> gu_email r = email \<and> v = scanUser i r)" for v
    unfolding set_email_rows ids by (auto simp: dom_def)
  have one: "v = v'" if "v \<in> set (email_rows ids db email)" "v' \<in> set (email_rows ids db email)" for v v'
    using that assms(2) unfolding mem wf_auth_def by (metis option.inject)
  show ?thesis
  proof (cases "email_rows ids db email")
    case Nil
    with mem show ?thesis by (auto simp: pa_users_def)
  next
    case (Cons v vs)
    have "u = v \<longleftrightarrow> u \<in> set (email_rows ids db email)" using one [of u v] Cons by auto
    moreover have "pa_users ids db email = Some u \<longleftrightarrow> u = v" by (auto simp: pa_users_def Cons)
    ultimately show ?thesis by (simp only: mem)
  qed
qed

lemma pa_users_None:
  assumes "lists_users ids" and "wf_auth lib db"
  shows "pa_users ids db email = None \<longleftrightarrow> (\<forall>r \<in> ran (db_users db). gu_email r \<noteq> email)"
proof
  assume none: "pa_users ids db email = None"
  show "\<forall>r \<in> ran (db_users db). gu_email r \<noteq> email"
  proof
    fix r
    assume "r \<in> ran (db_users db)"
    then obtain i where "db_users db i = Some r" by (auto simp: ran_def)
    with none pa_users_Some [OF assms, of email "scanUser i r"] show "gu_email r \<noteq> email" by auto
  qed
next
  assume "\<forall>r \<in> ran (db_users db). gu_email r \<noteq> email"
  with pa_users_Some [OF assms, of email] show "pa_users ids db email = None"
    by (cases "pa_users ids db email") (auto simp: ran_def)
qed

lemma option_eq_by_Some: "(\<And>v. x = Some v \<longleftrightarrow> y = Some v) \<Longrightarrow> x = y"
  by (metis not_Some_eq)

lemma insert_user_table:
  assumes "sql_insert_user lib now rnd email hash db = (Inr u, db')" and "lists_users ids" and "wf_auth lib db"
  shows "email \<notin> dom (pa_users ids db) \<and> us_Email u = email \<and> us_PasswordHash u = hash \<and>
    pa_users ids db' = (pa_users ids db)(email \<mapsto> u) \<and> db_refresh db' = db_refresh db \<and> wf_auth lib db'"
proof -
  from assms(1) obtain b where b: "rnd = Inr b" "pl_gen_uuid lib b \<notin> dom (db_users db)"
    "\<forall>r \<in> ran (db_users db). gu_email r \<noteq> email"
    by (auto simp: sql_insert_user_def Let_def split: if_splits sum.splits)
  let ?i = "pl_gen_uuid lib b"
  let ?r = "\<lparr>gu_email = email, gu_password_hash = hash, gu_created_at = pg_time now\<rparr>"
  from assms(1) b have u: "u = scanUser ?i ?r" and db': "db' = db\<lparr>db_users := (db_users db)(?i \<mapsto> ?r)\<rparr>"
    by (auto simp: sql_insert_user_def Let_def split: if_splits)
  have wf': "wf_auth lib db'"
    using assms(3) b(2,3) unfolding wf_auth_def db' by (auto simp: ran_def)
  have "pa_users ids db' e = ((pa_users ids db)(email \<mapsto> u)) e" for e
  proof (rule option_eq_by_Some)
    fix v
    have "(\<exists>j r. ((db_users db)(?i \<mapsto> ?r)) j = Some r \<and> gu_email r = e \<and> v = scanUser j r) \<longleftrightarrow>
        (if e = email then v = u else \<exists>j r. db_users db j = Some r \<and> gu_email r = e \<and> v = scanUser j r)"
      using b(2,3) u by (auto simp: ran_def dom_def) (metis option.distinct(1))+
    then show "pa_users ids db' e = Some v \<longleftrightarrow> ((pa_users ids db)(email \<mapsto> u)) e = Some v"
      using pa_users_Some [OF assms(2) wf', of e v] pa_users_Some [OF assms(2,3), of e v] by (auto simp: db')
  qed
  with pa_users_None [OF assms(2,3), of email] b(3) u wf' show ?thesis
    by (auto simp: scanUser_def db' fun_eq_iff)
qed

lemma insert_user_fails: "sql_insert_user lib now rnd email hash db = (Inl e, db') \<Longrightarrow> db' = db"
  by (auto simp: sql_insert_user_def Let_def split: if_splits sum.splits)

lemma user_by_email:
  "sql_user_by_email lib (ids db) email db =
    (if reject_texts lib [email] then (Inl (SqlState ''22021''), db) else (Inr (pa_users ids db email), db))"
  by (simp add: sql_user_by_email_def pa_users_def email_rows_def)

text \<open>The users are listed the same way whatever the tokens are.\<close>

lemma wf_auth_users:
  assumes "wf_auth lib db" and "db_users db' = db_users db"
  shows "\<exists>lib'. wf_auth lib' db'"
  using assms by (intro exI [of _ "lib\<lparr>pl_uuid := Some\<rparr>"]) (simp add: wf_auth_def)

lemma pa_users_same:
  assumes "lists_users ids" and "wf_auth lib db" and "db_users db' = db_users db"
  shows "pa_users ids db' = pa_users ids db"
proof
  fix email
  show "pa_users ids db' email = pa_users ids db email"
  proof (rule option_eq_by_Some)
    fix v
    obtain lib' :: pg_lib where lib': "wf_auth lib' db'"
      using wf_auth_users [OF assms(2,3)] by blast
    show "pa_users ids db' email = Some v \<longleftrightarrow> pa_users ids db email = Some v"
      unfolding pa_users_Some [OF assms(1) lib'] pa_users_Some [OF assms(1,2)] assms(3) ..
  qed
qed

section \<open>Refresh tokens\<close>

lemma insert_refresh_fails: "sql_insert_refresh lib h u fam t db = (Inl e, db') \<Longrightarrow> db' = db"
  by (auto simp: sql_insert_refresh_def Let_def split: if_splits sum.splits option.splits)

lemma insert_refresh_table:
  assumes "sql_insert_refresh lib h u fam t db = (Inr v, db')" and "char64 h = Some h" and "whole_us t"
    and "pl_uuid lib u \<in> {None, Some u}"
  shows "db_users db' = db_users db \<and> db_refresh db' = (db_refresh db)(h \<mapsto> new_row u fam t) \<and>
    pl_uuid lib u = Some u \<and> h \<notin> dom (db_refresh db)"
  using assms by (auto simp: sql_insert_refresh_def sql_user_def whole_us_def split: if_splits option.splits)

lemma revoke_family_table:
  assumes "whole_us now"
  shows "sql_revoke_family fam now db =
    (Inr (), db\<lparr>db_refresh := map_option (revoke_row fam now) \<circ> db_refresh db\<rparr>)"
proof -
  have "(if rr_familyID r = fam then r\<lparr>rr_revokedAt := (case rr_revokedAt r of None \<Rightarrow> Some (pg_time now)
      | Some t \<Rightarrow> Some t)\<rparr> else r) = revoke_row fam now r" for r
    using assms by (cases "rr_revokedAt r") (auto simp: revoke_row_def whole_us_def)
  then show ?thesis by (simp add: sql_revoke_family_def)
qed

lemma mark_used_table:
  assumes "whole_us now" and "char64 h = Some h" and "db_refresh db h = Some r"
  shows "sql_mark_used h now db = (Inr (), db\<lparr>db_refresh := (db_refresh db)(h \<mapsto> r\<lparr>rr_usedAt := Some now\<rparr>)\<rparr>)"
  using assms by (simp add: sql_mark_used_def whole_us_def)

lemma au_error_Auth_Err: "\<exists>m. au_error e = Auth_Err m"
  by (simp add: au_error_def)

lemma select_refresh_table:
  assumes "sql_select_refresh lib h db = (q, db')" and "char64 h = Some h"
  shows "db' = db \<and> ((\<exists>e. q = Inl e) \<or> q = Inr (db_refresh db h))"
  using assms by (auto simp: sql_select_refresh_def split: if_splits)

section \<open>The contract\<close>

context pg_clean begin

lemma tx_commit_run:
  assumes "tx_commit env new w = (q, w')"
  shows "(\<exists>e. q = Inl e) \<and> fst w' = fst w \<or> q = Inr () \<and> fst w' = new"
  using pg_exec_run [OF assms [unfolded tx_commit_def]] by auto

lemma rotate_unused:
  assumes T: "db_refresh db h = Some r" and live: "rr_revokedAt r = None" "now < rr_expiresAt r" "rr_usedAt r = None"
    and ok: "char64 h = Some h" "char64 h' = Some h'" "whole_us t" "whole_us now" "wf_auth lib db"
    and mark: "pg_exec env (\<lambda>su. sql_mark_used h now) (db, x) = (Inr v, (db1, x1))"
    and ins: "pg_exec env (\<lambda>su. sql_insert_refresh lib h' (rr_userID r) (rr_familyID r) t) (db1, x1) = (Inr v', (db2, x2))"
  shows "db_users db2 = db_users db \<and> (Inr (rr_userID r), db_refresh db2) = rotate_spec h h' t now (db_refresh db)"
proof -
  let ?m = "(db_refresh db)(h \<mapsto> r\<lparr>rr_usedAt := Some now\<rparr>)"
  from pg_exec_run [OF mark] mark_used_table [OF ok(4,1) T] have db1: "db1 = db\<lparr>db_refresh := ?m\<rparr>" by auto
  have "pl_uuid lib (rr_userID r) \<in> {None, Some (rr_userID r)}"
    using ok(5) T unfolding wf_auth_def by (auto simp: ran_def)
  with pg_exec_run [OF ins] insert_refresh_table [of lib h' "rr_userID r" "rr_familyID r" t db1 v' db2] ok
  have "db_users db2 = db_users db1" "db_refresh db2 = (db_refresh db1)(h' \<mapsto> new_row (rr_userID r) (rr_familyID r) t)"
    by auto
  with T live show ?thesis by (simp add: db1 rotate_spec_def)
qed

lemma rotate_table:
  assumes call: "pa_RotateRefresh lib env h h' t now w = (rs, w')"
    and ok: "char64 h = Some h" "char64 h' = Some h'" "whole_us t" "whole_us now" "wf_auth lib (fst w)"
  shows "db_users (fst w') = db_users (fst w) \<and>
    (db_refresh (fst w') = db_refresh (fst w) \<and> (\<exists>m. rs = Inl (Auth_Err m)) \<or>
     (rs, db_refresh (fst w')) = rotate_spec h h' t now (db_refresh (fst w)))"
proof -
  obtain q0 db x where b: "tx_begin env w = (q0, (db, x))" by (metis prod.exhaust)
  have db: "db = fst w" using pg_exec_run [OF b [unfolded tx_begin_def]] by auto
  obtain q1 db' x1 where sel: "pg_exec env (\<lambda>su. sql_select_refresh lib h) (db, x) = (q1, (db', x1))"
    by (metis prod.exhaust)
  from pg_exec_run [OF sel] select_refresh_table [of lib h db q1 db'] ok(1)
  have q1: "(\<exists>e. q1 = Inl e) \<or> q1 = Inr (db_refresh db h)" by auto
  note call' = call [unfolded pa_RotateRefresh_def b prod.case sel]
  show ?thesis
  proof (cases q0)
    case (Inl e)
    with call' db au_error_Auth_Err [of e] show ?thesis by auto
  next
    case b0: (Inr v0)
    show ?thesis
    proof (cases q1)
      case (Inl e)
      with call' b0 db au_error_Auth_Err [of e] show ?thesis by auto
    next
      case (Inr row)
      with q1 have row: "db_refresh db h = row" by simp
      show ?thesis
      proof (cases row)
        case None
        with call' b0 Inr row db show ?thesis by (auto simp: rotate_spec_def)
      next
        case (Some r)
        note call2 = call' [unfolded b0 Inr Some sum.case prod.case option.case]
        show ?thesis
        proof (cases "rr_revokedAt r \<noteq> None \<or> \<not> now < rr_expiresAt r")
          case True
          with call2 row Some db show ?thesis by (auto simp: rotate_spec_def)
        next
          case live: False
          show ?thesis
          proof (cases "rr_usedAt r")
            case (Some tm)
            obtain q2 db1 x2 where rev: "pg_exec env (\<lambda>su. sql_revoke_family (rr_familyID r) now) (db, x1) = (q2, (db1, x2))"
              by (metis prod.exhaust)
            obtain q3 w3 where com: "tx_commit env db1 (db, x2) = (q3, w3)" by (rule prod.exhaust)
            note call3 = call2 [unfolded rev prod.case com]
            from pg_exec_run [OF rev] have q2: "(\<exists>e. q2 = Inl e) \<or>
                db1 = db\<lparr>db_refresh := map_option (revoke_row (rr_familyID r) now) \<circ> db_refresh db\<rparr>"
              by (auto simp: revoke_family_table [OF ok(4)])
            from tx_commit_run [OF com] q2 call3 live Some row \<open>row = Some r\<close> db au_error_Auth_Err show ?thesis
              by (auto simp: rotate_spec_def split: sum.splits)
          next
            case None
            obtain q2 db1 x2 where mark: "pg_exec env (\<lambda>su. sql_mark_used h now) (db, x1) = (q2, (db1, x2))"
              by (metis prod.exhaust)
            obtain q3 db2 x3 where ins: "pg_exec env (\<lambda>su. sql_insert_refresh lib h' (rr_userID r) (rr_familyID r) t)
                (db1, x2) = (q3, (db2, x3))" by (metis prod.exhaust)
            obtain q4 w4 where com: "tx_commit env db2 (db, x3) = (q4, w4)" by (rule prod.exhaust)
            note call3 = call2 [unfolded mark prod.case ins com]
            have done2: "q2 = Inr v2 \<Longrightarrow> q3 = Inr v3 \<Longrightarrow> db_users db2 = db_users db \<and>
                (Inr (rr_userID r), db_refresh db2) = rotate_spec h h' t now (db_refresh db)" for v2 v3
              using rotate_unused [of db h r now h' t lib x1 v2 db1 x2 v3 db2 x3] mark ins row \<open>row = Some r\<close> live None ok db
              by auto
            from tx_commit_run [OF com] done2 call3 live None db au_error_Auth_Err show ?thesis
              by (auto split: sum.splits)
          qed
        qed
      qed
    qed
  qed
qed

lemma auth_store_pg:
  assumes ids: "lists_users ids"
  shows "auth_store (micro_auth lib (pg_auth lib env ids)) (\<lambda>w. pa_users ids (fst w)) (\<lambda>w. db_refresh (fst w))"
proof unfold_locales
  fix now rnd email hash and s :: "pg_db \<times> 'x" and ru s'
  assume call: "ar_CreateUser (micro_auth lib (pg_auth lib env ids)) now rnd email hash s = (ru, s')"
  show "db_refresh (fst s') = db_refresh (fst s) \<and>
     (case ru of Inl e \<Rightarrow> pa_users ids (fst s') = pa_users ids (fst s)
      | Inr u \<Rightarrow> email \<notin> dom (pa_users ids (fst s)) \<and> us_Email u = email \<and> us_PasswordHash u = hash \<and>
          pa_users ids (fst s') = (pa_users ids (fst s))(email \<mapsto> u))"
  proof (cases "wf_auth lib (fst s)")
    case False
    with call show ?thesis by (auto simp: micro_auth_def Let_def only_if_def)
  next
    case wf: True
    obtain q w where ex: "pg_exec env (\<lambda>su. sql_insert_user lib now rnd email hash) s = (q, w)" by (rule prod.exhaust)
    from call wf ex have r: "s' = w" "(\<exists>e. q = Inl e) \<and> (\<exists>e. ru = Inl e) \<or> (\<exists>u. q = Inr u \<and> ru = Inr u)"
      by (auto simp: micro_auth_def Let_def only_if_def pg_auth_def pa_CreateUser_def split: sum.splits)
    note run = pg_exec_run [OF ex]
    show ?thesis
    proof (cases q)
      case (Inl e)
      with run insert_user_fails [of lib now rnd email hash "fst s" e "fst w"] r show ?thesis by auto
    next
      case (Inr u)
      with run insert_user_table [OF _ ids wf, of now rnd email hash u "fst w"] r show ?thesis by auto
    qed
  qed
next
  fix email and s :: "pg_db \<times> 'x" and now rnd hash and ru :: "auth_error + User" and s'
  assume known: "email \<in> dom (pa_users ids (fst s))"
    and call: "ar_CreateUser (micro_auth lib (pg_auth lib env ids)) now rnd email hash s = (ru, s')"
  show "ru = Inl ErrEmailTaken \<or> (\<exists>m. ru = Inl (Auth_Err m))"
  proof (cases "wf_auth lib (fst s)")
    case False
    with call show ?thesis by (auto simp: micro_auth_def Let_def only_if_def)
  next
    case wf: True
    obtain q w where ex: "pg_exec env (\<lambda>su. sql_insert_user lib now rnd email hash) s = (q, w)" by (rule prod.exhaust)
    from pg_exec_run [OF ex] insert_user_table [OF _ ids wf, of now rnd email hash _ "fst w"] known
    have "\<exists>e. q = Inl e" by (cases q) auto
    with call wf ex show ?thesis
      by (auto simp: micro_auth_def Let_def only_if_def pg_auth_def pa_CreateUser_def au_error_def split: if_splits)
  qed
next
  fix email and s :: "pg_db \<times> 'x" and ru :: "auth_error + User" and s'
  assume call: "ar_GetUserByEmail (micro_auth lib (pg_auth lib env ids)) email s = (ru, s')"
  obtain q w where ex: "pg_exec env (\<lambda>su db. sql_user_by_email lib (ids db) email db) s = (q, w)"
    by (rule prod.exhaust)
  from pg_exec_run [OF ex] have q: "fst w = fst s \<and> ((\<exists>e. q = Inl e) \<or> q = Inr (pa_users ids (fst s) email))"
    by (auto simp: user_by_email split: if_splits)
  from call ex q
  show "pa_users ids (fst s') = pa_users ids (fst s) \<and> db_refresh (fst s') = db_refresh (fst s) \<and>
    ((\<exists>m. ru = Inl (Auth_Err m)) \<or>
     ru = (case pa_users ids (fst s) email of None \<Rightarrow> Inl ErrInvalidCredentials | Some u \<Rightarrow> Inr u))"
    by (auto simp: micro_auth_def Let_def only_if_def pg_auth_def pa_GetUserByEmail_def au_error_def
        split: if_splits option.splits)
next
  fix u fam h t and s :: "pg_db \<times> 'x" and rn :: "auth_error + unit" and s'
  assume call: "ar_CreateRefresh (micro_auth lib (pg_auth lib env ids)) u fam h t s = (rn, s')"
  show "pa_users ids (fst s') = pa_users ids (fst s) \<and>
    (case rn of Inl e \<Rightarrow> db_refresh (fst s') = db_refresh (fst s)
     | Inr _ \<Rightarrow> db_refresh (fst s') = (db_refresh (fst s))(h \<mapsto> new_row u fam t))"
  proof (cases "wf_auth lib (fst s) \<and> canonical_user lib u \<and> char64 h = Some h \<and> whole_us t")
    case False
    with call show ?thesis by (auto simp: micro_auth_def Let_def only_if_def)
  next
    case ok: True
    obtain q w where ex: "pg_exec env (\<lambda>su. sql_insert_refresh lib h u fam t) s = (q, w)" by (rule prod.exhaust)
    from call ok ex have r: "s' = w" "rn = (case q of Inl e \<Rightarrow> Inl (au_error e) | Inr v \<Rightarrow> Inr ())"
      by (auto simp: micro_auth_def Let_def only_if_def pg_auth_def pa_CreateRefresh_def split: sum.splits)
    show ?thesis
    proof (cases q)
      case (Inl e)
      with pg_exec_run [OF ex] insert_refresh_fails [of lib h u fam t "fst s" e "fst w"] r show ?thesis by auto
    next
      case (Inr v)
      with pg_exec_run [OF ex] insert_refresh_table [of lib h u fam t "fst s" v "fst w"] ok r
        pa_users_same [OF ids, of lib "fst s" "fst w"]
      show ?thesis by (auto simp: canonical_user_def)
    qed
  qed
next
  fix h h' t now and s :: "pg_db \<times> 'x" and rs :: "auth_error + string" and s'
  assume call: "ar_RotateRefresh (micro_auth lib (pg_auth lib env ids)) h h' t now s = (rs, s')"
  show "pa_users ids (fst s') = pa_users ids (fst s) \<and>
    (db_refresh (fst s') = db_refresh (fst s) \<and> (\<exists>m. rs = Inl (Auth_Err m)) \<or>
     (rs, db_refresh (fst s')) = rotate_spec h h' t now (db_refresh (fst s)))"
  proof (cases "wf_auth lib (fst s) \<and> char64 h = Some h \<and> char64 h' = Some h' \<and> whole_us t \<and> whole_us now")
    case False
    with call show ?thesis by (auto simp: micro_auth_def Let_def only_if_def)
  next
    case ok: True
    with call have "pa_RotateRefresh lib env h h' t now s = (rs, s')"
      by (simp add: micro_auth_def Let_def only_if_def pg_auth_def)
    from rotate_table [OF this] ok pa_users_same [OF ids, of lib "fst s" "fst s'"]
    show ?thesis by auto
  qed
qed

text \<open>The operations keep what the contract supposes of the schema.\<close>

lemma rotate_spec_user_ids:
  assumes "(q, T') = rotate_spec h h' t now T" and "r' \<in> ran T'"
  shows "\<exists>r \<in> ran T. rr_userID r' = rr_userID r"
proof (cases "T h")
  case None
  with assms show ?thesis by (auto simp: rotate_spec_def)
next
  case (Some r)
  then have r: "r \<in> ran T" by (auto simp: ran_def)
  from assms(2) obtain k where k: "T' k = Some r'" by (auto simp: ran_def)
  have revoked: "rr_userID (revoke_row f now r1) = rr_userID r1" for f r1 by (simp add: revoke_row_def)
  from assms(1) Some consider "T' = T" | "T' = map_option (revoke_row (rr_familyID r) now) \<circ> T"
    | "T' = T(h \<mapsto> r\<lparr>rr_usedAt := Some now\<rparr>, h' \<mapsto> new_row (rr_userID r) (rr_familyID r) t)"
    by (auto simp: rotate_spec_def split: if_splits)
  then show ?thesis
  proof cases
    case 1
    with assms(2) show ?thesis by blast
  next
    case 2
    with k obtain r1 where "T k = Some r1" "r' = revoke_row (rr_familyID r) now r1" by auto
    with revoked show ?thesis by (auto simp: ran_def)
  next
    case 3
    from k have "r' = new_row (rr_userID r) (rr_familyID r) t \<or> r' = r\<lparr>rr_usedAt := Some now\<rparr> \<or> T k = Some r'"
      unfolding 3 by (auto split: if_splits)
    with r show ?thesis by (auto simp: new_row_def ran_def)
  qed
qed

lemma keeps_wf_auth:
  assumes ids: "lists_users ids" and wf: "wf_auth lib (fst w)"
  shows "ar_CreateUser (pg_auth lib env ids) now rnd email hash w = (ru, w') \<Longrightarrow> wf_auth lib (fst w')"
    and "canonical_user lib u \<Longrightarrow> char64 h = Some h \<Longrightarrow> whole_us t \<Longrightarrow>
      ar_CreateRefresh (pg_auth lib env ids) u fam h t w = (rn, w') \<Longrightarrow> wf_auth lib (fst w')"
    and "char64 h = Some h \<Longrightarrow> char64 h' = Some h' \<Longrightarrow> whole_us t \<Longrightarrow> whole_us now \<Longrightarrow>
      ar_RotateRefresh (pg_auth lib env ids) h h' t now w = (rs, w') \<Longrightarrow> wf_auth lib (fst w')"
proof -
  assume "ar_CreateUser (pg_auth lib env ids) now rnd email hash w = (ru, w')"
  then obtain q where ex: "pg_exec env (\<lambda>su. sql_insert_user lib now rnd email hash) w = (q, w')"
    by (cases "pg_exec env (\<lambda>su. sql_insert_user lib now rnd email hash) w")
      (auto simp: pg_auth_def pa_CreateUser_def split: sum.splits)
  show "wf_auth lib (fst w')"
  proof (cases q)
    case (Inl e)
    with pg_exec_run [OF ex] insert_user_fails [of lib now rnd email hash "fst w" e "fst w'"] wf show ?thesis by auto
  next
    case (Inr v)
    with pg_exec_run [OF ex] insert_user_table [OF _ ids wf, of now rnd email hash v "fst w'"] show ?thesis by auto
  qed
next
  assume ok: "canonical_user lib u" "char64 h = Some h" "whole_us t"
    and "ar_CreateRefresh (pg_auth lib env ids) u fam h t w = (rn, w')"
  then obtain q where ex: "pg_exec env (\<lambda>su. sql_insert_refresh lib h u fam t) w = (q, w')"
    by (cases "pg_exec env (\<lambda>su. sql_insert_refresh lib h u fam t) w")
      (auto simp: pg_auth_def pa_CreateRefresh_def split: sum.splits)
  show "wf_auth lib (fst w')"
  proof (cases q)
    case (Inl e)
    with pg_exec_run [OF ex] insert_refresh_fails [of lib h u fam t "fst w" e "fst w'"] wf show ?thesis by auto
  next
    case (Inr v)
    with pg_exec_run [OF ex] insert_refresh_table [of lib h u fam t "fst w" v "fst w'"] ok
    have new: "db_users (fst w') = db_users (fst w)"
      "db_refresh (fst w') = (db_refresh (fst w))(h \<mapsto> new_row u fam t)" "pl_uuid lib u = Some u"
      by (auto simp: canonical_user_def)
    have "pl_uuid lib (rr_userID r) \<in> {None, Some (rr_userID r)}" if "r \<in> ran (db_refresh (fst w'))" for r
    proof (cases "r = new_row u fam t")
      case True
      then show ?thesis by (simp add: new_row_def new(3))
    next
      case False
      with that have "r \<in> ran (db_refresh (fst w))" unfolding new(2) by (auto simp: ran_def split: if_splits)
      with wf show ?thesis unfolding wf_auth_def by blast
    qed
    with wf new(1) show ?thesis unfolding wf_auth_def by simp
  qed
next
  assume ok: "char64 h = Some h" "char64 h' = Some h'" "whole_us t" "whole_us now"
    and "ar_RotateRefresh (pg_auth lib env ids) h h' t now w = (rs, w')"
  then have "pa_RotateRefresh lib env h h' t now w = (rs, w')" by (simp add: pg_auth_def)
  note out = rotate_table [OF this ok wf]
  have "pl_uuid lib (rr_userID r) \<in> {None, Some (rr_userID r)}" if r: "r \<in> ran (db_refresh (fst w'))" for r
  proof -
    have "\<exists>r0 \<in> ran (db_refresh (fst w)). rr_userID r = rr_userID r0"
    proof (cases "db_refresh (fst w') = db_refresh (fst w)")
      case True
      with r show ?thesis by (metis (no_types))
    next
      case False
      with out have "(rs, db_refresh (fst w')) = rotate_spec h h' t now (db_refresh (fst w))" by blast
      from rotate_spec_user_ids [OF this r] show ?thesis .
    qed
    with wf show ?thesis unfolding wf_auth_def by metis
  qed
  with wf out show "wf_auth lib (fst w')" unfolding wf_auth_def by simp
qed

end



end
