(* ===== verification/PgHistory.thy ===== *)
theory PgHistory
  imports PgAuthProps HandlerProps
begin

text \<open>
  Histories of a database under the PostgreSQL repositories, and what the foreign keys of the schema make of
  deleting a device: a device that has ever taken part in a transfer stays.
\<close>

section \<open>Calls of the repositories\<close>

inductive repo_call ::
  "pg_lib \<Rightarrow> ('x \<Rightarrow> surroundings \<times> 'x) \<Rightarrow> (pg_db \<Rightarrow> string list) \<Rightarrow> pg_db \<times> 'x \<Rightarrow> pg_db \<times> 'x \<Rightarrow> bool"
  for lib env ids where
  create_transfer: "repo_call lib env ids w (snd (pt_Create lib env c t w))"
| list_transfers: "repo_call lib env ids w (snd (pt_List lib env c ks w))"
| get_transfer: "repo_call lib env ids w (snd (pt_Get lib env c i w))"
| update_transfer: "repo_call lib env ids w (snd (pt_Update lib env c t w))"
| create_device: "repo_call lib env ids w (snd (pd_Create lib env c d w))"
| list_devices: "repo_call lib env ids w (snd (pd_List lib env c ks w))"
| get_device: "repo_call lib env ids w (snd (pd_Get lib env c i w))"
| update_token: "repo_call lib env ids w (snd (pd_UpdatePushToken lib env c i tok w))"
| delete_device: "repo_call lib env ids w (snd (pd_Delete lib env c i w))"
| create_user: "repo_call lib env ids w (snd (pa_CreateUser lib env now rnd email hash w))"
| user_by_email: "repo_call lib env ids w (snd (pa_GetUserByEmail lib env ids email w))"
| create_refresh: "repo_call lib env ids w (snd (pa_CreateRefresh lib env u fam h e w))"
| rotate_refresh: "repo_call lib env ids w (snd (pa_RotateRefresh lib env h h' e now w))"

text \<open>What a statement keeps, its exchange with the server keeps.\<close>

lemma pg_exec_db:
  "fst (snd (pg_exec env stmt w)) = fst w \<or> fst (snd (pg_exec env stmt w)) = snd (stmt (fst (env (snd w))) (fst w))"
proof -
  obtain db x su x' where w: "w = (db, x)" and su: "env x = (su, x')" by (metis prod.exhaust)
  show ?thesis by (cases "su_fault su"; cases "stmt su db") (auto simp: pg_exec_def w su)
qed

definition keeps_transfers :: "pg_db \<Rightarrow> pg_db \<Rightarrow> bool" where
  "keeps_transfers db db' \<longleftrightarrow> (\<forall>k t. db_transfers db k = Some t \<longrightarrow>
     (\<exists>t'. db_transfers db' k = Some t' \<and> gt_source t' = gt_source t \<and> gt_destination t' = gt_destination t))"

lemma keeps_transfers_refl [simp]: "keeps_transfers db db"
  by (simp add: keeps_transfers_def)

lemma keeps_transfers_same: "db_transfers db' = db_transfers db \<Longrightarrow> keeps_transfers db db'"
  by (simp add: keeps_transfers_def)

lemma keeps_transfers_trans: "keeps_transfers a b \<Longrightarrow> keeps_transfers b c \<Longrightarrow> keeps_transfers a c"
  unfolding keeps_transfers_def by metis

lemma keeps_transfers_in_use:
  assumes "keeps_transfers db db'" and "device_in_use i db"
  shows "device_in_use i db'"
proof -
  from assms(2) obtain k t where t: "db_transfers db k = Some t" "gt_source t = i \<or> gt_destination t = i"
    by (auto simp: device_in_use_def ran_def)
  with assms(1) obtain t' where "db_transfers db' k = Some t'" "gt_source t' = gt_source t"
      "gt_destination t' = gt_destination t"
    unfolding keeps_transfers_def by blast
  with t(2) show ?thesis unfolding device_in_use_def by (metis ranI)
qed

lemma keeps_transfers_exec:
  assumes "\<And>su. keeps_transfers (fst w) (snd (stmt su (fst w)))"
  shows "keeps_transfers (fst w) (fst (snd (pg_exec env stmt w)))"
  using pg_exec_db [of env stmt w] assms by auto

text \<open>The statements.\<close>

lemma sql_keeps_transfers:
  "keeps_transfers db (snd (sql_owns_both lib a b u db))"
  "keeps_transfers db (snd (sql_insert_transfer lib u t db))"
  "keeps_transfers db (snd (sql_list_transfers lib u ks db))"
  "keeps_transfers db (snd (sql_get_transfer lib u i db))"
  "keeps_transfers db (snd (sql_insert_device lib u d db))"
  "keeps_transfers db (snd (sql_list_devices lib u ks db))"
  "keeps_transfers db (snd (sql_get_device lib u i db))"
  "keeps_transfers db (snd (sql_update_token lib u i tok db))"
  "keeps_transfers db (snd (sql_delete_device lib u i db))"
  "keeps_transfers db (snd (sql_insert_user lib now rnd email hash db))"
  "keeps_transfers db (snd (sql_user_by_email lib js email db))"
  "keeps_transfers db (snd (sql_insert_refresh lib h u fam e db))"
  "keeps_transfers db (snd (sql_select_refresh lib h db))"
  "keeps_transfers db (snd (sql_revoke_family fam now db))"
  "keeps_transfers db (snd (sql_mark_used h now db))"
proof -
  show "keeps_transfers db (snd (sql_insert_transfer lib u t db))"
    by (auto simp: sql_insert_transfer_def keeps_transfers_def dom_def split: sum.split)
  show "keeps_transfers db (snd (sql_insert_user lib now rnd email hash db))"
    by (auto simp: sql_insert_user_def Let_def intro: keeps_transfers_same split: sum.split)
qed (auto simp: sql_owns_both_def sql_list_transfers_def sql_get_transfer_def sql_insert_device_def sql_list_devices_def
      sql_get_device_def sql_update_token_def sql_delete_device_def sql_user_by_email_def sql_insert_refresh_def
      sql_select_refresh_def sql_revoke_family_def sql_mark_used_def Let_def intro: keeps_transfers_same
      split: sum.split option.split)

lemma sql_update_keeps_transfers: "keeps_transfers db (snd (sql_update_transfer lib now u t db))"
proof -
  have "keeps_transfers db (ready_trigger lib now (tr_ID t) r (updated_transfer t r)
      (db\<lparr>db_transfers := (db_transfers db)(tr_ID t \<mapsto> updated_transfer t r)\<rparr>))" if "db_transfers db (tr_ID t) = Some r" for r
    using that by (auto simp: keeps_transfers_def ready_trigger_def set_outbox_def updated_transfer_def Let_def
        split: option.split)
  then show ?thesis by (auto simp: sql_update_transfer_def Let_def split: sum.split option.split)
qed

section \<open>Calls keep transfers\<close>

lemma exec_keeps_transfers:
  "keeps_transfers (fst w) (fst (snd (pg_exec env (\<lambda>su. sql_owns_both lib a b u) w)))"
  "keeps_transfers (fst w) (fst (snd (pg_exec env (\<lambda>su. sql_insert_transfer lib u t) w)))"
  "keeps_transfers (fst w) (fst (snd (pg_exec env (\<lambda>su. sql_list_transfers lib u ks) w)))"
  "keeps_transfers (fst w) (fst (snd (pg_exec env (\<lambda>su. sql_get_transfer lib u i) w)))"
  "keeps_transfers (fst w) (fst (snd (pg_exec env (\<lambda>su. sql_insert_device lib u d) w)))"
  "keeps_transfers (fst w) (fst (snd (pg_exec env (\<lambda>su. sql_list_devices lib u ks) w)))"
  "keeps_transfers (fst w) (fst (snd (pg_exec env (\<lambda>su. sql_get_device lib u i) w)))"
  "keeps_transfers (fst w) (fst (snd (pg_exec env (\<lambda>su. sql_update_token lib u i tok) w)))"
  "keeps_transfers (fst w) (fst (snd (pg_exec env (\<lambda>su. sql_delete_device lib u i) w)))"
  "keeps_transfers (fst w) (fst (snd (pg_exec env (\<lambda>su. sql_insert_user lib now rnd email hash) w)))"
  "keeps_transfers (fst w) (fst (snd (pg_exec env (\<lambda>su db. sql_user_by_email lib (ids db) email db) w)))"
  "keeps_transfers (fst w) (fst (snd (pg_exec env (\<lambda>su. sql_insert_refresh lib h u fam e) w)))"
  "keeps_transfers (fst w) (fst (snd (pg_exec env (\<lambda>su. sql_select_refresh lib h) w)))"
  "keeps_transfers (fst w) (fst (snd (pg_exec env (\<lambda>su. sql_revoke_family fam now) w)))"
  "keeps_transfers (fst w) (fst (snd (pg_exec env (\<lambda>su. sql_mark_used h now) w)))"
  by (rule keeps_transfers_exec, rule sql_keeps_transfers)+

lemma keeps_transfers_run:
  assumes "pg_exec env stmt w = (q, w')" and "\<And>su. keeps_transfers (fst w) (snd (stmt su (fst w)))"
  shows "keeps_transfers (fst w) (fst w')"
  using keeps_transfers_exec [of w stmt env] assms by simp

lemma rotate_keeps_transfers: "keeps_transfers (fst w) (fst (snd (pa_RotateRefresh lib env h h' e now w)))"
proof -
  have kt: "keeps_transfers a a'" if "pg_exec env (\<lambda>su. sql_insert_refresh lib h1 u fam e) (a, x) = (q, (a', x'))
      \<or> pg_exec env (\<lambda>su. sql_revoke_family fam now) (a, x) = (q', (a', x'))
      \<or> pg_exec env (\<lambda>su. sql_mark_used h now) (a, x) = (q', (a', x'))" for a x a' x' q q' h1 u fam
    using exec_keeps_transfers(12,14,15) [of "(a, x)" env] that by (metis fst_conv snd_conv)
  obtain q0 db x where b: "tx_begin env w = (q0, (db, x))" by (metis prod.exhaust)
  from b have db: "db = fst w"
    using pg_exec_db [of env "\<lambda>su db. (Inr (), db)" w] by (simp add: tx_begin_def)
  have commit: "keeps_transfers db (fst w4)" if "tx_commit env new (db, y) = (q, w4)" "keeps_transfers db new" for new y q w4
    using keeps_transfers_run [OF that(1) [unfolded tx_commit_def]] that(2) by simp
  obtain q w' where run: "pa_RotateRefresh lib env h h' e now w = (q, w')" by (rule prod.exhaust)
  obtain q1 d1 x1 where sel: "pg_exec env (\<lambda>su. sql_select_refresh lib h) (db, x) = (q1, (d1, x1))"
    by (metis prod.exhaust)
  note run' = run [unfolded pa_RotateRefresh_def b prod.case sel]
  have "keeps_transfers db (fst w')"
  proof (cases q0)
    case q0: (Inr u)
    show ?thesis
    proof (cases q1)
      case q1: (Inr row)
      show ?thesis
      proof (cases row)
        case (Some r)
        obtain q2 d2 x2 where rev: "pg_exec env (\<lambda>su. sql_revoke_family (rr_familyID r) now) (db, x1) = (q2, (d2, x2))"
          by (metis prod.exhaust)
        obtain q3 w3 where com: "tx_commit env d2 (db, x2) = (q3, w3)" by (rule prod.exhaust)
        obtain q4 d4 x4 where mark: "pg_exec env (\<lambda>su. sql_mark_used h now) (db, x1) = (q4, (d4, x4))"
          by (metis prod.exhaust)
        obtain q5 d5 x5 where ins: "pg_exec env (\<lambda>su. sql_insert_refresh lib h' (rr_userID r) (rr_familyID r) e)
            (d4, x4) = (q5, (d5, x5))" by (metis prod.exhaust)
        obtain q6 w6 where com': "tx_commit env d5 (db, x5) = (q6, w6)" by (rule prod.exhaust)
        have "keeps_transfers db d2" "keeps_transfers db d4" "keeps_transfers d4 d5" using kt rev mark ins by blast+
        then have "keeps_transfers db (fst w3)" "keeps_transfers db (fst w6)"
          using commit [OF com] commit [OF com'] keeps_transfers_trans by blast+
        with run' q0 q1 Some show ?thesis by (auto simp: rev com mark ins com' split: sum.splits if_splits)
      qed (use run' q0 q1 in auto)
    qed (use run' q0 in auto)
  qed (use run' in auto)
  with run db show ?thesis by simp
qed

lemma repo_call_keeps_transfers:
  assumes "repo_call lib env ids w w'"
  shows "keeps_transfers (fst w) (fst w')"
  using assms
proof cases
  case (create_transfer c t)
  have "keeps_transfers (fst w) (fst (snd (pt_Create lib env c t w)))"
  proof -
    obtain q w1 where own: "pg_exec env (\<lambda>su. sql_owns_both lib (tr_SourceDeviceID t) (tr_DestinationDeviceID t)
        (UserID c)) w = (q, w1)" by (rule prod.exhaust)
    have k: "keeps_transfers (fst w) (fst w1)" using exec_keeps_transfers(1) [of w env lib "tr_SourceDeviceID t" "tr_DestinationDeviceID t" "UserID c"] own by simp
    show ?thesis using exec_keeps_transfers(2) [of w env lib "UserID c" t] exec_keeps_transfers(2) [of w1 env lib "UserID c" t] k own keeps_transfers_trans [OF k]
      by (auto simp: pt_Create_def Let_def split: sum.split prod.split)
  qed
  with create_transfer show ?thesis by simp
next
  case (list_transfers c ks)
  then show ?thesis using exec_keeps_transfers(3) [of w env lib "UserID c" ks]
    by (auto simp: pt_List_def split: sum.splits prod.splits)
next
  case (get_transfer c i)
  then show ?thesis using exec_keeps_transfers(4) [of w env lib "UserID c" i]
    by (auto simp: pt_Get_def split: sum.splits prod.splits option.splits)
next
  case (update_transfer c t)
  then show ?thesis
    using keeps_transfers_exec [of w "\<lambda>su. sql_update_transfer lib (su_now su) (UserID c) t" env, OF sql_update_keeps_transfers]
    by (auto simp: pt_Update_def split: sum.splits prod.splits if_splits)
next
  case (create_device c d)
  then show ?thesis using exec_keeps_transfers(5) [of w env lib "UserID c" d]
    by (auto simp: pd_Create_def split: sum.splits prod.splits)
next
  case (list_devices c ks)
  then show ?thesis using exec_keeps_transfers(6) [of w env lib "UserID c" ks]
    by (auto simp: pd_List_def split: sum.splits prod.splits)
next
  case (get_device c i)
  then show ?thesis using exec_keeps_transfers(7) [of w env lib "UserID c" i]
    by (auto simp: pd_Get_def split: sum.splits prod.splits option.splits)
next
  case (update_token c i tok)
  then show ?thesis using exec_keeps_transfers(8) [of w env lib "UserID c" i tok]
    by (auto simp: pd_UpdatePushToken_def split: sum.splits prod.splits option.splits)
next
  case (delete_device c i)
  then show ?thesis using exec_keeps_transfers(9) [of w env lib "UserID c" i]
    by (auto simp: pd_Delete_def split: sum.splits prod.splits if_splits)
next
  case (create_user now rnd email hash)
  then show ?thesis using exec_keeps_transfers(10) [of w env lib now rnd email hash]
    by (auto simp: pa_CreateUser_def split: sum.splits prod.splits if_splits)
next
  case (user_by_email email)
  have "keeps_transfers (fst w) (fst (snd (pg_exec env (\<lambda>su db. sql_user_by_email lib (ids db) email db) w)))"
    by (rule exec_keeps_transfers(11))
  with user_by_email show ?thesis by (auto simp: pa_GetUserByEmail_def split: sum.splits prod.splits option.splits)
next
  case (create_refresh u fam h e)
  then show ?thesis using exec_keeps_transfers(12) [of w env lib h u fam e]
    by (auto simp: pa_CreateRefresh_def split: sum.splits prod.splits)
next
  case (rotate_refresh h h' e now)
  then show ?thesis using rotate_keeps_transfers by simp
qed

lemma repo_calls_keep_transfers:
  "(repo_call lib env ids)\<^sup>*\<^sup>* w w' \<Longrightarrow> keeps_transfers (fst w) (fst w')"
  by (induction rule: rtranclp_induct) (auto intro: keeps_transfers_trans repo_call_keeps_transfers)

section \<open>Used devices\<close>

lemma delete_used_device:
  assumes "device_in_use i db" and "canonical_user lib (UserID c)" and "pd_invar db"
    and "find_device c i (pd_table db) \<noteq> None"
  shows "\<exists>e x'. pd_Delete lib env c i (db, x) = (Inl (Dev_Err e), (db, x'))"
proof -
  have "sql_delete_device lib (UserID c) i db = (Inl e, db)" if "sql_one_device lib (UserID c) [i] i db = Inl e" for e
    using that by (simp add: sql_delete_device_def)
  moreover have "sql_delete_device lib (UserID c) i db = (Inl (SqlState ''23503''), db)"
    if "sql_one_device lib (UserID c) [i] i db = Inr row" for row
    using one_device(1) [OF assms(2,3) that] assms(1,4) that by (cases row) (auto simp: sql_delete_device_def)
  ultimately obtain e where "sql_delete_device lib (UserID c) i db = (Inl e, db)"
    by (cases "sql_one_device lib (UserID c) [i] i db") auto
  then show ?thesis
    by (cases "env x"; cases "su_fault (fst (env x))") (auto simp: pd_Delete_def pg_exec_def)
qed

text \<open>
  C28: over PostgreSQL a device that has ever been the source or the destination of a transfer is never deleted.
  Whatever the repositories of transfers, devices and accounts are called for afterwards, and whatever
  statements are lost, the endpoint that deletes the device answers its owner with 500 and deletes nothing.
\<close>

theorem used_device_is_never_deleted:
  assumes "(repo_call lib env ids)\<^sup>*\<^sup>* w (db, x)" and "device_in_use i (fst w)"
    and "sv_devices sv = pg_devices lib env" and "ss_devices s = (db, x)" and "pv ''deviceId'' = i"
    and "canonical_user lib (UserID (rq_ctx r))" and "pd_invar db"
    and "find_device (rq_ctx r) i (pd_table db) = Some (dev, owner)"
  shows "\<exists>x'. h_deleteDevice sv pv r s =
    (writeError 500 ''internal_error'' ''could not delete device'', s\<lparr>ss_devices := (db, x')\<rparr>)"
proof -
  from keeps_transfers_in_use [OF repo_calls_keep_transfers [OF assms(1)] assms(2)]
  have "device_in_use i db" by simp
  from delete_used_device [OF this assms(6,7), of env x] assms(8)
  obtain e x' where "pd_Delete lib env (rq_ctx r) i (db, x) = (Inl (Dev_Err e), (db, x'))" by auto
  then show ?thesis
    by (intro exI [of _ x']) (simp add: h_deleteDevice_def devices_Delete_def assms(3-5) pg_devices_def)
qed

section \<open>A completed transfer\<close>

definition pg_completed :: "pg_db \<times> instant" where
  "pg_completed = snd (pt_Update plain_lib still_env background
     ((scanTransfer ''t'' pg_upload_row)\<lparr>tr_Status := StatusCompleted, tr_UpdatedAt := 5 * second\<rparr>) (pg_upload_db, 0))"

definition pg_demo_server :: "(pg_db \<times> instant, pg_db \<times> instant, auth_memory, presence_memory, unit, unit) Server" where
  "pg_demo_server =
     \<lparr>sv_devices = pg_devices plain_lib still_env, sv_transfers = pg_transfers plain_lib still_env,
      sv_hub = (\<lambda>r. [WriteHeader 101]), sv_urls = plain_urls, sv_json = demo_json, sv_presence = None,
      sv_idempotencyRedis = None, sv_rateLimiter = None, sv_auth = None, sv_authRequired = False, sv_metrics = None, sv_readiness = None\<rparr>"

definition pg_demo_state :: "(pg_db \<times> instant, pg_db \<times> instant, auth_memory, presence_memory) server_state" where
  "pg_demo_state =
     \<lparr>ss_devices = pg_completed, ss_transfers = pg_completed,
      ss_files = files_NewService ''http://h'' ''k'' (10 * minute), ss_auth = auth_NewMemoryRepository,
      ss_presence = Map.empty, ss_published = []\<rparr>"

lemma pg_completed_rows:
  "db_devices (fst pg_completed) = db_devices pg_upload_db"
  "map_option gt_status (db_transfers (fst pg_completed) ''t'') = Some StatusCompleted"
  using digest64_ok(2)
  by (simp_all add: pg_completed_def pt_Update_def pg_exec_def still_env_def sql_update_transfer_def
      owner_filter_def reject_texts_def plain_lib_def pg_upload_db_def updated_transfer_def ready_trigger_def
      pg_upload_row_def scanTransfer_def Let_def)

theorem used_device_is_never_deleted_witness:
  "\<exists>x'. h_deleteDevice pg_demo_server (\<lambda>k. ''a'') post_uploaded pg_demo_state =
     (writeError 500 ''internal_error'' ''could not delete device'',
      pg_demo_state\<lparr>ss_devices := (fst pg_completed, x')\<rparr>)"
proof (rule used_device_is_never_deleted [where lib = plain_lib and env = still_env and ids = "\<lambda>db. []" and i = "''a''"
      and w = "(pg_upload_db, 0)" and x = "snd pg_completed" and owner = "''''"
      and dev = "scanDevice ''a'' pg_device_row"])
  have "repo_call plain_lib still_env (\<lambda>db. []) (pg_upload_db, 0) pg_completed"
    unfolding pg_completed_def by (rule repo_call.update_transfer)
  then show "(repo_call plain_lib still_env (\<lambda>db. []))\<^sup>*\<^sup>* (pg_upload_db, 0) (fst pg_completed, snd pg_completed)" by simp
qed (simp_all add: device_in_use_def pg_demo_server_def pg_demo_state_def pg_upload_db_def pg_upload_row_def
    canonical_user_def plain_lib_def pd_invar_def pg_completed_rows pg_device_row_def find_device_def pd_table_def
    scanDevice_def post_uploaded_def coalesce_def owned_by_def ran_def)

end
