(* ===== verification/PgLife.thy ===== *)
theory PgLife
  imports PgHistory TransferLifecycle
begin

text \<open>
  The life of a transfer over PostgreSQL: sequences of calls of the service on the PostgreSQL repository, for
  any times and whatever statements or replies are lost.
\<close>

section \<open>How a row may change\<close>

definition row_moves :: "pg_transfer \<Rightarrow> pg_transfer \<Rightarrow> bool" where
  "row_moves r r' \<longleftrightarrow> forward (gt_status r) (gt_status r') \<and> gt_user_id r' = gt_user_id r \<and>
     gt_source r' = gt_source r \<and> gt_destination r' = gt_destination r \<and> gt_kind r' = gt_kind r \<and>
     gt_size_bytes r' = gt_size_bytes r \<and> gt_sha256 r' = gt_sha256 r \<and> gt_created_at r' = gt_created_at r"

definition rows_move :: "pg_db \<Rightarrow> pg_db \<Rightarrow> bool" where
  "rows_move db db' \<longleftrightarrow> (\<forall>i r. db_transfers db i = Some r \<longrightarrow>
     (\<exists>r'. db_transfers db' i = Some r' \<and> row_moves r r'))"

lemma row_moves_trans: "row_moves a b \<Longrightarrow> row_moves b c \<Longrightarrow> row_moves a c"
  using forward_trans [of "gt_status a" "gt_status b" "gt_status c"] by (simp add: row_moves_def)

lemma rows_move_refl [simp]: "rows_move db db"
  by (simp add: rows_move_def row_moves_def)

lemma rows_move_trans: "rows_move a b \<Longrightarrow> rows_move b c \<Longrightarrow> rows_move a c"
  unfolding rows_move_def by (metis row_moves_trans)

lemma rows_move_exec:
  assumes "pg_exec env stmt w = (q, w')" and "\<And>su. rows_move (fst w) (snd (stmt su (fst w)))"
  shows "rows_move (fst w) (fst w')"
  using pg_exec_db [of env stmt w] assms by auto

lemma insert_moves: "rows_move db (snd (sql_insert_transfer lib u t db))"
proof -
  have "rows_move db (db\<lparr>db_transfers := (db_transfers db)(i \<mapsto> r)\<rparr>)" if "i \<notin> dom (db_transfers db)" for i r
    using that by (auto simp: rows_move_def row_moves_def)
  then show ?thesis by (auto simp: sql_insert_transfer_def split: sum.split)
qed

text \<open>An update that leaves everything but the status as it was read.\<close>

lemma update_moves:
  assumes "db_transfers db i = Some r" and "forward (gt_status r) (tr_Status t)"
    and "tr_ID t = i" "tr_SizeBytes t = gt_size_bytes r" "tr_SHA256 t = gt_sha256 r"
  shows "rows_move db (snd (sql_update_transfer lib now u t db))"
proof -
  have "row_moves r (updated_transfer t r)" using assms by (simp add: row_moves_def updated_transfer_def)
  moreover have "db_transfers (ready_trigger lib now i old new db') = db_transfers db'" for old new db'
    by (auto simp: ready_trigger_def set_outbox_def Let_def split: option.split)
  ultimately show ?thesis
    using assms(1,3) rows_move_refl [of db]
    by (auto simp: sql_update_transfer_def rows_move_def row_moves_def Let_def split: sum.split)
qed

section \<open>The repository\<close>

lemma pt_Create_moves: "rows_move (fst w) (fst (snd (pt_Create lib env c t w)))"
proof -
  obtain q w1 where own: "pg_exec env (\<lambda>su. sql_owns_both lib (tr_SourceDeviceID t) (tr_DestinationDeviceID t)
      (UserID c)) w = (q, w1)" by (rule prod.exhaust)
  have "snd (sql_owns_both lib a b u db) = db" for a b u db by (auto simp: sql_owns_both_def split: sum.split)
  with pg_exec_db [of env "\<lambda>su. sql_owns_both lib (tr_SourceDeviceID t) (tr_DestinationDeviceID t) (UserID c)" w] own
  have w1: "fst w1 = fst w" by auto
  have "rows_move (fst v) (fst (snd (pg_exec env (\<lambda>su. sql_insert_transfer lib (UserID c) t) v)))" for v
    using rows_move_exec [of env "\<lambda>su. sql_insert_transfer lib (UserID c) t" v] insert_moves by (metis prod.collapse)
  from this [of w] this [of w1] w1 own show ?thesis
    by (auto simp: pt_Create_def Let_def split: sum.split prod.split)
qed

lemma pt_List_db: "fst (snd (pt_List lib env c ks w)) = fst w"
proof -
  have "snd (sql_list_transfers lib u ks db) = db" for u db by (auto simp: sql_list_transfers_def split: sum.split)
  with pg_exec_db [of env "\<lambda>su. sql_list_transfers lib (UserID c) ks" w]
  have "fst (snd (pg_exec env (\<lambda>su. sql_list_transfers lib (UserID c) ks) w)) = fst w" by auto
  then show ?thesis by (auto simp: pt_List_def split: sum.split prod.split)
qed

lemma pt_Get_row:
  assumes "pt_Get lib env c i w = (q, w')"
  shows "fst w' = fst w" and "q = Inr t \<Longrightarrow> \<exists>r. db_transfers (fst w) i = Some r \<and> t = scanTransfer i r"
proof -
  obtain p v where ex: "pg_exec env (\<lambda>su. sql_get_transfer lib (UserID c) i) w = (p, v)" by (rule prod.exhaust)
  have sql: "snd (sql_get_transfer lib (UserID c) i db) = db"
    "fst (sql_get_transfer lib (UserID c) i db) = Inr (Some t) \<Longrightarrow> \<exists>r. db_transfers db i = Some r \<and> t = scanTransfer i r" for db
    by (auto simp: sql_get_transfer_def split: if_splits sum.splits option.splits)
  from assms ex have w': "w' = v" and q: "q = Inr t \<Longrightarrow> p = Inr (Some t)"
    by (auto simp: pt_Get_def split: sum.splits option.splits)
  show "fst w' = fst w"
    using pg_exec_db [of env "\<lambda>su. sql_get_transfer lib (UserID c) i" w] ex w' sql(1) by auto
  assume "q = Inr t"
  with q have "p = Inr (Some t)" by simp
  with ex have "fst (sql_get_transfer lib (UserID c) i (fst w)) = Inr (Some t)"
    by (cases w; cases "env (snd w)"; cases "su_fault (fst (env (snd w)))")
      (auto simp: pg_exec_def split: prod.splits)
  with sql(2) show "\<exists>r. db_transfers (fst w) i = Some r \<and> t = scanTransfer i r" .
qed

lemma pt_Update_moves:
  assumes "db_transfers (fst w) i = Some r" and "forward (gt_status r) (tr_Status t)"
    and "tr_ID t = i" "tr_SizeBytes t = gt_size_bytes r" "tr_SHA256 t = gt_sha256 r"
  shows "rows_move (fst w) (fst (snd (pt_Update lib env c t w)))"
proof -
  obtain q v where ex: "pg_exec env (\<lambda>su. sql_update_transfer lib (su_now su) (UserID c) t) w = (q, v)"
    by (rule prod.exhaust)
  have "rows_move (fst w) (fst v)" by (rule rows_move_exec [OF ex]) (rule update_moves [OF assms])
  with ex show ?thesis by (auto simp: pt_Update_def split: sum.splits)
qed

section \<open>The service\<close>

lemma check_moves:
  "markUploaded_check urls now c i (scanTransfer i r) = Inr (t, url) \<Longrightarrow> forward (gt_status r) (tr_Status t) \<and>
     tr_ID t = i \<and> tr_SizeBytes t = gt_size_bytes r \<and> tr_SHA256 t = gt_sha256 r"
  "complete_check urls now c i (scanTransfer i r) = Inr (t, url) \<Longrightarrow> forward (gt_status r) (tr_Status t) \<and>
     tr_ID t = i \<and> tr_SizeBytes t = gt_size_bytes r \<and> tr_SHA256 t = gt_sha256 r"
  by (auto simp: markUploaded_check_def complete_check_def scanTransfer_def
      split: if_splits sum.splits fs_error.splits prod.splits)

lemma exec_moves: "rows_move (fst w) (fst (fst (transfers_exec (pg_transfers lib env) (urls, x) w)))"
proof (cases x)
  case (CallCreate now rnd c inp)
  show ?thesis
  proof (cases "transfers_newID ''tr'' rnd")
    case (Inl e)
    then show ?thesis by (simp add: CallCreate transfers_Create_def)
  next
    case (Inr j)
    obtain q w' where create: "pt_Create lib env c (new_transfer now j inp) w = (q, w')" by (rule prod.exhaust)
    with pt_Create_moves [of w lib env c "new_transfer now j inp"] have "rows_move (fst w) (fst w')" by simp
    with Inr create show ?thesis
      by (auto simp: CallCreate transfers_Create_def pg_transfers_def split: sum.split)
  qed
next
  case (CallList c ks)
  have "fst (snd (pt_List lib env c ks w)) = fst w" by (rule pt_List_db)
  then show ?thesis by (auto simp: CallList transfers_List_def pg_transfers_def split: sum.split prod.split)
next
  case (CallGet c i)
  obtain q w' where get: "pt_Get lib env c i w = (q, w')" by (rule prod.exhaust)
  with pt_Get_row(1) [OF get] show ?thesis
    by (auto simp: CallGet transfers_Get_def pg_transfers_def split: sum.split)
next
  case (CallMarkUploaded now c i)
  obtain q w' where get: "pt_Get lib env c i w = (q, w')" by (rule prod.exhaust)
  show ?thesis
  proof (cases q)
    case (Inl e)
    with get pt_Get_row(1) [OF get] show ?thesis
      by (simp add: CallMarkUploaded transfers_MarkUploaded_def pg_transfers_def)
  next
    case (Inr t)
    with pt_Get_row [OF get] obtain r where w': "fst w' = fst w" and r: "db_transfers (fst w) i = Some r" "t = scanTransfer i r"
      by blast
    show ?thesis
    proof (cases "markUploaded_check urls now c i t")
      case (Inl e)
      with get Inr w' show ?thesis by (simp add: CallMarkUploaded transfers_MarkUploaded_def pg_transfers_def)
    next
      case chk: (Inr p)
      obtain t' url where p: "p = (t', url)" by (rule prod.exhaust)
      have "rows_move (fst w') (fst (snd (pt_Update lib env c t' w')))"
        using pt_Update_moves [of w' i r t' lib env c] check_moves(1) [of urls now c i r t' url] chk p r w' by simp
      with get Inr chk p w' show ?thesis
        by (auto simp: CallMarkUploaded transfers_MarkUploaded_def pg_transfers_def markUploaded_commit_def Let_def
            split: sum.splits prod.splits)
    qed
  qed
next
  case (CallComplete now c i)
  obtain q w' where get: "pt_Get lib env c i w = (q, w')" by (rule prod.exhaust)
  show ?thesis
  proof (cases q)
    case (Inl e)
    with get pt_Get_row(1) [OF get] show ?thesis
      by (simp add: CallComplete transfers_Complete_def pg_transfers_def)
  next
    case (Inr t)
    with pt_Get_row [OF get] obtain r where w': "fst w' = fst w" and r: "db_transfers (fst w) i = Some r" "t = scanTransfer i r"
      by blast
    show ?thesis
    proof (cases "complete_check urls now c i t")
      case (Inl e)
      with get Inr w' show ?thesis by (simp add: CallComplete transfers_Complete_def pg_transfers_def)
    next
      case chk: (Inr p)
      obtain t' url where p: "p = (t', url)" by (rule prod.exhaust)
      have "rows_move (fst w') (fst (snd (pt_Update lib env c t' w')))"
        using pt_Update_moves [of w' i r t' lib env c] check_moves(2) [of urls now c i r t' url] chk p r w' by simp
      with get Inr chk p w' show ?thesis
        by (auto simp: CallComplete transfers_Complete_def pg_transfers_def complete_commit_def Let_def
            split: sum.splits prod.splits)
    qed
  qed
qed

lemma run_moves: "rows_move (fst w) (fst (transfers_run (pg_transfers lib env) xs w))"
proof (induction xs arbitrary: w)
  case (Cons x xs)
  obtain urls call where "x = (urls, call)" by (rule prod.exhaust)
  with rows_move_trans [OF exec_moves [of w lib env urls call] Cons.IH] show ?case by simp
qed simp

text \<open>
  C8: over PostgreSQL a transfer only moves forward, through uploading, ready and completed. For any calls of
  the service, one after the other, at any times, with whatever requests and replies to the database lost, a stored
  transfer stays, its status only moves forward, and its owner, devices, kind, size, checksum and time of creation
  do not change.
\<close>

theorem pg_transfer_life_moves_forward:
  assumes "db_transfers (fst w) i = Some r"
  shows "\<exists>r'. db_transfers (fst (transfers_run (pg_transfers lib env) calls w)) i = Some r' \<and>
    forward (gt_status r) (gt_status r') \<and> gt_user_id r' = gt_user_id r \<and> gt_source r' = gt_source r \<and>
    gt_destination r' = gt_destination r \<and> gt_kind r' = gt_kind r \<and> gt_size_bytes r' = gt_size_bytes r \<and>
    gt_sha256 r' = gt_sha256 r \<and> gt_created_at r' = gt_created_at r"
  using run_moves [of w lib env calls] assms unfolding rows_move_def row_moves_def by metis

theorem pg_transfer_life_moves_forward_witness:
  "\<exists>r'. db_transfers (fst (transfers_run (pg_transfers plain_lib still_env)
      [(ts_urls pg_service, CallMarkUploaded (5 * second) background ''t'')] (pg_upload_db, 5 * second))) ''t'' = Some r' \<and>
    forward StatusUploading (gt_status r') \<and> gt_destination r' = ''b''"
proof -
  have "db_transfers (fst (pg_upload_db, 5 * second)) ''t'' = Some pg_upload_row" by (simp add: pg_upload_db_def)
  from pg_transfer_life_moves_forward [OF this, of plain_lib still_env
      "[(ts_urls pg_service, CallMarkUploaded (5 * second) background ''t'')]"]
  show ?thesis by (auto simp: pg_upload_row_def)
qed

end
