(* ===== verification/PgRotation.thy ===== *)
theory PgRotation
  imports PgAuth AuthSessions
begin

text \<open>
  Concurrent rotations of refresh tokens over PostgreSQL: the transactions of \<^verbatim>\<open>RotateRefresh\<close>
  (\<^verbatim>\<open>auth/postgres_repository.go\<close>) as the steps of a machine over the committed rows, the row locks and the
  open transactions, at the isolation level the code asks for (the default, read committed). A statement sees
  the rows committed when it starts and its own writes; it waits for a row another transaction has locked and
  then continues with the row's current version; rows committed after it started do not join it.
\<close>

section \<open>The machine\<close>

record rot_args =
  ra_hash :: string
  ra_replacement :: string
  ra_expires :: instant
  ra_now :: instant

text \<open>
  Where a transaction stands: before the first statement; with the row selected and locked; with the old token
  marked; with the replacement inserted; and in the update that revokes the family, with the rows still to do.
\<close>

datatype rot_pc =
    Begun
  | Selected refresh_row
  | Marked refresh_row
  | Inserted refresh_row
  | Revoking refresh_row "string set"

record rot_tx =
  rx_args :: rot_args
  rx_pc :: rot_pc
  rx_writes :: refresh_table

record rot_state =
  rs_rows :: refresh_table
  rs_locks :: "string \<rightharpoonup> nat"
  rs_txs :: "nat \<rightharpoonup> rot_tx"
  rs_answers :: "(string \<times> (auth_error + string)) list"

definition rot_start :: "refresh_table \<Rightarrow> rot_state" where
  "rot_start T = \<lparr>rs_rows = T, rs_locks = Map.empty, rs_txs = Map.empty, rs_answers = []\<rparr>"

definition set_tx :: "nat \<Rightarrow> rot_tx \<Rightarrow> rot_state \<Rightarrow> rot_state" where
  "set_tx i t s = s\<lparr>rs_txs := (rs_txs s)(i \<mapsto> t)\<rparr>"

definition lock_row :: "nat \<Rightarrow> string \<Rightarrow> rot_state \<Rightarrow> rot_state" where
  "lock_row i k s = s\<lparr>rs_locks := (rs_locks s)(k \<mapsto> i)\<rparr>"

text \<open>The end of a transaction: its locks are released and the caller has its answer.\<close>

definition end_tx :: "nat \<Rightarrow> string \<Rightarrow> auth_error + string \<Rightarrow> rot_state \<Rightarrow> rot_state" where
  "end_tx i h answer s =
     s\<lparr>rs_locks := (\<lambda>k. if rs_locks s k = Some i then None else rs_locks s k),
       rs_txs := (rs_txs s)(i := None), rs_answers := rs_answers s @ [(h, answer)]\<rparr>"

definition commit_tx :: "nat \<Rightarrow> rot_tx \<Rightarrow> auth_error + string \<Rightarrow> rot_state \<Rightarrow> rot_state" where
  "commit_tx i t answer s =
     end_tx i (ra_hash (rx_args t)) answer (s\<lparr>rs_rows := rs_rows s ++ rx_writes t\<rparr>)"

definition pending_insert :: "rot_state \<Rightarrow> string \<Rightarrow> bool" where
  "pending_insert s h \<longleftrightarrow> (\<exists>i t r. rs_txs s i = Some t \<and> rx_pc t = Inserted r \<and> ra_replacement (rx_args t) = h)"

definition usable_row :: "instant \<Rightarrow> refresh_row \<Rightarrow> bool" where
  "usable_row now r \<longleftrightarrow> rr_revokedAt r = None \<and> now < rr_expiresAt r"

definition used_row :: "instant \<Rightarrow> refresh_row \<Rightarrow> refresh_row" where
  "used_row now r = r\<lparr>rr_usedAt := Some (pg_time now)\<rparr>"

definition revoked_row :: "instant \<Rightarrow> refresh_row \<Rightarrow> refresh_row" where
  "revoked_row now r = r\<lparr>rr_revokedAt := (case rr_revokedAt r of None \<Rightarrow> Some (pg_time now) | Some t \<Rightarrow> Some t)\<rparr>"

definition family_keys :: "string \<Rightarrow> refresh_table \<Rightarrow> string set" where
  "family_keys fam T = {k. map_option rr_familyID (T k) = Some fam}"

inductive rot_step :: "rot_state \<Rightarrow> rot_state \<Rightarrow> bool" where
  tx_begins: "rs_txs s i = None \<Longrightarrow>
    rot_step s (set_tx i \<lparr>rx_args = a, rx_pc = Begun, rx_writes = Map.empty\<rparr> s)"
| select_finds_none: "rs_txs s i = Some t \<Longrightarrow> rx_pc t = Begun \<Longrightarrow> rs_rows s (ra_hash (rx_args t)) = None \<Longrightarrow>
    rot_step s (end_tx i (ra_hash (rx_args t)) (Inl ErrInvalidRefresh) s)"
| select_for_update: "rs_txs s i = Some t \<Longrightarrow> rx_pc t = Begun \<Longrightarrow> rs_rows s (ra_hash (rx_args t)) = Some r \<Longrightarrow>
    rs_locks s (ra_hash (rx_args t)) = None \<Longrightarrow>
    rot_step s (set_tx i (t\<lparr>rx_pc := Selected r\<rparr>) (lock_row i (ra_hash (rx_args t)) s))"
| reject: "rs_txs s i = Some t \<Longrightarrow> rx_pc t = Selected r \<Longrightarrow> \<not> usable_row (ra_now (rx_args t)) r \<Longrightarrow>
    rot_step s (end_tx i (ra_hash (rx_args t)) (Inl ErrInvalidRefresh) s)"
| mark_used: "rs_txs s i = Some t \<Longrightarrow> rx_pc t = Selected r \<Longrightarrow> usable_row (ra_now (rx_args t)) r \<Longrightarrow>
    rr_usedAt r = None \<Longrightarrow>
    rot_step s (set_tx i (t\<lparr>rx_pc := Marked r,
      rx_writes := [ra_hash (rx_args t) \<mapsto> used_row (ra_now (rx_args t)) r]\<rparr>) s)"
| insert_replacement: "rs_txs s i = Some t \<Longrightarrow> rx_pc t = Marked r \<Longrightarrow> rs_rows s (ra_replacement (rx_args t)) = None \<Longrightarrow>
    \<not> pending_insert s (ra_replacement (rx_args t)) \<Longrightarrow>
    rot_step s (set_tx i (t\<lparr>rx_pc := Inserted r, rx_writes := (rx_writes t)(ra_replacement (rx_args t) \<mapsto>
      new_row (rr_userID r) (rr_familyID r) (pg_time (ra_expires (rx_args t))))\<rparr>) s)"
| commit_rotation: "rs_txs s i = Some t \<Longrightarrow> rx_pc t = Inserted r \<Longrightarrow>
    rot_step s (commit_tx i t (Inr (rr_userID r)) s)"
| revoke_starts: "rs_txs s i = Some t \<Longrightarrow> rx_pc t = Selected r \<Longrightarrow> usable_row (ra_now (rx_args t)) r \<Longrightarrow>
    rr_usedAt r \<noteq> None \<Longrightarrow>
    rot_step s (set_tx i (t\<lparr>rx_pc := Revoking r (family_keys (rr_familyID r) (rs_rows s))\<rparr>) s)"
| revoke_row: "rs_txs s i = Some t \<Longrightarrow> rx_pc t = Revoking r ks \<Longrightarrow> k \<in> ks \<Longrightarrow> rs_locks s k \<in> {None, Some i} \<Longrightarrow>
    rs_rows s k = Some row \<Longrightarrow>
    rot_step s (set_tx i (t\<lparr>rx_pc := Revoking r (ks - {k}),
      rx_writes := (rx_writes t)(k \<mapsto> revoked_row (ra_now (rx_args t)) row)\<rparr>) (lock_row i k s))"
| commit_revocation: "rs_txs s i = Some t \<Longrightarrow> rx_pc t = Revoking r {} \<Longrightarrow>
    rot_step s (commit_tx i t (Inl ErrRefreshReuse) s)"
| commit_reply_lost: "rs_txs s i = Some t \<Longrightarrow> rx_pc t = Inserted r \<or> rx_pc t = Revoking r {} \<Longrightarrow>
    rot_step s (commit_tx i t (Inl (Auth_Err e)) s)"
| abort: "rs_txs s i = Some t \<Longrightarrow> rot_step s (end_tx i (ra_hash (rx_args t)) (Inl (Auth_Err e)) s)"
| session_starts: "rs_rows s h = None \<Longrightarrow> \<not> pending_insert s h \<Longrightarrow> family_keys fam (rs_rows s) = {} \<Longrightarrow>
    rot_step s (s\<lparr>rs_rows := (rs_rows s)(h \<mapsto> new_row u fam (pg_time e))\<rparr>)"

lemmas rot_defs = set_tx_def lock_row_def end_tx_def commit_tx_def

text \<open>The rows the steps write are those of the statements.\<close>

lemma sql_mark_used_row:
  "char64 h = Some h \<Longrightarrow> db_refresh db h = Some r \<Longrightarrow>
   db_refresh (snd (sql_mark_used h now db)) = (db_refresh db)(h \<mapsto> used_row now r)"
  by (simp add: sql_mark_used_def used_row_def)

lemma sql_revoke_family_rows:
  "db_refresh (snd (sql_revoke_family fam now db)) k =
   (if k \<in> family_keys fam (db_refresh db) then map_option (revoked_row now) (db_refresh db k) else db_refresh db k)"
  by (cases "db_refresh db k") (auto simp: sql_revoke_family_def family_keys_def revoked_row_def)

section \<open>The invariant\<close>

definition holds_row :: "rot_state \<Rightarrow> nat \<Rightarrow> rot_tx \<Rightarrow> refresh_row \<Rightarrow> bool" where
  "holds_row s i t r \<longleftrightarrow>
     rs_locks s (ra_hash (rx_args t)) = Some i \<and> rs_rows s (ra_hash (rx_args t)) = Some r"

definition rot_tx_ok :: "rot_state \<Rightarrow> nat \<Rightarrow> rot_tx \<Rightarrow> bool" where
  "rot_tx_ok s i t \<longleftrightarrow> (case rx_pc t of
     Begun \<Rightarrow> rx_writes t = Map.empty
   | Selected r \<Rightarrow> holds_row s i t r \<and> rx_writes t = Map.empty
   | Marked r \<Rightarrow> holds_row s i t r \<and> rr_usedAt r = None \<and> rr_revokedAt r = None \<and>
       rx_writes t = [ra_hash (rx_args t) \<mapsto> used_row (ra_now (rx_args t)) r]
   | Inserted r \<Rightarrow> holds_row s i t r \<and> rr_usedAt r = None \<and> rr_revokedAt r = None \<and>
       rs_rows s (ra_replacement (rx_args t)) = None \<and>
       rx_writes t = [ra_hash (rx_args t) \<mapsto> used_row (ra_now (rx_args t)) r,
         ra_replacement (rx_args t) \<mapsto> new_row (rr_userID r) (rr_familyID r) (pg_time (ra_expires (rx_args t)))]
   | Revoking r ks \<Rightarrow> holds_row s i t r \<and>
       (\<forall>k row'. rx_writes t k = Some row' \<longrightarrow> rs_locks s k = Some i \<and>
          (\<exists>row. rs_rows s k = Some row \<and> row' = revoked_row (ra_now (rx_args t)) row)))"

lemma rot_tx_ok_simps [simp]:
  "rx_pc t = Begun \<Longrightarrow> rot_tx_ok s i t \<longleftrightarrow> rx_writes t = Map.empty"
  "rx_pc t = Selected r \<Longrightarrow> rot_tx_ok s i t \<longleftrightarrow> holds_row s i t r \<and> rx_writes t = Map.empty"
  "rx_pc t = Marked r \<Longrightarrow> rot_tx_ok s i t \<longleftrightarrow> holds_row s i t r \<and> rr_usedAt r = None \<and> rr_revokedAt r = None \<and>
     rx_writes t = [ra_hash (rx_args t) \<mapsto> used_row (ra_now (rx_args t)) r]"
  by (simp_all add: rot_tx_ok_def)

definition successes :: "(string \<times> (auth_error + string)) list \<Rightarrow> string list" where
  "successes xs = map fst (filter (\<lambda>(h, q). \<not> isl q) xs)"

definition rot_inv :: "rot_state \<Rightarrow> bool" where
  "rot_inv s \<longleftrightarrow> one_live (rs_rows s) \<and> (\<forall>i t. rs_txs s i = Some t \<longrightarrow> rot_tx_ok s i t) \<and>
     (\<forall>k i. rs_locks s k = Some i \<longrightarrow> rs_rows s k \<noteq> None) \<and>
     (\<forall>i t r j t' r'. rs_txs s i = Some t \<longrightarrow> rx_pc t = Inserted r \<longrightarrow> rs_txs s j = Some t' \<longrightarrow> rx_pc t' = Inserted r' \<longrightarrow>
        ra_replacement (rx_args t) = ra_replacement (rx_args t') \<longrightarrow> i = j) \<and>
     distinct (successes (rs_answers s)) \<and>
     (\<forall>h \<in> set (successes (rs_answers s)). \<exists>r. rs_rows s h = Some r \<and> rr_usedAt r \<noteq> None)"

text \<open>What one transaction relies on, the others leave alone.\<close>

lemma rot_tx_ok_frame:
  assumes "rot_tx_ok s j t"
    and "\<And>k. rs_locks s k = Some j \<Longrightarrow> rs_locks s' k = Some j \<and> rs_rows s' k = rs_rows s k"
    and "\<And>r. rx_pc t = Inserted r \<Longrightarrow> rs_rows s' (ra_replacement (rx_args t)) = None"
  shows "rot_tx_ok s' j t"
  using assms by (cases "rx_pc t") (fastforce simp: rot_tx_ok_def holds_row_def)+

lemma one_live_replace:
  assumes "one_live T" and "T h = Some r" "rr_usedAt r = None" "rr_revokedAt r = None" and "h \<noteq> h'"
  shows "one_live (T(h \<mapsto> used_row now r, h' \<mapsto> new_row u (rr_familyID r) e))"
proof -
  let ?T = "T(h \<mapsto> used_row now r, h' \<mapsto> new_row u (rr_familyID r) e)"
  have "live T (rr_familyID r) h" using assms(2-4) by (simp add: live_def)
  moreover have "k = h' \<and> f = rr_familyID r \<or> k \<noteq> h' \<and> k \<noteq> h \<and> live T f k" if "live ?T f k" for f k
    using that \<open>h \<noteq> h'\<close> by (auto simp: live_def used_row_def new_row_def split: if_splits)
  ultimately show ?thesis using assms(1) unfolding one_live_def by metis
qed

lemma one_live_new_family:
  assumes "one_live T" and "family_keys fam T = {}"
  shows "one_live (T(h \<mapsto> new_row u fam e))"
proof -
  have "\<not> live T fam k" for k using assms(2) by (auto simp: family_keys_def live_def)
  moreover have "k = h \<and> f = fam \<or> k \<noteq> h \<and> live T f k" if "live (T(h \<mapsto> new_row u fam e)) f k" for f k
    using that by (auto simp: live_def new_row_def split: if_splits)
  ultimately show ?thesis using assms(1) unfolding one_live_def by metis
qed

lemma one_live_revoke:
  assumes "one_live T" and "\<And>k row'. W k = Some row' \<Longrightarrow> rr_revokedAt row' \<noteq> None"
  shows "one_live (T ++ W)"
proof -
  have "live T f k" if "live (T ++ W) f k" for f k
    using that assms(2) [of k] by (auto simp: live_def map_add_Some_iff)
  with assms(1) show ?thesis unfolding one_live_def by metis
qed

section \<open>The steps keep it\<close>

lemma rot_invD:
  assumes "rot_inv s"
  shows "one_live (rs_rows s)" and "rs_txs s i = Some t \<Longrightarrow> rot_tx_ok s i t"
    and "rs_locks s k = Some i \<Longrightarrow> rs_rows s k \<noteq> None"
    and "rs_txs s i = Some t \<Longrightarrow> rx_pc t = Inserted r \<Longrightarrow> rs_txs s j = Some t' \<Longrightarrow> rx_pc t' = Inserted r' \<Longrightarrow>
      ra_replacement (rx_args t) = ra_replacement (rx_args t') \<Longrightarrow> i = j"
    and "distinct (successes (rs_answers s))"
    and "h \<in> set (successes (rs_answers s)) \<Longrightarrow> \<exists>r. rs_rows s h = Some r \<and> rr_usedAt r \<noteq> None"
  using assms unfolding rot_inv_def by blast+

lemma rot_inv_set_tx:
  assumes inv: "rot_inv s" and ok: "rot_tx_ok (set_tx i t s) i t"
    and ins: "\<And>r. rx_pc t = Inserted r \<Longrightarrow> \<not> pending_insert s (ra_replacement (rx_args t))"
  shows "rot_inv (set_tx i t s)"
proof -
  have frame: "rot_tx_ok (set_tx i t s) j t'" if "rot_tx_ok s j t'" for j t'
    using that rot_tx_ok_frame [OF that, of "set_tx i t s"]
    by (cases "rx_pc t'") (auto simp: rot_tx_ok_def holds_row_def set_tx_def)
  have apart: "ra_replacement (rx_args t) \<noteq> ra_replacement (rx_args t')"
    if "rx_pc t = Inserted r" "rs_txs s j = Some t'" "rx_pc t' = Inserted r'" for t' r r' j
    using ins [OF that(1)] that(2,3) unfolding pending_insert_def by metis
  show ?thesis
    unfolding rot_inv_def
  proof (intro conjI allI impI)
    fix j t' assume "rs_txs (set_tx i t s) j = Some t'"
    then show "rot_tx_ok (set_tx i t s) j t'"
      using ok frame rot_invD(2) [OF inv] by (cases "j = i") (auto simp: set_tx_def)
  next
    fix a x r b y r'
    assume as: "rs_txs (set_tx i t s) a = Some x" "rx_pc x = Inserted r" "rs_txs (set_tx i t s) b = Some y"
      "rx_pc y = Inserted r'" "ra_replacement (rx_args x) = ra_replacement (rx_args y)"
    show "a = b"
    proof (rule ccontr)
      assume "a \<noteq> b"
      then consider "a = i" "b \<noteq> i" | "a \<noteq> i" "b = i" | "a \<noteq> i" "b \<noteq> i" by blast
      then show False
      proof cases
        case 1
        with as show False using apart [of r b y r'] by (auto simp: set_tx_def)
      next
        case 2
        with as show False using apart [of r' a x r] by (auto simp: set_tx_def)
      next
        case 3
        with as \<open>a \<noteq> b\<close> show False using rot_invD(4) [OF inv, of a x r b y r'] by (simp add: set_tx_def)
      qed
    qed
  next
    show "one_live (rs_rows (set_tx i t s))" using rot_invD(1) [OF inv] by (simp add: set_tx_def)
    show "distinct (successes (rs_answers (set_tx i t s)))" using rot_invD(5) [OF inv] by (simp add: set_tx_def)
    show "\<forall>h \<in> set (successes (rs_answers (set_tx i t s))).
        \<exists>r. rs_rows (set_tx i t s) h = Some r \<and> rr_usedAt r \<noteq> None"
      using rot_invD(6) [OF inv] by (simp add: set_tx_def)
    fix k j assume "rs_locks (set_tx i t s) k = Some j"
    then show "rs_rows (set_tx i t s) k \<noteq> None" using rot_invD(3) [OF inv, of k j] by (simp add: set_tx_def)
  qed
qed

lemma rot_inv_lock_row:
  assumes inv: "rot_inv s" and "rs_locks s k \<in> {None, Some i}" and "rs_rows s k \<noteq> None"
  shows "rot_inv (lock_row i k s)"
proof -
  have "rot_tx_ok (lock_row i k s) j t" if "rs_txs s j = Some t" for j t
  proof (rule rot_tx_ok_frame [OF rot_invD(2) [OF inv that]])
    fix k' assume "rs_locks s k' = Some j"
    with assms(2) show "rs_locks (lock_row i k s) k' = Some j \<and> rs_rows (lock_row i k s) k' = rs_rows s k'"
      by (auto simp: lock_row_def)
  next
    fix r assume "rx_pc t = Inserted r"
    with rot_invD(2) [OF inv that] show "rs_rows (lock_row i k s) (ra_replacement (rx_args t)) = None"
      by (simp add: rot_tx_ok_def lock_row_def)
  qed
  with inv assms(3) show ?thesis by (auto simp: rot_inv_def lock_row_def)
qed

lemma successes_append [simp]:
  "successes (xs @ [(h, Inl e)]) = successes xs" "successes (xs @ [(h, Inr u)]) = successes xs @ [h]"
  by (simp_all add: successes_def)

text \<open>The end of a transaction that installs new rows (none, when it is rolled back).\<close>

lemma rot_inv_end_tx:
  assumes inv: "rot_inv s" and R: "one_live R"
    and locked: "\<And>k j. rs_locks s k = Some j \<Longrightarrow> j \<noteq> i \<Longrightarrow> R k = rs_rows s k"
    and fresh: "\<And>j t r. rs_txs s j = Some t \<Longrightarrow> j \<noteq> i \<Longrightarrow> rx_pc t = Inserted r \<Longrightarrow> R (ra_replacement (rx_args t)) = None"
    and used: "\<And>k r. rs_rows s k = Some r \<Longrightarrow> rr_usedAt r \<noteq> None \<Longrightarrow> \<exists>r'. R k = Some r' \<and> rr_usedAt r' \<noteq> None"
    and won: "\<And>u. q = Inr u \<Longrightarrow> h \<notin> set (successes (rs_answers s)) \<and> (\<exists>r. R h = Some r \<and> rr_usedAt r \<noteq> None)"
  shows "rot_inv (end_tx i h q (s\<lparr>rs_rows := R\<rparr>))"
proof -
  let ?s = "end_tx i h q (s\<lparr>rs_rows := R\<rparr>)"
  have ok: "rot_tx_ok ?s j t" if "rs_txs ?s j = Some t" for j t
  proof -
    from that have t: "rs_txs s j = Some t" "j \<noteq> i" by (auto simp: end_tx_def split: if_splits)
    show ?thesis
      by (rule rot_tx_ok_frame [OF rot_invD(2) [OF inv t(1)]]) (use t locked fresh in \<open>auto simp: end_tx_def\<close>)
  qed
  have lk: "rs_rows ?s k \<noteq> None" if "rs_locks ?s k = Some j" for k j
    using that rot_invD(3) [OF inv, of k j] locked [of k j] by (auto simp: end_tx_def split: if_splits)
  have ab: "a = b" if "rs_txs ?s a = Some x" "rx_pc x = Inserted r" "rs_txs ?s b = Some y"
      "rx_pc y = Inserted r'" "ra_replacement (rx_args x) = ra_replacement (rx_args y)" for a x r b y r'
    using that rot_invD(4) [OF inv, of a x r b y r'] by (auto simp: end_tx_def split: if_splits)
  have ans: "distinct (successes (rs_answers ?s)) \<and>
      (\<forall>k \<in> set (successes (rs_answers ?s)). \<exists>r. rs_rows ?s k = Some r \<and> rr_usedAt r \<noteq> None)"
  proof -
    have old: "\<exists>r. R k = Some r \<and> rr_usedAt r \<noteq> None" if "k \<in> set (successes (rs_answers s))" for k
      using rot_invD(6) [OF inv that] used by blast
    show ?thesis
    proof (cases q)
      case (Inl e)
      with old rot_invD(5) [OF inv] show ?thesis by (simp add: end_tx_def)
    next
      case (Inr u)
      with old rot_invD(5) [OF inv] won [OF Inr] show ?thesis by (auto simp: end_tx_def)
    qed
  qed
  have "one_live (rs_rows ?s)" using R by (simp add: end_tx_def)
  with ok lk ab ans show ?thesis unfolding rot_inv_def by (intro conjI allI impI) blast+
qed

lemma rot_inv_rollback: "rot_inv s \<Longrightarrow> rot_inv (end_tx i h (Inl e) s)"
  using rot_inv_end_tx [of s "rs_rows s" i "Inl e" h] rot_invD [of s]
  by (force simp: rot_tx_ok_def)

text \<open>A commit installs the writes of the transaction.\<close>

lemma rot_inv_commit_rotation:
  assumes inv: "rot_inv s" and t: "rs_txs s i = Some t" "rx_pc t = Inserted r"
  shows "rot_inv (commit_tx i t q s)"
proof -
  let ?h = "ra_hash (rx_args t)" and ?h' = "ra_replacement (rx_args t)"
  let ?n = "new_row (rr_userID r) (rr_familyID r) (pg_time (ra_expires (rx_args t)))"
  let ?u = "used_row (ra_now (rx_args t)) r" and ?T = "rs_rows s"
  from rot_invD(2) [OF inv t(1)] t(2) have w: "rx_writes t = [?h \<mapsto> ?u, ?h' \<mapsto> ?n]"
    and h: "rs_locks s ?h = Some i" "?T ?h = Some r" and live: "rr_usedAt r = None" "rr_revokedAt r = None"
    and h': "?T ?h' = None" by (simp_all add: rot_tx_ok_def holds_row_def)
  from h(2) h' have ne: "?h \<noteq> ?h'" by auto
  have R: "?T ++ rx_writes t = ?T(?h \<mapsto> ?u, ?h' \<mapsto> ?n)" by (auto simp: w fun_eq_iff map_add_def)
  have "rot_inv (end_tx i ?h q (s\<lparr>rs_rows := ?T(?h \<mapsto> ?u, ?h' \<mapsto> ?n)\<rparr>))"
  proof (rule rot_inv_end_tx [OF inv])
    show "one_live (?T(?h \<mapsto> ?u, ?h' \<mapsto> ?n))" by (rule one_live_replace [OF rot_invD(1) [OF inv] h(2) live ne])
  next
    fix k j assume "rs_locks s k = Some j" "j \<noteq> i"
    with h(1) h' rot_invD(3) [OF inv, of k j] show "(?T(?h \<mapsto> ?u, ?h' \<mapsto> ?n)) k = ?T k" by auto
  next
    fix j t' r' assume o: "rs_txs s j = Some t'" "j \<noteq> i" "rx_pc t' = Inserted r'"
    from rot_invD(2) [OF inv o(1)] o(3) have "?T (ra_replacement (rx_args t')) = None" by (simp add: rot_tx_ok_def)
    with h(2) rot_invD(4) [OF inv t o(1,3)] o(2)
    show "(?T(?h \<mapsto> ?u, ?h' \<mapsto> ?n)) (ra_replacement (rx_args t')) = None" by auto
  next
    fix k r' assume "?T k = Some r'" "rr_usedAt r' \<noteq> None"
    with h(2) h' live show "\<exists>r'. (?T(?h \<mapsto> ?u, ?h' \<mapsto> ?n)) k = Some r' \<and> rr_usedAt r' \<noteq> None"
      by (cases "k = ?h"; cases "k = ?h'") auto
  next
    fix u assume "q = Inr u"
    have "?h \<notin> set (successes (rs_answers s))" using rot_invD(6) [OF inv, of ?h] h(2) live by auto
    then show "?h \<notin> set (successes (rs_answers s)) \<and>
        (\<exists>r. (?T(?h \<mapsto> ?u, ?h' \<mapsto> ?n)) ?h = Some r \<and> rr_usedAt r \<noteq> None)"
      using ne by (simp add: used_row_def)
  qed
  then show ?thesis by (simp add: commit_tx_def R)
qed

lemma rot_inv_commit_revocation:
  assumes inv: "rot_inv s" and t: "rs_txs s i = Some t" "rx_pc t = Revoking r ks"
  shows "rot_inv (commit_tx i t (Inl e) s)"
proof -
  let ?T = "rs_rows s" and ?W = "rx_writes t"
  have w: "rs_locks s k = Some i \<and> (\<exists>row. ?T k = Some row \<and> row' = revoked_row (ra_now (rx_args t)) row)"
    if "?W k = Some row'" for k row'
    using rot_invD(2) [OF inv t(1)] t(2) that by (simp add: rot_tx_ok_def)
  have "rot_inv (end_tx i (ra_hash (rx_args t)) (Inl e) (s\<lparr>rs_rows := ?T ++ ?W\<rparr>))"
  proof (rule rot_inv_end_tx [OF inv])
    show "one_live (?T ++ ?W)"
    proof (rule one_live_revoke [OF rot_invD(1) [OF inv]])
      fix k row' assume "?W k = Some row'"
      from w [OF this] show "rr_revokedAt row' \<noteq> None" by (auto simp: revoked_row_def split: option.splits)
    qed
  next
    fix k j assume "rs_locks s k = Some j" "j \<noteq> i"
    with w [of k] show "(?T ++ ?W) k = ?T k" by (cases "?W k") (auto simp: map_add_def)
  next
    fix j t' r' assume o: "rs_txs s j = Some t'" "j \<noteq> i" "rx_pc t' = Inserted r'"
    from rot_invD(2) [OF inv o(1)] o(3) have "?T (ra_replacement (rx_args t')) = None" by (simp add: rot_tx_ok_def)
    with w [of "ra_replacement (rx_args t')"] show "(?T ++ ?W) (ra_replacement (rx_args t')) = None"
      by (cases "?W (ra_replacement (rx_args t'))") auto
  next
    fix k r' assume "?T k = Some r'" "rr_usedAt r' \<noteq> None"
    with w [of k] show "\<exists>r'. (?T ++ ?W) k = Some r' \<and> rr_usedAt r' \<noteq> None"
      by (cases "?W k") (auto simp: map_add_def revoked_row_def)
  qed simp
  then show ?thesis by (simp add: commit_tx_def)
qed

lemma rot_step_inv: "rot_step s s' \<Longrightarrow> rot_inv s \<Longrightarrow> rot_inv s'"
proof (induction rule: rot_step.induct)
  case (tx_begins s i a)
  then show ?case by (intro rot_inv_set_tx) simp_all
next
  case (select_for_update s i t r)
  let ?s = "lock_row i (ra_hash (rx_args t)) s"
  from select_for_update have inv: "rot_inv ?s" by (intro rot_inv_lock_row) simp_all
  from rot_invD(2) [OF select_for_update.prems select_for_update.hyps(1)] select_for_update.hyps
  show ?case by (intro rot_inv_set_tx [OF inv]) (simp_all add: holds_row_def set_tx_def lock_row_def)
next
  case (mark_used s i t r)
  from rot_invD(2) [OF mark_used.prems mark_used.hyps(1)] mark_used.hyps
  show ?case
    by (intro rot_inv_set_tx [OF mark_used.prems]) (simp_all add: holds_row_def set_tx_def usable_row_def)
next
  case (insert_replacement s i t r)
  from rot_invD(2) [OF insert_replacement.prems insert_replacement.hyps(1)] insert_replacement.hyps
  show ?case
    by (intro rot_inv_set_tx [OF insert_replacement.prems]) (simp_all add: rot_tx_ok_def holds_row_def set_tx_def)
next
  case (commit_rotation s i t r)
  then show ?case by (intro rot_inv_commit_rotation) simp_all
next
  case (revoke_starts s i t r)
  from rot_invD(2) [OF revoke_starts.prems revoke_starts.hyps(1)] revoke_starts.hyps
  show ?case
    by (intro rot_inv_set_tx [OF revoke_starts.prems]) (simp_all add: rot_tx_ok_def holds_row_def set_tx_def)
next
  case (revoke_row s i t r ks k row)
  let ?s = "lock_row i k s"
  from revoke_row have inv: "rot_inv ?s" by (intro rot_inv_lock_row) simp_all
  from rot_invD(2) [OF revoke_row.prems revoke_row.hyps(1)] revoke_row.hyps
  show ?case by (intro rot_inv_set_tx [OF inv]) (auto simp: rot_tx_ok_def holds_row_def set_tx_def lock_row_def)
next
  case (commit_revocation s i t r)
  then show ?case by (intro rot_inv_commit_revocation) simp_all
next
  case (commit_reply_lost s i t r e)
  from commit_reply_lost.hyps(2) show ?case
  proof
    assume "rx_pc t = Inserted r"
    with commit_reply_lost show ?thesis by (intro rot_inv_commit_rotation) simp_all
  next
    assume "rx_pc t = Revoking r {}"
    with commit_reply_lost show ?thesis by (intro rot_inv_commit_revocation) simp_all
  qed
next
  case (session_starts s h fam u e)
  let ?R = "(rs_rows s)(h \<mapsto> new_row u fam (pg_time e))"
  note inv = session_starts.prems
  have "rot_tx_ok (s\<lparr>rs_rows := ?R\<rparr>) j t" if "rs_txs s j = Some t" for j t
  proof (rule rot_tx_ok_frame [OF rot_invD(2) [OF inv that]])
    fix k assume "rs_locks s k = Some j"
    with rot_invD(3) [OF inv this] session_starts.hyps(1)
    show "rs_locks (s\<lparr>rs_rows := ?R\<rparr>) k = Some j \<and> rs_rows (s\<lparr>rs_rows := ?R\<rparr>) k = rs_rows s k" by auto
  next
    fix r assume "rx_pc t = Inserted r"
    with rot_invD(2) [OF inv that] session_starts.hyps(2) that
    show "rs_rows (s\<lparr>rs_rows := ?R\<rparr>) (ra_replacement (rx_args t)) = None"
      unfolding pending_insert_def by (auto simp: rot_tx_ok_def)
  qed
  with one_live_new_family [OF rot_invD(1) [OF inv] session_starts.hyps(3), of h u "pg_time e"] inv
    session_starts.hyps(1)
  show ?case unfolding rot_inv_def by (auto simp: new_row_def)
qed (auto intro: rot_inv_rollback)

lemma rot_reachable_inv: "rot_step\<^sup>*\<^sup>* s s' \<Longrightarrow> rot_inv s \<Longrightarrow> rot_inv s'"
  by (induction rule: rtranclp_induct) (auto intro: rot_step_inv)

lemma rot_inv_start: "one_live T \<Longrightarrow> rot_inv (rot_start T)"
  by (simp add: rot_inv_def rot_start_def successes_def)

section \<open>Properties\<close>

text \<open>
  C5: whatever the interleaving of the transactions that rotate refresh tokens over PostgreSQL, with
  connections lost and transactions aborted at any point and new sessions started in between, no family ever has
  two usable tokens, and no token is exchanged successfully twice.
\<close>

theorem concurrent_rotations_keep_one_token:
  assumes "one_live T" and "rot_step\<^sup>*\<^sup>* (rot_start T) s"
  shows "one_live (rs_rows s) \<and> distinct (successes (rs_answers s))"
  using rot_invD(1,5) [OF rot_reachable_inv [OF assms(2) rot_inv_start [OF assms(1)]]] by blast


section \<open>A race\<close>

text \<open>
  A family with a used token \<^verbatim>\<open>h1\<close> and the current one, \<^verbatim>\<open>h2\<close>. The first transaction rotates \<^verbatim>\<open>h2\<close> to
  \<^verbatim>\<open>h3\<close>; the second one presents \<^verbatim>\<open>h1\<close> and revokes the family while the first has not committed.
\<close>

definition race_row :: "instant option \<Rightarrow> instant option \<Rightarrow> refresh_row" where
  "race_row used revoked = \<lparr>rr_userID = ''u'', rr_familyID = ''f'', rr_expiresAt = 1000 * second,
     rr_usedAt = used, rr_revokedAt = revoked\<rparr>"

definition race_table :: refresh_table where
  "race_table = [''h1'' \<mapsto> race_row (Some second) None, ''h2'' \<mapsto> race_row None None]"

definition rotates_h2 :: rot_args where
  "rotates_h2 = \<lparr>ra_hash = ''h2'', ra_replacement = ''h3'', ra_expires = 2000 * second, ra_now = 5 * second\<rparr>"

definition presents_h1 :: rot_args where
  "presents_h1 = \<lparr>ra_hash = ''h1'', ra_replacement = ''h4'', ra_expires = 2000 * second, ra_now = 6 * second\<rparr>"

lemma race_keys: "family_keys ''f'' race_table = {''h1'', ''h2''}"
  by (auto simp: family_keys_def race_table_def race_row_def split: if_splits)

text \<open>The run: the update waits for the row of \<^verbatim>\<open>h2\<close>, and the rotation commits meanwhile.\<close>

lemma race_run:
  "\<exists>s. rot_step\<^sup>*\<^sup>* (rot_start race_table) s \<and> rs_txs s = Map.empty \<and>
     rs_answers s = [(''h2'', Inr ''u''), (''h1'', Inl ErrRefreshReuse)] \<and>
     rs_rows s ''h3'' = Some (new_row ''u'' ''f'' (pg_time (2000 * second)))"
proof -
  let ?r1 = "race_row (Some second) None" and ?r2 = "race_row None None"
  let ?w1 = "[''h2'' \<mapsto> used_row (5 * second) ?r2]"
  let ?w1' = "?w1(''h3'' \<mapsto> new_row ''u'' ''f'' (pg_time (2000 * second)))"
  let ?w2 = "[''h1'' \<mapsto> revoked_row (6 * second) ?r1]"
  let ?w2' = "?w2(''h2'' \<mapsto> revoked_row (6 * second) (used_row (5 * second) ?r2))"
  let ?t1 = "\<lambda>pc w. \<lparr>rx_args = rotates_h2, rx_pc = pc, rx_writes = w\<rparr>"
  let ?t2 = "\<lambda>pc w. \<lparr>rx_args = presents_h1, rx_pc = pc, rx_writes = w\<rparr>"
  let ?a = "rot_start race_table"
  let ?b = "set_tx 1 (?t1 Begun Map.empty) ?a"
  let ?c = "set_tx 2 (?t2 Begun Map.empty) ?b"
  let ?d = "set_tx 1 (?t1 (Selected ?r2) Map.empty) (lock_row 1 ''h2'' ?c)"
  let ?e = "set_tx 1 (?t1 (Marked ?r2) ?w1) ?d"
  let ?f = "set_tx 1 (?t1 (Inserted ?r2) ?w1') ?e"
  let ?g = "set_tx 2 (?t2 (Selected ?r1) Map.empty) (lock_row 2 ''h1'' ?f)"
  let ?h = "set_tx 2 (?t2 (Revoking ?r1 {''h1'', ''h2''}) Map.empty) ?g"
  let ?i = "set_tx 2 (?t2 (Revoking ?r1 {''h2''}) ?w2) (lock_row 2 ''h1'' ?h)"
  let ?j = "commit_tx 1 (?t1 (Inserted ?r2) ?w1') (Inr ''u'') ?i"
  let ?k = "set_tx 2 (?t2 (Revoking ?r1 {}) ?w2') (lock_row 2 ''h2'' ?j)"
  let ?l = "commit_tx 2 (?t2 (Revoking ?r1 {}) ?w2') (Inl ErrRefreshReuse) ?k"
  note d = rot_defs rot_start_def race_table_def rotates_h2_def presents_h1_def pending_insert_def usable_row_def
    race_row_def
  note into = rtranclp.rtrancl_into_rtrancl [of rot_step ?a]
  have "rot_step\<^sup>*\<^sup>* ?a ?b" by (rule into [OF rtranclp.rtrancl_refl], rule rot_step.tx_begins) (simp add: d)
  from this have "rot_step\<^sup>*\<^sup>* ?a ?c" by (rule into) (rule rot_step.tx_begins, simp add: d)
  from this have "rot_step\<^sup>*\<^sup>* ?a ?d"
    by (rule into) (use rot_step.select_for_update [of ?c 1 "?t1 Begun Map.empty" ?r2] in \<open>simp add: d\<close>)
  from this have "rot_step\<^sup>*\<^sup>* ?a ?e"
    by (rule into) (use rot_step.mark_used [of ?d 1 "?t1 (Selected ?r2) Map.empty" ?r2] in \<open>simp add: d\<close>)
  from this have "rot_step\<^sup>*\<^sup>* ?a ?f"
    by (rule into) (use rot_step.insert_replacement [of ?e 1 "?t1 (Marked ?r2) ?w1" ?r2] in \<open>simp add: d\<close>)
  from this have "rot_step\<^sup>*\<^sup>* ?a ?g"
    by (rule into) (use rot_step.select_for_update [of ?f 2 "?t2 Begun Map.empty" ?r1] in \<open>simp add: d\<close>)
  from this have "rot_step\<^sup>*\<^sup>* ?a ?h"
    by (rule into) (use rot_step.revoke_starts [of ?g 2 "?t2 (Selected ?r1) Map.empty" ?r1] race_keys in \<open>simp add: d\<close>)
  from this have "rot_step\<^sup>*\<^sup>* ?a ?i"
    by (rule into) (use rot_step.revoke_row [of ?h 2 "?t2 (Revoking ?r1 {''h1'', ''h2''}) Map.empty" ?r1 _ "''h1''" ?r1]
        in \<open>simp add: d insert_Diff_if\<close>)
  from this have "rot_step\<^sup>*\<^sup>* ?a ?j"
    by (rule into) (use rot_step.commit_rotation [of ?i 1 "?t1 (Inserted ?r2) ?w1'" ?r2] in \<open>simp add: d\<close>)
  from this have "rot_step\<^sup>*\<^sup>* ?a ?k"
    by (rule into) (use rot_step.revoke_row [of ?j 2 "?t2 (Revoking ?r1 {''h2''}) ?w2" ?r1 _ "''h2''"
          "used_row (5 * second) ?r2"] in \<open>simp add: d\<close>)
  from this have "rot_step\<^sup>*\<^sup>* ?a ?l"
    by (rule into) (rule rot_step.commit_revocation [where r = ?r1], simp_all add: d)
  moreover have "rs_txs ?l = Map.empty" by (simp add: d)
  moreover have "rs_answers ?l = [(''h2'', Inr ''u''), (''h1'', Inl ErrRefreshReuse)]" by (simp add: d)
  moreover have "rs_rows ?l ''h3'' = Some (new_row ''u'' ''f'' (pg_time (2000 * second)))" by (simp add: d)
  ultimately show ?thesis by blast
qed

text \<open>
  C6: a family revoked because of reuse can keep a usable token. While the second transaction waits for the
  row of \<^verbatim>\<open>h2\<close>, the first one commits the replacement, which the update does not see: the reuse is answered
  with ErrRefreshReuse, every token the family had is revoked, and \<^verbatim>\<open>h3\<close> still works.
\<close>

theorem revocation_misses_concurrent_rotation:
  "\<exists>s. rot_step\<^sup>*\<^sup>* (rot_start race_table) s \<and> rs_txs s = Map.empty \<and>
     rs_answers s = [(''h2'', Inr ''u''), (''h1'', Inl ErrRefreshReuse)] \<and> live (rs_rows s) ''f'' ''h3'' \<and>
     fst (rotate_spec ''h3'' ''h5'' (3000 * second) (7 * second) (rs_rows s)) = Inr ''u''"
proof -
  have "7 * second < pg_time (2000 * second)" by (simp add: pg_time_def)
  with race_run show ?thesis by (fastforce simp: live_def rotate_spec_def new_row_def)
qed

lemma race_one_live: "one_live race_table"
  unfolding one_live_def
proof (intro allI impI)
  fix f h h'
  have "h = ''h2''" if "live race_table f h" for h
    using that by (auto simp: live_def race_table_def race_row_def split: if_splits)
  then show "h = h'" if "live race_table f h \<and> live race_table f h'" using that by metis
qed

theorem concurrent_rotations_keep_one_token_witness:
  "\<exists>s. rot_step\<^sup>*\<^sup>* (rot_start race_table) s \<and> rs_answers s = [(''h2'', Inr ''u''), (''h1'', Inl ErrRefreshReuse)] \<and>
     one_live (rs_rows s) \<and> distinct (successes (rs_answers s))"
proof -
  obtain s where "rot_step\<^sup>*\<^sup>* (rot_start race_table) s"
    "rs_answers s = [(''h2'', Inr ''u''), (''h1'', Inl ErrRefreshReuse)]" using race_run by blast
  with concurrent_rotations_keep_one_token [OF race_one_live this(1)] show ?thesis by blast
qed

end
