(* ===== verification/PgSessions.thy ===== *)
theory PgSessions
  imports PgHistory AuthDemo
begin

text \<open>
  Sessions over PostgreSQL: the service on the PostgreSQL user and token repository, call after call, for any
  times and whatever statements or replies are lost. A family whose reuse was detected stays dead.
\<close>

section \<open>The rotation transaction\<close>

lemma pg_exec_Inr:
  "pg_exec env stmt w = (Inr v, w') \<Longrightarrow> stmt (fst (env (snd w))) (fst w) = (Inr v, fst w')"
  by (cases w; cases "env (snd w)"; cases "su_fault (fst (env (snd w)))")
    (auto simp: pg_exec_def split: prod.splits)

lemma tx_commit_db: "tx_commit env new w = (q, w') \<Longrightarrow> fst w' = fst w \<or> fst w' = new"
  using pg_exec_db [of env "\<lambda>su db. (Inr (), new)" w] by (auto simp: tx_commit_def)

lemma tx_commit_Inr: "tx_commit env new w = (Inr v, w') \<Longrightarrow> fst w' = new"
  unfolding tx_commit_def by (drule pg_exec_Inr) simp

definition refused :: "(auth_error, 'a) result \<Rightarrow> bool" where
  "refused r \<longleftrightarrow> (\<exists>m. r = Inl (Auth_Err m))"

lemma refused_au_error [simp]: "refused (Inl (au_error e))"
  by (simp add: refused_def au_error_def)

text \<open>Its two branches: the family is revoked, or the token is marked and its replacement inserted.\<close>

lemma revoke_branch:
  assumes "(case pg_exec env (\<lambda>su. sql_revoke_family fam now) (db, x) of
       (Inl e, (_, x)) \<Rightarrow> (Inl (au_error e), (db, x))
     | (Inr _, (db1, x)) \<Rightarrow>
         (case tx_commit env db1 (db, x) of (Inl e, w') \<Rightarrow> (Inl (au_error e), w') | (Inr _, w') \<Rightarrow> (Inl ErrRefreshReuse, w')))
     = (q, w')"
  shows "fst w' = db \<and> refused q \<or>
    fst w' = snd (sql_revoke_family fam now db) \<and> (q = Inl ErrRefreshReuse \<or> refused q)"
proof -
  obtain q2 d2 x2 where rev: "pg_exec env (\<lambda>su. sql_revoke_family fam now) (db, x) = (q2, (d2, x2))"
    by (metis prod.exhaust)
  obtain q3 w3 where com: "tx_commit env d2 (db, x2) = (q3, w3)" by (rule prod.exhaust)
  note run = assms [unfolded rev prod.case]
  show ?thesis
  proof (cases q2)
    case q2: (Inr v)
    from pg_exec_Inr [OF rev [unfolded q2]] have d2: "d2 = snd (sql_revoke_family fam now db)" by simp
    from tx_commit_db [OF com] d2 have "fst w3 = db \<or> fst w3 = snd (sql_revoke_family fam now db)" by auto
    moreover have "fst w3 = snd (sql_revoke_family fam now db)" if "q3 = Inr v'" for v'
      using tx_commit_Inr [OF com [unfolded that]] d2 by simp
    ultimately show ?thesis using run q2 com by (cases q3) auto
  qed (use run in auto)
qed

lemma rotate_branch:
  assumes "(case pg_exec env (\<lambda>su. sql_mark_used h now) (db, x) of
       (Inl e, (_, x)) \<Rightarrow> (Inl (au_error e), (db, x))
     | (Inr _, (db1, x)) \<Rightarrow>
         (case pg_exec env (\<lambda>su. sql_insert_refresh lib h' u fam expires) (db1, x) of
            (Inl e, (_, x)) \<Rightarrow> (Inl (au_error e), (db, x))
          | (Inr _, (db2, x)) \<Rightarrow>
              (case tx_commit env db2 (db, x) of (Inl e, w') \<Rightarrow> (Inl (au_error e), w') | (Inr _, w') \<Rightarrow> (Inr u, w'))))
     = (q, w')"
  shows "fst w' = db \<and> refused q \<or>
    (\<exists>db1. sql_mark_used h now db = (Inr (), db1) \<and> sql_insert_refresh lib h' u fam expires db1 = (Inr (), fst w')) \<and>
    (q = Inr u \<or> refused q)"
proof -
  obtain q4 d4 x4 where mark: "pg_exec env (\<lambda>su. sql_mark_used h now) (db, x) = (q4, (d4, x4))"
    by (metis prod.exhaust)
  obtain q5 d5 x5 where ins: "pg_exec env (\<lambda>su. sql_insert_refresh lib h' u fam expires) (d4, x4) = (q5, (d5, x5))"
    by (metis prod.exhaust)
  obtain q6 w6 where com: "tx_commit env d5 (db, x5) = (q6, w6)" by (rule prod.exhaust)
  note run = assms [unfolded mark prod.case]
  show ?thesis
  proof (cases "\<exists>v4 v5. q4 = Inr v4 \<and> q5 = Inr v5")
    case False
    with run ins show ?thesis by (auto split: sum.splits)
  next
    case True
    then obtain v4 v5 where q4: "q4 = Inr v4" and q5: "q5 = Inr v5" by blast
    from pg_exec_Inr [OF mark [unfolded q4]] have m: "sql_mark_used h now db = (Inr (), d4)" by simp
    from pg_exec_Inr [OF ins [unfolded q5]] have i: "sql_insert_refresh lib h' u fam expires d4 = (Inr (), d5)" by simp
    from tx_commit_db [OF com] have "fst w6 = db \<or> fst w6 = d5" by auto
    moreover have "fst w6 = d5" if "q6 = Inr v" for v using tx_commit_Inr [OF com [unfolded that]] .
    ultimately show ?thesis using run ins com q4 q5 m i by (cases q6) auto
  qed
qed

text \<open>What RotateRefresh does to the database, and what it answers.\<close>

lemma rotate_effect:
  assumes "pa_RotateRefresh lib env h h' expires now w = (q, w')"
  obtains (kept) "fst w' = fst w" "refused q"
  | (invalid) "fst w' = fst w" "q = Inl ErrInvalidRefresh"
      "\<And>r. Option.bind (char64 h) (db_refresh (fst w)) = Some r \<Longrightarrow> rr_revokedAt r \<noteq> None \<or> \<not> now < rr_expiresAt r"
  | (reuse) r where "Option.bind (char64 h) (db_refresh (fst w)) = Some r" "rr_revokedAt r = None" "rr_usedAt r \<noteq> None"
      "fst w' = snd (sql_revoke_family (rr_familyID r) now (fst w))" "q = Inl ErrRefreshReuse \<or> refused q"
  | (rotated) r db1 where "Option.bind (char64 h) (db_refresh (fst w)) = Some r" "rr_revokedAt r = None" "rr_usedAt r = None"
      "sql_mark_used h now (fst w) = (Inr (), db1)"
      "sql_insert_refresh lib h' (rr_userID r) (rr_familyID r) expires db1 = (Inr (), fst w')"
      "q = Inr (rr_userID r) \<or> refused q"
proof -
  obtain q0 db x where b: "tx_begin env w = (q0, (db, x))" by (metis prod.exhaust)
  from b have db: "db = fst w"
    using pg_exec_db [of env "\<lambda>su db. (Inr (), db)" w] by (simp add: tx_begin_def)
  obtain q1 d1 x1 where sel: "pg_exec env (\<lambda>su. sql_select_refresh lib h) (db, x) = (q1, (d1, x1))"
    by (metis prod.exhaust)
  note run = assms [unfolded pa_RotateRefresh_def b prod.case sel]
  show ?thesis
  proof (cases "\<exists>u row. q0 = Inr u \<and> q1 = Inr row")
    case False
    with run db kept show ?thesis by (cases q0; cases q1) auto
  next
    case True
    then obtain u row where q0: "q0 = Inr u" and q1: "q1 = Inr row" by blast
    from pg_exec_Inr [OF sel [unfolded q1]] have row: "row = Option.bind (char64 h) (db_refresh (fst w))"
      by (auto simp: sql_select_refresh_def db split: if_splits)
    show ?thesis
    proof (cases "\<exists>r. row = Some r \<and> rr_revokedAt r = None \<and> now < rr_expiresAt r")
      case False
      show ?thesis by (rule invalid) (use False run q0 q1 db row in \<open>auto split: option.splits if_splits\<close>)
    next
      case True
      then obtain r where r: "row = Some r" and live: "rr_revokedAt r = None" "now < rr_expiresAt r" by blast
      note row' = row [unfolded r, symmetric]
      note run' = run [unfolded q0 q1 r sum.case prod.case option.case]
      show ?thesis
      proof (cases "rr_usedAt r = None")
        case unused: True
        from run' live unused have "fst w' = db \<and> refused q \<or>
            (\<exists>db1. sql_mark_used h now db = (Inr (), db1) \<and>
               sql_insert_refresh lib h' (rr_userID r) (rr_familyID r) expires db1 = (Inr (), fst w')) \<and>
            (q = Inr (rr_userID r) \<or> refused q)"
          by (intro rotate_branch [where env = env and x = x1]) simp
        with db kept rotated [OF row' live(1) unused] show ?thesis by blast
      next
        case used: False
        from run' live used have "fst w' = db \<and> refused q \<or>
            fst w' = snd (sql_revoke_family (rr_familyID r) now db) \<and> (q = Inl ErrRefreshReuse \<or> refused q)"
          by (intro revoke_branch [where env = env and x = x1]) simp
        with db kept reuse [OF row' live(1) used] show ?thesis by blast
      qed
    qed
  qed
qed

section \<open>Dead families stay dead\<close>

abbreviation pg_tokens :: "pg_db \<times> 'x \<Rightarrow> refresh_table" where
  "pg_tokens w \<equiv> db_refresh (fst w)"

lemma insert_refresh_tokens:
  assumes "sql_insert_refresh lib h u fam t db = (q, db')"
  shows "db_refresh db' = db_refresh db \<or>
    (\<exists>k u'. db_refresh db k = None \<and> db_refresh db' = (db_refresh db)(k \<mapsto> new_row u' fam (pg_time t)))"
proof (cases "db' = db")
  case False
  with assms obtain k u' where "db_refresh db k = None"
    "db' = db\<lparr>db_refresh := (db_refresh db)(k \<mapsto> new_row u' fam (pg_time t))\<rparr>"
    by (auto simp: sql_insert_refresh_def domIff split: if_splits sum.splits option.splits)
  then show ?thesis by auto
qed simp

lemma mark_used_tokens:
  assumes "sql_mark_used h now db = (q, db')"
  shows "db_refresh db' = (case Option.bind (char64 h) (db_refresh db) of
    None \<Rightarrow> db_refresh db
  | Some r \<Rightarrow> (db_refresh db)(the (char64 h) \<mapsto> r\<lparr>rr_usedAt := Some (pg_time now)\<rparr>))"
  using assms by (auto simp: sql_mark_used_def split: option.splits)

lemma revoke_family_tokens:
  "db_refresh (snd (sql_revoke_family fam now db)) = map_option (revoke_row fam (pg_time now)) \<circ> db_refresh db"
  by (auto simp: sql_revoke_family_def revoke_row_def fun_eq_iff map_option_case split: option.split)

lemma dead_update:
  assumes "dead_family T fam" and "T k = Some r" and "rr_familyID r \<noteq> fam"
  shows "dead_family (T(k \<mapsto> r\<lparr>rr_usedAt := v\<rparr>)) fam"
  using assms unfolding dead_family_def by (metis (no_types, lifting) fun_upd_apply option.inject refresh_row.select_convs(2) refresh_row.surjective refresh_row.update_convs(4))

lemma dead_insert:
  assumes "dead_family T fam" and "T k = None" and "fam' \<noteq> fam"
  shows "dead_family (T(k \<mapsto> new_row u fam' t)) fam"
  using assms unfolding dead_family_def by (metis fun_upd_apply new_row_simps(2) option.distinct(1) option.inject)

lemma dead_revoke: "dead_family T fam \<Longrightarrow> dead_family (map_option (revoke_row f t) \<circ> T) fam"
  by (fastforce simp: dead_family_def)

lemma dead_row:
  "dead_family T fam \<Longrightarrow> T k = Some r \<Longrightarrow> rr_revokedAt r = None \<Longrightarrow> rr_familyID r \<noteq> fam"
  unfolding dead_family_def by blast

lemma rotate_dead:
  assumes "pa_RotateRefresh lib env h h' expires now w = (q, w')" and "dead_family (pg_tokens w) fam"
  shows "dead_family (pg_tokens w') fam"
  using assms(1)
proof (cases rule: rotate_effect)
  case (reuse r)
  with assms(2) show ?thesis by (simp add: revoke_family_tokens dead_revoke)
next
  case (rotated r db1)
  from rotated(1) obtain k where k: "char64 h = Some k" "pg_tokens w k = Some r" by (auto simp: bind_eq_Some_conv)
  have fam: "rr_familyID r \<noteq> fam" using dead_row [OF assms(2) k(2) rotated(2)] .
  from mark_used_tokens [OF rotated(4)] k
  have "db_refresh db1 = (pg_tokens w)(k \<mapsto> r\<lparr>rr_usedAt := Some (pg_time now)\<rparr>)" by simp
  with dead_update [OF assms(2) k(2) fam] have "dead_family (db_refresh db1) fam" by simp
  with insert_refresh_tokens [OF rotated(5)] dead_insert fam show ?thesis by metis
qed (use assms(2) in simp_all)

lemma create_refresh_tokens:
  assumes "pa_CreateRefresh lib env u f h t w = (q, w')"
  shows "pg_tokens w' = pg_tokens w \<or>
    (\<exists>k u'. pg_tokens w k = None \<and> pg_tokens w' = (pg_tokens w)(k \<mapsto> new_row u' f (pg_time t)))"
proof -
  obtain p v where ex: "pg_exec env (\<lambda>su. sql_insert_refresh lib h u f t) w = (p, v)" by (rule prod.exhaust)
  obtain p0 d0 where ins: "sql_insert_refresh lib h u f t (fst w) = (p0, d0)" by (rule prod.exhaust)
  from pg_exec_db [of env "\<lambda>su. sql_insert_refresh lib h u f t" w] ex ins have "fst v = fst w \<or> fst v = d0" by simp
  with insert_refresh_tokens [OF ins] assms ex show ?thesis
    by (auto simp: pa_CreateRefresh_def split: sum.splits)
qed

lemma user_calls_tokens:
  "pg_tokens (snd (pa_CreateUser lib env now rnd email hash w)) = pg_tokens w"
  "pg_tokens (snd (pa_GetUserByEmail lib env ids email w)) = pg_tokens w"
proof -
  obtain p v where ex: "pg_exec env (\<lambda>su. sql_insert_user lib now rnd email hash) w = (p, v)" by (rule prod.exhaust)
  have "db_refresh (snd (sql_insert_user lib now rnd email hash db)) = db_refresh db" for db
    by (auto simp: sql_insert_user_def Let_def split: sum.split)
  with pg_exec_db [of env "\<lambda>su. sql_insert_user lib now rnd email hash" w] ex have "pg_tokens v = pg_tokens w" by auto
  with ex show "pg_tokens (snd (pa_CreateUser lib env now rnd email hash w)) = pg_tokens w"
    by (auto simp: pa_CreateUser_def split: sum.splits)
  obtain p2 v2 where ex2: "pg_exec env (\<lambda>su db. sql_user_by_email lib (ids db) email db) w = (p2, v2)" by (rule prod.exhaust)
  have "snd (sql_user_by_email lib us email db) = db" for us db by (auto simp: sql_user_by_email_def)
  with pg_exec_db [of env "\<lambda>su db. sql_user_by_email lib (ids db) email db" w] ex2 have "fst v2 = fst w" by auto
  with ex2 show "pg_tokens (snd (pa_GetUserByEmail lib env ids email w)) = pg_tokens w"
    by (auto simp: pa_GetUserByEmail_def split: sum.splits option.splits)
qed

section \<open>The service\<close>

lemma char64_hash [simp]: "char64 (hashOpaqueToken t) = Some (hashOpaqueToken t)"
proof -
  let ?h = "hashOpaqueToken t"
  have len: "length ?h = 64" by (simp add: hashOpaqueToken_def)
  then obtain c cs where rev: "rev ?h = c # cs" by (cases "rev ?h") auto
  have "is_hex_digit c"
    using hex_EncodeToString_digits [of "sha256_Sum256 t"] rev unfolding hashOpaqueToken_def
    by (metis list.set_intros(1) set_rev)
  then have "c \<noteq> CHR '' ''" by (auto simp: is_hex_digit_def hex_value_def)
  then have "dropWhile (\<lambda>c. c = CHR '' '') (rev ?h) = rev ?h" by (simp add: rev)
  with len show ?thesis by (simp only: char64_def rev_rev_ident Let_def) simp
qed

lemma pg_auth_simps [simp]:
  "ar_CreateUser (pg_auth lib env ids) = pa_CreateUser lib env"
  "ar_GetUserByEmail (pg_auth lib env ids) = pa_GetUserByEmail lib env ids"
  "ar_CreateRefresh (pg_auth lib env ids) = pa_CreateRefresh lib env"
  "ar_RotateRefresh (pg_auth lib env ids) = pa_RotateRefresh lib env"
  by (simp_all add: pg_auth_def)

text \<open>The states a call can end in, by its repository calls.\<close>

lemma issueSession_state:
  assumes "as_repo svc = pg_auth lib env ids"
  shows "snd (issueSession svc e u w) = w \<or>
    (\<exists>f h t. randomHex (ae_family e) = Inr f \<and> snd (issueSession svc e u w) = snd (pa_CreateRefresh lib env u f h t w))"
  by (auto simp: issueSession_def assms split: sum.split prod.split) (metis snd_conv)+

lemma Register_state:
  assumes "as_repo svc = pg_auth lib env ids"
  shows "snd (auth_Register svc e inp w) = w \<or>
    (\<exists>n r m h w1. w1 = snd (pa_CreateUser lib env n r m h w) \<and>
       (snd (auth_Register svc e inp w) = w1 \<or> (\<exists>u. snd (auth_Register svc e inp w) = snd (issueSession svc e u w1))))"
proof (cases "normalizeEmail (as_mail svc) (cr_Email inp)")
  case (Inr email)
  show ?thesis
  proof (cases "HashPassword (ae_salt e) (cr_Password inp)")
    case hash: (Inr h)
    obtain q w1 where "pa_CreateUser lib env (ae_now e) (ae_userid e) email h w = (q, w1)" by (rule prod.exhaust)
    then have "w1 = snd (pa_CreateUser lib env (ae_now e) (ae_userid e) email h w) \<and>
        (snd (auth_Register svc e inp w) = w \<or> snd (auth_Register svc e inp w) = w1 \<or>
         (\<exists>u. snd (auth_Register svc e inp w) = snd (issueSession svc e u w1)))"
      using Inr hash assms by (auto simp: auth_Register_def split: sum.split)
    then show ?thesis by blast
  qed (use Inr in \<open>simp add: auth_Register_def split: sum.split\<close>)
qed (simp add: auth_Register_def)

lemma Login_state:
  assumes "as_repo svc = pg_auth lib env ids"
  shows "snd (auth_Login svc e inp w) = w \<or>
    (\<exists>m w1. w1 = snd (pa_GetUserByEmail lib env ids m w) \<and>
       (snd (auth_Login svc e inp w) = w1 \<or> (\<exists>u. snd (auth_Login svc e inp w) = snd (issueSession svc e u w1))))"
proof (cases "normalizeEmail (as_mail svc) (cr_Email inp)")
  case (Inr email)
  obtain q w1 where "pa_GetUserByEmail lib env ids email w = (q, w1)" by (rule prod.exhaust)
  then have "w1 = snd (pa_GetUserByEmail lib env ids email w) \<and>
      (snd (auth_Login svc e inp w) = w1 \<or> (\<exists>u. snd (auth_Login svc e inp w) = snd (issueSession svc e u w1)))"
    using Inr assms by (auto simp: auth_Login_def split: sum.split)
  then show ?thesis by blast
qed (simp add: auth_Login_def)

lemma Refresh_state:
  assumes "as_repo svc = pg_auth lib env ids"
  shows "snd (auth_Refresh svc e t w) = w \<or>
    (\<exists>h h' x n. snd (auth_Refresh svc e t w) = snd (pa_RotateRefresh lib env h h' x n w))"
  by (auto simp: auth_Refresh_def Let_def assms split: sum.split prod.split) (metis snd_conv)+

lemma issueSession_dead:
  assumes "as_repo svc = pg_auth lib env ids" and "dead_family (pg_tokens w) fam" and "fresh_draws e (pg_tokens w)"
  shows "dead_family (pg_tokens (snd (issueSession svc e u w))) fam"
proof -
  have other: "f \<noteq> fam" if "randomHex (ae_family e) = Inr f" for f
    using assms(2,3) that unfolding fresh_draws_def dead_family_def by metis
  have "dead_family (pg_tokens (snd (pa_CreateRefresh lib env u f h t w))) fam" if "f \<noteq> fam" for f h t
    using create_refresh_tokens [of lib env u f h t w] dead_insert [OF assms(2) _ that] assms(2) by (metis prod.collapse)
  with other issueSession_state [OF assms(1), of e u w] assms(2) show ?thesis by metis
qed

lemma exec_dead:
  assumes "as_repo svc = pg_auth lib env ids" and "fresh_draws (call_env x) (pg_tokens w)"
    and "dead_family (pg_tokens w) fam"
  shows "dead_family (pg_tokens (auth_exec svc x w)) fam"
proof -
  have iss: "dead_family (pg_tokens (snd (issueSession svc (call_env x) u w1))) fam" if "pg_tokens w1 = pg_tokens w" for u w1
    by (rule issueSession_dead [OF assms(1)]) (use assms(2,3) that in simp_all)
  show ?thesis
  proof (cases x)
    case (CallRegister e inp)
    with Register_state [OF assms(1), of e inp w] iss user_calls_tokens(1) assms(3) show ?thesis
      unfolding CallRegister auth_exec.simps call_env.simps by metis
  next
    case (CallLogin e inp)
    with Login_state [OF assms(1), of e inp w] iss user_calls_tokens(2) assms(3) show ?thesis
      unfolding CallLogin auth_exec.simps call_env.simps by metis
  next
    case (CallRefresh e t)
    have "dead_family (pg_tokens (snd (pa_RotateRefresh lib env h h' ex n w))) fam" for h h' ex n
      by (rule rotate_dead [OF _ assms(3)]) (rule prod.collapse [symmetric])
    with Refresh_state [OF assms(1), of e t w] assms(3) show ?thesis
      unfolding CallRefresh auth_exec.simps by metis
  qed
qed

lemma run_dead:
  assumes "as_repo svc = pg_auth lib env ids"
  shows "all_fresh pg_tokens svc xs w \<Longrightarrow> dead_family (pg_tokens w) fam \<Longrightarrow> dead_family (pg_tokens (auth_run svc xs w)) fam"
  by (induction xs arbitrary: w) (simp_all add: exec_dead [OF assms])

text \<open>Refresh on a token in the table: its answer and its rows are those of the rotation, unless it ends before.\<close>

lemma Refresh_rotates:
  assumes "as_repo svc = pg_auth lib env ids" and "auth_Refresh svc e t w = (r, w')"
  obtains "w' = w" "t = '''' \<or> refused r" "r = Inl ErrInvalidRefresh \<or> refused r"
  | h' expires q where "pa_RotateRefresh lib env (hashOpaqueToken t) h' expires (ae_now e) w = (q, w')"
      "case q of Inl err \<Rightarrow> r = Inl err | Inr u \<Rightarrow> True"
proof (cases "t = ''''")
  case True
  with assms(2) that(1) show ?thesis by (simp add: auth_Refresh_def)
next
  case t: False
  show ?thesis
  proof (cases "newOpaqueToken (ae_token e)")
    case (Inl err)
    then have "refused (Inl err)" by (auto simp: newOpaqueToken_def refused_def Let_def split: sum.splits)
    with Inl t assms(2) that(1) show ?thesis by (auto simp: auth_Refresh_def)
  next
    case (Inr p)
    obtain nt nh where p: "p = (nt, nh)" by (cases p)
    obtain q w1 where rot: "pa_RotateRefresh lib env (hashOpaqueToken t) nh (ae_now e + refreshTTL) (ae_now e) w = (q, w1)"
      by (rule prod.exhaust)
    from assms t Inr p rot have "w' = w1" "case q of Inl err \<Rightarrow> r = Inl err | Inr u \<Rightarrow> True"
      by (auto simp: auth_Refresh_def Let_def split: sum.splits)
    with rot that(2) show ?thesis by blast
  qed
qed

lemma Refresh_dead:
  assumes "as_repo svc = pg_auth lib env ids" and "auth_Refresh svc e t w = (r, w')"
    and "dead_family (pg_tokens w) fam" and "pg_tokens w (hashOpaqueToken t) = Some row" and "rr_familyID row = fam"
  shows "pg_tokens w' = pg_tokens w \<and> (r = Inl ErrInvalidRefresh \<or> refused r)"
  using assms(1,2)
proof (cases rule: Refresh_rotates)
  case (2 h' expires q)
  have revoked: "rr_revokedAt row \<noteq> None" using assms(3-5) unfolding dead_family_def by blast
  from 2(1) show ?thesis
  proof (cases rule: rotate_effect)
    case kept
    with 2 show ?thesis by (auto simp: refused_def)
  next
    case invalid
    with 2 show ?thesis by auto
  qed (use assms(4) revoked in simp_all)
qed auto

lemma Refresh_reuse:
  assumes "as_repo svc = pg_auth lib env ids" and "auth_Refresh svc e t w = (r, w')" and "t \<noteq> ''''"
    and "pg_tokens w (hashOpaqueToken t) = Some row"
    and "rr_usedAt row \<noteq> None" and "rr_revokedAt row = None" and "ae_now e < rr_expiresAt row"
  shows "refused r \<or> r = Inl ErrRefreshReuse \<and> dead_family (pg_tokens w') (rr_familyID row)"
  using assms(1,2)
proof (cases rule: Refresh_rotates)
  case (2 h' expires q)
  from 2(1) show ?thesis
  proof (cases rule: rotate_effect)
    case kept
    with 2 show ?thesis by (auto simp: refused_def)
  next
    case (reuse r1)
    with assms(4) have "r1 = row" by simp
    moreover have "dead_family (map_option (revoke_row (rr_familyID row) (pg_time (ae_now e))) \<circ> pg_tokens w) (rr_familyID row)"
      using assms(4) by (fastforce simp: dead_family_def)
    ultimately show ?thesis using reuse 2 by (auto simp: revoke_family_tokens refused_def)
  qed (use assms(4-7) in auto)
qed (use assms(3) in auto)

text \<open>
  C7: over PostgreSQL, and whatever statements or replies are lost, a detected reuse ends the session for good.
  A refresh token that was exchanged, and is neither revoked nor expired, is answered with ErrRefreshReuse unless an
  exchange with the database or the random source fails; and once it was, then after any calls of the service, one
  after the other, no token of that family is accepted: each is answered with ErrInvalidRefresh (or a failure of an
  exchange) and changes no token. (What concurrent calls can do instead is C6.)
\<close>

theorem pg_token_reuse_ends_session:
  assumes "as_repo svc = pg_auth lib env ids" and "t \<noteq> ''''"
    and "db_refresh (fst w) (hashOpaqueToken t) = Some row"
    and "rr_usedAt row \<noteq> None" and "rr_revokedAt row = None" and "ae_now e < rr_expiresAt row"
    and "auth_Refresh svc e t w = (r, w1)"
    and "all_fresh (\<lambda>w. db_refresh (fst w)) svc calls w1" and "w2 = auth_run svc calls w1"
    and "db_refresh (fst w2) (hashOpaqueToken t') = Some row'" and "rr_familyID row' = rr_familyID row"
    and "auth_Refresh svc e' t' w2 = (r', w3)"
  shows "(\<exists>m. r = Inl (Auth_Err m)) \<or>
    r = Inl ErrRefreshReuse \<and> db_refresh (fst w3) = db_refresh (fst w2) \<and>
    (r' = Inl ErrInvalidRefresh \<or> (\<exists>m. r' = Inl (Auth_Err m)))"
proof -
  from Refresh_reuse [OF assms(1,7,2-6)] consider "refused r"
    | "r = Inl ErrRefreshReuse" "dead_family (pg_tokens w1) (rr_familyID row)" by blast
  then show ?thesis
  proof cases
    case 2
    from run_dead [OF assms(1,8) 2(2)] have "dead_family (pg_tokens w2) (rr_familyID row)" by (simp add: assms(9))
    from Refresh_dead [OF assms(1,12) this assms(10,11)] 2(1) show ?thesis by (simp add: refused_def)
  qed (simp add: refused_def)
qed

section \<open>A concrete reuse\<close>

text \<open>A family of two tokens: the first was exchanged for the second.\<close>

definition pg_session_svc :: "(pg_db \<times> instant) auth_Service" where
  "pg_session_svc = auth_NewService demo_jwt demo_mail (pg_auth plain_lib still_env (\<lambda>db. [])) ''key''"

definition used_token :: refresh_row where
  "used_token = (new_row ''u'' ''f0'' (2000 * second))\<lparr>rr_usedAt := Some (900 * second)\<rparr>"

definition pg_rotated_db :: pg_db where
  "pg_rotated_db =
     \<lparr>db_users = Map.empty,
      db_refresh = [hash_abc \<mapsto> used_token, hash_A \<mapsto> new_row ''u'' ''f0'' (2000 * second)],
      db_devices = Map.empty, db_transfers = Map.empty, db_outbox = [], db_outbox_seq = 0\<rparr>"

abbreviation pg_rotated :: "pg_db \<times> instant" where
  "pg_rotated \<equiv> (pg_rotated_db, 1000 * second)"

lemma pg_session_svc_repo: "as_repo pg_session_svc = pg_auth plain_lib still_env (\<lambda>db. [])"
  by (simp add: pg_session_svc_def auth_NewService_def)

lemma pg_rotated_tokens:
  "pg_tokens pg_rotated (hashOpaqueToken ''abc'') = Some used_token"
  "pg_tokens pg_rotated (hashOpaqueToken token_A) = Some (new_row ''u'' ''f0'' (2000 * second))"
  by (simp_all add: hashOpaqueToken_abc hashOpaqueToken_A pg_rotated_db_def hash_abc_def hash_A_def)

lemma pg_reuse_detected:
  "\<exists>w1. auth_Refresh pg_session_svc demo_env ''abc'' pg_rotated = (Inl ErrRefreshReuse, w1) \<and>
     pg_tokens w1 = map_option (revoke_row ''f0'' (pg_time (1000 * second))) \<circ> pg_tokens pg_rotated"
proof -
  obtain nt nh where new: "newOpaqueToken (ae_token demo_env) = Inr (nt, nh)"
    by (simp add: newOpaqueToken_def demo_env_def Let_def)
  obtain q w1 where rot: "pa_RotateRefresh plain_lib still_env (hashOpaqueToken ''abc'') nh
      (ae_now demo_env + refreshTTL) (ae_now demo_env) pg_rotated = (q, w1)" by (rule prod.exhaust)
  from rot have "q = Inl ErrRefreshReuse \<and> fst w1 = snd (sql_revoke_family ''f0'' (1000 * second) (fst pg_rotated))"
    using pg_rotated_tokens(1)
    by (auto simp: pa_RotateRefresh_def tx_begin_def tx_commit_def pg_exec_def still_env_def sql_select_refresh_def
        reject_texts_def plain_lib_def used_token_def demo_env_def sql_revoke_family_def
        split: prod.splits)
  then have "auth_Refresh pg_session_svc demo_env ''abc'' pg_rotated = (Inl ErrRefreshReuse, w1)"
    "pg_tokens w1 = map_option (revoke_row ''f0'' (pg_time (1000 * second))) \<circ> pg_tokens pg_rotated"
    using new rot by (simp_all add: auth_Refresh_def pg_session_svc_repo Let_def revoke_family_tokens)
  then show ?thesis by blast
qed

theorem pg_token_reuse_ends_session_witness:
  "\<exists>w1 r' w3. auth_Refresh pg_session_svc demo_env ''abc'' pg_rotated = (Inl ErrRefreshReuse, w1) \<and>
     auth_Refresh pg_session_svc demo_env token_A w1 = (r', w3) \<and> db_refresh (fst w3) = db_refresh (fst w1) \<and>
     (r' = Inl ErrInvalidRefresh \<or> (\<exists>m. r' = Inl (Auth_Err m)))"
proof -
  obtain w1 where w1: "auth_Refresh pg_session_svc demo_env ''abc'' pg_rotated = (Inl ErrRefreshReuse, w1)"
    and tokens: "pg_tokens w1 = map_option (revoke_row ''f0'' (pg_time (1000 * second))) \<circ> pg_tokens pg_rotated"
    using pg_reuse_detected by blast
  obtain r' w3 where w3: "auth_Refresh pg_session_svc demo_env token_A w1 = (r', w3)" by (rule prod.exhaust)
  have row: "pg_tokens w1 (hashOpaqueToken token_A) =
      Some (revoke_row ''f0'' (pg_time (1000 * second)) (new_row ''u'' ''f0'' (2000 * second)))"
    using pg_rotated_tokens(2) by (simp add: tokens)
  have "(\<exists>m. Inl ErrRefreshReuse = (Inl (Auth_Err m) :: (auth_error, TokenPair) result)) \<or>
      Inl ErrRefreshReuse = (Inl ErrRefreshReuse :: (auth_error, TokenPair) result) \<and>
      pg_tokens w3 = pg_tokens w1 \<and> (r' = Inl ErrInvalidRefresh \<or> (\<exists>m. r' = Inl (Auth_Err m)))"
    by (rule pg_token_reuse_ends_session [OF pg_session_svc_repo _ pg_rotated_tokens(1) _ _ _ w1 _ _ row _ w3,
          where calls = "[]"]) (simp_all add: used_token_def demo_env_def)
  then show ?thesis using w1 w3 by blast
qed

end
