(* ===== verification/ServerStack.thy ===== *)
theory ServerStack
  imports RedisIdempotencyProps HandlerProps
begin

text \<open>
  The handler New of \<^verbatim>\<open>httpapi/server.go\<close> returns: the mux inside the rate limiter, inside the idempotency
  middleware (over Redis when the server has a client, in memory otherwise), inside bearer authentication. As
  the idempotency middleware is a machine over concurrent requests, so is the whole handler.
\<close>

section \<open>The layers\<close>

text \<open>
  What net/http delivers: a request with an empty context; a header value with a control character is refused
  before any handler runs.
\<close>

definition from_network :: "http_request \<Rightarrow> bool" where
  "from_network r \<longleftrightarrow>
     rq_ctx r = background \<and> CHR 0x00 \<notin> set (header_Get (rq_Header r) ''Idempotency-Key'')"

text \<open>What the layers inside authentication see of a request: it is handed on, perhaps with a user, or answered.\<close>

definition let_through ::
  "('t, 'd, 'a, 'p, 'r, 'l) Server \<Rightarrow> http_env \<Rightarrow> http_request \<Rightarrow> http_request option" where
  "let_through sv env r = snd (authenticated sv env (\<lambda>r' _. ([], Some r')) r None)"

lemma authenticated_let_through:
  "authenticated sv env nxt r s =
     (case let_through sv env r of
        None \<Rightarrow> (fst (authenticated sv env (\<lambda>r' _. ([], Some r')) r None), s)
      | Some r' \<Rightarrow> nxt r' s)"
  by (auto simp: let_through_def authenticated_def withAuthentication_def Let_def split: option.splits sum.splits)

inductive arriving :: "('t, 'd, 'a, 'p, 'r, 'l) Server \<Rightarrow> http_request \<Rightarrow> bool"
  for sv :: "('t, 'd, 'a, 'p, 'r, 'l) Server" where
  "from_network r \<Longrightarrow> let_through sv env r = Some r' \<Longrightarrow> arriving sv r'"

text \<open>
  What a request draws from its surroundings is part of the state, a supply of which every run of the handler
  takes the first.
\<close>

type_synonym ('t, 'd, 'a, 'p, 'l) api_state = "(nat \<Rightarrow> http_env) \<times> 'l \<times> ('t, 'd, 'a, 'p) server_state"

definition limited_handler ::
  "('t, 'd, 'a, 'p, 'r, 'l) Server \<Rightarrow> ('t, 'd, 'a, 'p, 'l) api_state handler" where
  "limited_handler sv r x =
     (let (envs, s) = x; (ops, s') = rate_limited_mux sv (envs 0) r s in (ops, (\<lambda>i. envs (Suc i), s')))"

text \<open>New itself: both idempotency middlewares keep answers for 24 hours.\<close>

inductive new_step ::
  "('t, 'd, 'a, 'p, 'r, 'l) Server \<Rightarrow> idem_codec \<Rightarrow>
   ('t, 'd, 'a, 'p, 'l) api_state idem_state + ('r, ('t, 'd, 'a, 'p, 'l) api_state) redis_idem_state \<Rightarrow>
   ('t, 'd, 'a, 'p, 'l) api_state idem_state + ('r, ('t, 'd, 'a, 'p, 'l) api_state) redis_idem_state \<Rightarrow> bool"
  for sv :: "('t, 'd, 'a, 'p, 'r, 'l) Server" and codec :: idem_codec where
  over_redis: "sv_idempotencyRedis sv = Some client \<Longrightarrow>
    redis_step client codec (arriving sv) (limited_handler sv) (24 * hour) x y \<Longrightarrow>
    new_step sv codec (Inr x) (Inr y)"
| in_memory: "sv_idempotencyRedis sv = None \<Longrightarrow>
    idem_step (arriving sv) (limited_handler sv) (24 * hour) s t \<Longrightarrow>
    new_step sv codec (Inl s) (Inl t)"

inductive_cases new_step_Inl: "new_step sv codec (Inl s) y"
inductive_cases new_step_Inr: "new_step sv codec (Inr s) y"

lemma new_steps_memory:
  assumes "(new_step sv codec)\<^sup>*\<^sup>* (Inl s) y"
  shows "\<exists>t. y = Inl t \<and> (idem_step (arriving sv) (limited_handler sv) (24 * hour))\<^sup>*\<^sup>* s t"
  using assms
proof (induction rule: rtranclp_induct)
  case (step y z)
  then show ?case by (auto elim!: new_step_Inl intro: rtranclp.rtrancl_into_rtrancl)
qed blast

lemma memory_new_steps:
  assumes "sv_idempotencyRedis sv = None" and "(idem_step (arriving sv) (limited_handler sv) (24 * hour))\<^sup>*\<^sup>* s t"
  shows "(new_step sv codec)\<^sup>*\<^sup>* (Inl s) (Inl t)"
  using assms(2)
proof (induction rule: rtranclp_induct)
  case (step y z)
  with new_step.in_memory [OF assms(1)] show ?case by (meson rtranclp.rtrancl_into_rtrancl)
qed blast

lemma new_steps_redis:
  assumes "(new_step sv codec)\<^sup>*\<^sup>* (Inr s) y" and "sv_idempotencyRedis sv = Some client"
  shows "\<exists>t. y = Inr t \<and> (redis_step client codec (arriving sv) (limited_handler sv) (24 * hour))\<^sup>*\<^sup>* s t"
  using assms(1)
proof (induction rule: rtranclp_induct)
  case (step y z)
  with assms(2) show ?case by (auto elim!: new_step_Inr intro: rtranclp.rtrancl_into_rtrancl)
qed blast

section \<open>Where the requests of the idempotency layer come from\<close>

definition key_of :: "http_request \<Rightarrow> string" where
  "key_of r = scopedIdempotencyKey r (header_Get (rq_Header r) ''Idempotency-Key'')"

text \<open>A request behind the guards: one that arrived, with its body read.\<close>

definition behind_guards :: "(http_request \<Rightarrow> bool) \<Rightarrow> http_request \<Rightarrow> bool" where
  "behind_guards arr r' \<longleftrightarrow> (\<exists>r. arr r \<and> r' = r\<lparr>rq_BodyError := None\<rparr>)"

lemma admit_behind_guards:
  assumes "idempotency_admit r = Inr (r', fp, key)" and "arr r"
  shows "behind_guards arr r' \<and> key = key_of r' \<and> fp = fp_of r'"
  using assms
  by (auto simp: idempotency_admit_def readRequestBody_def behind_guards_def key_of_def Let_def
      split: sum.splits body_error.splits if_splits option.splits)

definition origin_inv :: "(http_request \<Rightarrow> bool) \<Rightarrow> 's idem_state \<Rightarrow> bool" where
  "origin_inv arr s \<longleftrightarrow>
     (\<forall>a < length (is_heap s). te_key (is_heap s ! a) = key_of (te_request (is_heap s ! a)) \<and>
        behind_guards arr (te_request (is_heap s ! a))) \<and>
     (\<forall>p a r. is_procs s p = Some (Waiting a r) \<longrightarrow>
        key_of (te_request (is_heap s ! a)) = key_of r \<and> behind_guards arr r) \<and>
     (\<forall>r a ops. (r, a, ops) \<in> set (is_replies s) \<longrightarrow>
        key_of (te_request (is_heap s ! a)) = key_of r \<and> behind_guards arr r)"

lemma origin_inv_step:
  "idem_step arr nxt ttl s s' \<Longrightarrow> idem_inv ttl s \<Longrightarrow> origin_inv arr s \<Longrightarrow> origin_inv arr s'"
proof (induction rule: idem_step.induct)
  case (wait r r' fp key now s entries a p)
  from wait(4,5) have "is_entries s key = Some a" by (auto simp: decide_iff prune_Some)
  with wait.prems(1) have "te_key (is_heap s ! a) = key" "a < length (is_heap s)"
    by (simp_all add: idem_inv_def entries_ok_def keys_ok_def)
  with wait.prems(2) admit_behind_guards [where arr = arr, OF wait(2,7)] show ?case by (auto simp: origin_inv_def)
next
  case (lead r r' fp key now s entries p a)
  have entry: "te_key (new_entry fp key r' now (is_clock s)) = key_of r'" "behind_guards arr r'"
    using admit_behind_guards [where arr = arr, OF lead(2,8)] by simp_all
  have waiting: "b < length (is_heap s)" if "is_procs s q = Some (Waiting b r1)" for q b r1
    using lead.prems(1) that unfolding idem_inv_def procs_ok_def by fastforce
  have replied: "b < length (is_heap s)" if "(r1, b, ops) \<in> set (is_replies s)" for r1 b ops
    using lead.prems(1) that unfolding idem_inv_def replies_ok_def by blast
  from lead.prems(2) entry show ?case
    unfolding lead(7) origin_inv_def
    by (auto simp: nth_append less_Suc_eq dest: waiting replied split: if_splits)
next
  case (commit s p a r key now rec)
  have pa: "proc_ok (is_heap s) (is_execs s) (Ran a r key now rec)"
    using commit.prems(1) commit.hyps unfolding idem_inv_def procs_ok_def by blast
  have same: "te_key ((is_heap s)[a := fill_entry ttl now rec (is_heap s ! a)] ! b) = te_key (is_heap s ! b)"
    "te_request ((is_heap s)[a := fill_entry ttl now rec (is_heap s ! a)] ! b) = te_request (is_heap s ! b)" for b
    using pa by (auto simp: nth_list_update)
  show ?case using commit.prems(2) pa by (auto simp: origin_inv_def same) blast+
qed (auto simp: origin_inv_def)

lemma origin_reachable:
  assumes "(idem_step arr nxt ttl)\<^sup>*\<^sup>* (idem_start b t) s"
  shows "idem_inv ttl s \<and> origin_inv arr s"
  using assms
proof (induction rule: rtranclp_induct)
  case base
  show ?case by (simp add: inv_start) (simp add: origin_inv_def idem_start_def)
next
  case (step s1 s2)
  then show ?case using idem_step_inv origin_inv_step by blast
qed

text \<open>A bearer token in the Authorization header, good at some time for a user.\<close>

definition presents_token :: "'a auth_Service \<Rightarrow> instant \<Rightarrow> http_request \<Rightarrow> string \<Rightarrow> bool" where
  "presents_token service now r u \<longleftrightarrow>
     (\<exists>tok. TrimSpace (header_Get (rq_Header r) ''Authorization'') = ''Bearer '' @ tok \<and>
        auth_ValidateAccess service now (TrimSpace tok) = Inr u)"

lemma ValidateAccess_nonempty: "auth_ValidateAccess service now tok = Inr u \<Longrightarrow> u \<noteq> ''''"
  by (auto simp: auth_ValidateAccess_def split: sum.splits prod.splits if_splits)

lemma withAuthentication_passes:
  assumes "snd (withAuthentication service now (\<lambda>r' _. ([], Some r')) r None) = Some r'"
  shows "publicWithoutBearer (rq_Path r) \<and> r' = r \<or>
    \<not> publicWithoutBearer (rq_Path r) \<and>
    (\<exists>u. u \<noteq> '''' \<and> presents_token service now r u \<and> r' = r\<lparr>rq_ctx := ContextWithUserID (rq_ctx r) u\<rparr>)"
proof (cases "publicWithoutBearer (rq_Path r)")
  case True
  with assms show ?thesis by (simp add: withAuthentication_def)
next
  case False
  let ?h = "TrimSpace (header_Get (rq_Header r) ''Authorization'')"
  from assms False have "HasPrefix ?h ''Bearer ''"
    by (auto simp: withAuthentication_def Let_def split: if_splits)
  then obtain tok where tok: "?h = ''Bearer '' @ tok" unfolding HasPrefix_iff by blast
  have "TrimPrefix ?h ''Bearer '' = tok" unfolding tok by (rule TrimPrefix_append)
  with assms False obtain u where "auth_ValidateAccess service now (TrimSpace tok) = Inr u"
    "r' = r\<lparr>rq_ctx := ContextWithUserID (rq_ctx r) u\<rparr>"
    by (auto simp: withAuthentication_def Let_def split: if_splits sum.splits)
  with tok False show ?thesis unfolding presents_token_def using ValidateAccess_nonempty by blast
qed

text \<open>A request behind authentication and the guards carries the user of its own token, if its path is not public.\<close>

lemma behind_authentication:
  assumes "sv_auth sv = Some service" and "sv_authRequired sv" and "behind_guards (arriving sv) r"
  shows "CHR 0x00 \<notin> set (header_Get (rq_Header r) ''Idempotency-Key'') \<and>
    (if publicWithoutBearer (rq_Path r) then UserID (rq_ctx r) = ''''
     else UserID (rq_ctx r) \<noteq> '''' \<and> (\<exists>now. presents_token service now r (UserID (rq_ctx r))))"
proof -
  obtain r0 env r1 where r0: "from_network r0" and r1: "let_through sv env r0 = Some r1"
    and r: "r = r1\<lparr>rq_BodyError := None\<rparr>"
    using assms(3) by (auto simp: behind_guards_def elim: arriving.cases)
  have "snd (withAuthentication service (he_now env) (\<lambda>r' _. ([], Some r')) r0 None) = Some r1"
    using r1 assms(1,2) by (simp add: let_through_def authenticated_def)
  from withAuthentication_passes [OF this] r0 show ?thesis
    by (auto simp: r from_network_def presents_token_def)
qed

lemma same_key_same_user:
  assumes "key_of r = key_of r'" and "CHR 0x00 \<notin> set (header_Get (rq_Header r) ''Idempotency-Key'')"
    and "CHR 0x00 \<notin> set (header_Get (rq_Header r') ''Idempotency-Key'')"
  shows "UserID (rq_ctx r) = UserID (rq_ctx r')"
  using assms append_eq_append_sep_last [of "UserID (rq_ctx r)" "CHR 0x00"]
  by (auto simp: key_of_def scopedIdempotencyKey_def)

text \<open>Two requests with one storage key, the first for a protected path: both carry tokens of one user.\<close>

lemma shared_key_users:
  assumes "sv_auth sv = Some service" and "sv_authRequired sv"
    and "behind_guards (arriving sv) r" and "behind_guards (arriving sv) r'"
    and "key_of r' = key_of r" and "\<not> publicWithoutBearer (rq_Path r)"
  shows "\<exists>u now now'. u \<noteq> '''' \<and> UserID (rq_ctx r) = u \<and> UserID (rq_ctx r') = u \<and>
    presents_token service now r u \<and> presents_token service now' r' u"
proof -
  note b = behind_authentication [OF assms(1-3)] behind_authentication [OF assms(1,2,4)]
  from same_key_same_user [OF assms(5)] b have same: "UserID (rq_ctx r') = UserID (rq_ctx r)" by blast
  with b assms(6) have "\<not> publicWithoutBearer (rq_Path r')" by auto
  with b same assms(6) show ?thesis by auto
qed

section \<open>Answers stay with their user\<close>


section \<open>A concrete run\<close>

text \<open>The store after one request was executed and answered, and nothing else happened.\<close>

definition answered_once :: "'s handler \<Rightarrow> duration \<Rightarrow> http_request \<Rightarrow> string \<Rightarrow> string \<Rightarrow> 's \<Rightarrow> 's idem_state" where
  "answered_once nxt ttl r fp key x =
     (let (ops, x') = nxt r x; rec = buffered ops in
      (idem_start x' 0)\<lparr>is_heap := [fill_entry ttl 0 rec (new_entry fp key r 0 0)],
        is_entries := commit_entries key rec [key \<mapsto> 0], is_execs := [(0, rec)],
        is_replies := [(r, 0, own_reply rec)]\<rparr>)"

lemma answered_once_reachable:
  assumes "\<not> idempotency_bypassed r" and "idempotency_admit r = Inr (r', fp, key)" and "arr r"
  shows "(idem_step arr nxt ttl)\<^sup>*\<^sup>* (idem_start x 0) (answered_once nxt ttl r' fp key x)"
proof -
  obtain ops x' where nxt: "nxt r' x = (ops, x')" by fastforce
  let ?s = "idem_start x 0"
  let ?s1 = "?s\<lparr>is_entries := [key \<mapsto> 0], is_heap := [new_entry fp key r' 0 0], is_procs := [0 \<mapsto> Leading 0 r' key 0]\<rparr>"
  let ?s2 = "?s1\<lparr>is_execs := [(0, buffered ops)], is_procs := [0 \<mapsto> Ran 0 r' key 0 (buffered ops)], is_backend := x'\<rparr>"
  have "idem_step arr nxt ttl ?s (?s\<lparr>is_entries := Map.empty(key \<mapsto> 0),
      is_heap := is_heap ?s @ [new_entry fp key r' 0 (is_clock ?s)],
      is_procs := (is_procs ?s)(0 \<mapsto> Leading 0 r' key 0)\<rparr>)"
    by (rule idem_step.lead [OF assms(1,2)])
      (use assms(3) in \<open>auto simp: idem_start_def pruneExpiredLocked_def idem_decide_def\<close>)
  then have st1: "idem_step arr nxt ttl ?s ?s1" by (simp add: idem_start_def)
  have "is_procs ?s1 0 = Some (Leading 0 r' key 0)" by simp
  from idem_step.run [OF this, of nxt ops x' arr ttl] nxt
  have st2: "idem_step arr nxt ttl ?s1 ?s2" by (simp add: idem_start_def)
  have "is_procs ?s2 0 = Some (Ran 0 r' key 0 (buffered ops))" by simp
  from idem_step.commit [OF this, of arr nxt ttl]
  have "idem_step arr nxt ttl ?s2 (answered_once nxt ttl r' fp key x)"
    by (simp add: answered_once_def nxt idem_start_def Let_def)
  with st1 st2 show ?thesis by (meson converse_rtranclp_into_rtranclp r_into_rtranclp)
qed

definition stack_server :: "(transfer_items, device_items, auth_memory, presence_memory, unit, unit) Server" where
  "stack_server = demo_server\<lparr>sv_auth := Some one_token_auth, sv_authRequired := True\<rparr>"

lemma stack_server_simps [simp]:
  "sv_auth stack_server = Some one_token_auth" "sv_authRequired stack_server"
  "sv_idempotencyRedis stack_server = None"
  by (simp_all add: stack_server_def demo_server_def)

definition keyed_post :: http_request where
  "keyed_post =
     \<lparr>rq_Method = ''POST'', rq_Path = ''/v1/transfers'', rq_Query = (\<lambda>_. ''''),
      rq_Header = [''Idempotency-Key'' \<mapsto> [''k''], ''Authorization'' \<mapsto> [''Bearer tok'']], rq_Body = ''{}'',
      rq_BodyError = None, rq_RemoteAddr = ''10.0.0.1:80'', rq_ctx = background\<rparr>"

definition keyed_u1 :: http_request where
  "keyed_u1 = keyed_post\<lparr>rq_ctx := ContextWithUserID background ''u1''\<rparr>"

lemma keyed_headers:
  "header_Get (rq_Header keyed_post) ''Idempotency-Key'' = ''k''"
  "header_Get (rq_Header keyed_u1) ''Idempotency-Key'' = ''k''"
  "header_Get (rq_Header keyed_post) ''Authorization'' = ''Bearer tok''"
  by code_simp+

lemma keyed_arrives: "arriving stack_server keyed_u1"
proof (rule arriving.intros)
  show "from_network keyed_post" by (simp add: from_network_def keyed_headers) (simp add: keyed_post_def)
  have tok: "TrimSpace ''Bearer tok'' = ''Bearer tok''" "TrimSpace (TrimPrefix ''Bearer tok'' ''Bearer '') = ''tok''"
    "HasPrefix ''Bearer tok'' ''Bearer ''" "\<not> publicWithoutBearer (rq_Path keyed_post)"
    by code_simp+
  have "auth_ValidateAccess one_token_auth 0 ''tok'' = Inr ''u1''"
    by (simp add: auth_ValidateAccess_def one_token_auth_def auth_NewService_def)
  then show "let_through stack_server demo_http_env keyed_post = Some keyed_u1"
    by (simp add: let_through_def authenticated_def withAuthentication_def Let_def tok keyed_headers demo_http_env_def)
      (simp add: keyed_u1_def keyed_post_def)
qed

lemma keyed_admitted:
  "\<not> idempotency_bypassed keyed_u1" "idempotency_admit keyed_u1 = Inr (keyed_u1, fp_of keyed_u1, key_of keyed_u1)"
proof -
  have parts: "rq_Method keyed_u1 = ''POST''" "rq_Path keyed_u1 = ''/v1/transfers''" "rq_Body keyed_u1 = ''{}''"
    "rq_BodyError keyed_u1 = None" "keyed_u1\<lparr>rq_BodyError := None\<rparr> = keyed_u1"
    by (simp_all add: keyed_u1_def keyed_post_def)
  then show "\<not> idempotency_bypassed keyed_u1"
    by (simp add: idempotency_bypassed_def keyed_headers HasPrefix_def)
  from parts show "idempotency_admit keyed_u1 = Inr (keyed_u1, fp_of keyed_u1, key_of keyed_u1)"
    by (simp add: idempotency_admit_def readRequestBody_def key_of_def maxIdempotentBodyBytes_def keyed_headers
        scopedIdempotencyKey_def requestFingerprint_def Let_def)
qed

definition keyed_run :: "(transfer_items, device_items, auth_memory, presence_memory, unit) api_state idem_state" where
  "keyed_run = answered_once (limited_handler stack_server) (24 * hour) keyed_u1 (fp_of keyed_u1) (key_of keyed_u1)
     (\<lambda>i. demo_http_env, (), empty_state)"


section \<open>The same over Redis\<close>

definition admitted_ok :: "(http_request \<Rightarrow> bool) \<Rightarrow> admitted \<Rightarrow> bool" where
  "admitted_ok arr q \<longleftrightarrow>
     ad_key q = key_of (ad_request q) \<and> ad_fingerprint q = fp_of (ad_request q) \<and> behind_guards arr (ad_request q)"

fun proc_admitted :: "redis_proc \<Rightarrow> admitted" where
  "proc_admitted (Getting q) = q"
| "proc_admitted (Locking q) = q"
| "proc_admitted (Peeking q) = q"
| "proc_admitted (RLeading q owner t) = q"
| "proc_admitted (RRan q owner t rec) = q"

definition admitted_inv :: "(http_request \<Rightarrow> bool) \<Rightarrow> ('r, 's) redis_idem_state \<Rightarrow> bool" where
  "admitted_inv arr s \<longleftrightarrow>
     (\<forall>p x. xs_procs s p = Some x \<longrightarrow> admitted_ok arr (proc_admitted x)) \<and>
     (\<forall>q rec. (q, rec) \<in> set (xs_execs s) \<longrightarrow> admitted_ok arr q) \<and>
     (\<forall>q ops. (q, ops) \<in> set (xs_replies s) \<longrightarrow> admitted_ok arr q)"

lemma after_acquire_admitted: "after_acquire q t a = Inl x \<Longrightarrow> proc_admitted x = q"
  by (cases "(q, t, a)" rule: after_acquire.cases) auto

lemma admitted_inv_proceed:
  assumes "admitted_inv arr s" and "admitted_ok arr q" and "\<And>x. y = Inl x \<Longrightarrow> proc_admitted x = q"
  shows "admitted_inv arr (proceed p q y s)"
  using assms by (cases y) (auto simp: admitted_inv_def split: if_splits)

lemma admitted_inv_fields:
  "admitted_inv arr (s\<lparr>xs_redis := r\<rparr>) = admitted_inv arr s"
  "admitted_inv arr (s\<lparr>xs_redis := r, xs_locks := l\<rparr>) = admitted_inv arr s"
  "admitted_inv arr (s\<lparr>xs_clock := t\<rparr>) = admitted_inv arr s"
  "admitted_inv arr (s\<lparr>xs_backend := b\<rparr>) = admitted_inv arr s"
  by (simp_all add: admitted_inv_def)

lemma admitted_inv_proc: "admitted_inv arr s \<Longrightarrow> xs_procs s p = Some x \<Longrightarrow> admitted_ok arr (proc_admitted x)"
  by (simp add: admitted_inv_def)

lemma admitted_inv_step:
  "redis_step rd codec arr nxt ttl s s' \<Longrightarrow> admitted_inv arr s \<Longrightarrow> admitted_inv arr s'"
proof (induction rule: redis_step.induct)
  case (xstart r r' fp key s p)
  from admit_behind_guards [where arr = arr, OF xstart(2) [unfolded redis_admit_eq] xstart(4)] xstart.prems show ?case
    by (auto simp: admitted_inv_def admitted_ok_def)
next
  case (xget s p q f a r')
  with admitted_inv_proc [OF xget.prems xget.hyps(1)] show ?case
    by (intro admitted_inv_proceed) (simp_all add: admitted_inv_fields after_acquire_admitted)
next
  case (xlock s p q rnd lockData f a r')
  with admitted_inv_proc [OF xlock.prems xlock.hyps(1)] show ?case
    by (intro admitted_inv_proceed) (simp_all add: admitted_inv_fields after_acquire_admitted)
next
  case (xpeek s p q f cancelled a r')
  with admitted_inv_proc [OF xpeek.prems xpeek.hyps(1)] show ?case
    by (intro admitted_inv_proceed) (simp_all add: admitted_inv_fields after_acquire_admitted)
next
  case (xrun s p q owner t ops b)
  with admitted_inv_proc [OF xrun.prems xrun.hyps(1)] show ?case by (auto simp: admitted_inv_def)
next
  case (xfinish s p q owner t rec r' f)
  with admitted_inv_proc [OF xfinish.prems xfinish.hyps(1)] show ?case
    by (intro admitted_inv_proceed) (simp_all add: admitted_inv_fields)
qed (auto simp: admitted_inv_def)

text \<open>
  Over Redis, up to a SHA-256 collision of the storage keys: an answer for a path that is not public is an error of the
  coordination, a conflict, or what an execution recorded for a request with a token of the same user.
\<close>

lemma redis_answers_stay_with_their_user:
  assumes "sv_auth sv = Some service" and "sv_authRequired sv" and "sv_idempotencyRedis sv = Some client"
    and "redis_server client view" and "codec_keeps codec (limited_handler sv)" and "\<And>k. view x t (result_key k) = None"
    and "(new_step sv codec)\<^sup>*\<^sup>* (Inr (redis_idem_start x t b)) (Inr s)"
    and "(q, ops) \<in> set (xs_replies s)" and "\<not> publicWithoutBearer (rq_Path (ad_request q))"
  shows "ops = idem_unavailable \<or> ops = redis_conflict_reply \<or>
    (\<exists>q' rec replayed. (q', rec) \<in> set (xs_execs s) \<and> ad_fingerprint q' = ad_fingerprint q \<and>
       ops = writeStoredResponse (result_record (ad_fingerprint q) rec) replayed \<and>
       (ad_key q' \<noteq> ad_key q \<and> requestKeyHash (ad_key q') = requestKeyHash (ad_key q) \<or>
        (\<exists>u now now'. u \<noteq> '''' \<and> presents_token service now (ad_request q) u \<and>
           presents_token service now' (ad_request q') u)))"
proof -
  have run: "(redis_step client codec (arriving sv) (limited_handler sv) (24 * hour))\<^sup>*\<^sup>* (redis_idem_start x t b) s"
    using new_steps_redis [OF assms(7,3)] by simp
  have ttl: "0 < (24 * hour) div 1000000" by simp
  from run have inv: "admitted_inv (arriving sv) s"
  proof (induction rule: rtranclp_induct)
    case base
    show ?case by (simp add: admitted_inv_def redis_idem_start_def)
  qed (rule admitted_inv_step)
  have ok: "answer_ok (limited_handler sv) s q ops"
    by (rule reachable_answer_ok [OF assms(4) ttl assms(5,6) run assms(8)])
  have q: "admitted_ok (arriving sv) q" using inv assms(8) unfolding admitted_inv_def by blast
  from ok consider "ops = idem_unavailable \<or> ops = redis_conflict_reply"
    | q' rec replayed where "(q', rec) \<in> set (xs_execs s)" "requestKeyHash (ad_key q') = requestKeyHash (ad_key q)"
      "ad_fingerprint q' = ad_fingerprint q" "ops = writeStoredResponse (result_record (ad_fingerprint q) rec) replayed"
    unfolding answer_ok_def executed_def by blast
  then show ?thesis
  proof cases
    case (2 q' rec replayed)
    have q': "admitted_ok (arriving sv) q'" using inv 2(1) unfolding admitted_inv_def by blast
    have "\<exists>u now now'. u \<noteq> '''' \<and> presents_token service now (ad_request q) u \<and>
        presents_token service now' (ad_request q') u" if "ad_key q' = ad_key q"
      using shared_key_users [OF assms(1,2), of "ad_request q" "ad_request q'"] q q' that assms(9)
      unfolding admitted_ok_def by metis
    with 2 show ?thesis by blast
  qed blast
qed

end
