(* ===== verification/Startup.thy ===== *)
theory Startup
  imports Providers Files Observability GoBase64 Worker HandlerProps
begin

text \<open>
  The start of the server, \<^verbatim>\<open>cmd/api/main.go\<close>: reading the environment, choosing the adapters, and stopping;
  with \<^verbatim>\<open>NewS3Service\<close> of \<^verbatim>\<open>files/service.go\<close> and the connections of \<^verbatim>\<open>platform/\<close>. Opening pools and
  clients, parsing URLs and lower-casing text are parameters.
\<close>

section \<open>The environment\<close>

type_synonym environ = "string \<Rightarrow> string"

text \<open>os.Getenv yields the empty text for a variable that is not set.\<close>

definition env :: "environ \<Rightarrow> string \<Rightarrow> string \<Rightarrow> string" where
  "env getenv key fallback = (if getenv key \<noteq> '''' then getenv key else fallback)"

definition envBool :: "(string \<Rightarrow> string) \<Rightarrow> environ \<Rightarrow> string \<Rightarrow> bool \<Rightarrow> bool" where
  "envBool lower getenv key fallback =
     (let value = TrimSpace (lower (getenv key)) in
      if value = '''' then fallback
      else value = ''1'' \<or> value = ''true'' \<or> value = ''yes'' \<or> value = ''on'')"

definition logger_level :: "(string \<Rightarrow> string) \<Rightarrow> environ \<Rightarrow> log_level" where
  "logger_level lower getenv =
     (let level = lower (env getenv ''PIXELGO_LOG_LEVEL'' ''info'') in
      if level = ''debug'' then LevelDebug
      else if level = ''warn'' \<or> level = ''warning'' then LevelWarn
      else if level = ''error'' then LevelError
      else LevelInfo)"

text \<open>Requests for health and metrics that succeed are logged at the level debug only.\<close>

lemma health_is_logged_at_debug:
  assumes "status < 400" and "route \<in> {''/health'', ''/metrics''}"
  shows "logger_level lower getenv \<le> log_level_of status route \<longleftrightarrow> logger_level lower getenv = LevelDebug"
  using assms by (cases "logger_level lower getenv") (auto simp: log_level_of_def less_eq_log_level_def)

text \<open>base64.StdEncoding: the padded variant. Line breaks are skipped; at most two digits may be padding.\<close>

definition std_DecodeString :: "string \<Rightarrow> bytes option" where
  "std_DecodeString s =
     (let t = filter (\<lambda>c. c \<noteq> CHR 0x0A \<and> c \<noteq> CHR 0x0D) s;
          pads = takeWhile (\<lambda>c. c = CHR ''='') (rev t) in
      if length t mod 4 \<noteq> 0 \<or> 2 < length pads then None
      else b64_DecodeString std_alphabet (take (length t - length pads) t))"

section \<open>Connections\<close>

definition postgres_Open :: "(string \<Rightarrow> (string, 'p) result) \<Rightarrow> ('p \<Rightarrow> string option) \<Rightarrow> string \<Rightarrow> (string, 'p) result"
where
  "postgres_Open new ping databaseURL =
     (case new databaseURL of
        Inl e \<Rightarrow> Inl (''create postgres pool: '' @ e)
      | Inr pool \<Rightarrow>
          (case ping pool of Some e \<Rightarrow> Inl (''ping postgres: '' @ e) | None \<Rightarrow> Inr pool))"

definition postgres_Migrate :: "('p \<Rightarrow> string option) \<Rightarrow> 'p \<Rightarrow> (string, unit) result" where
  "postgres_Migrate exec_schema pool =
     (case exec_schema pool of Some e \<Rightarrow> Inl (''apply postgres schema: '' @ e) | None \<Rightarrow> Inr ())"

definition redis_Open :: "(string \<Rightarrow> (string, 'r) result) \<Rightarrow> ('r \<Rightarrow> string option) \<Rightarrow> string \<Rightarrow> (string, 'r) result" where
  "redis_Open parse ping redisURL =
     (case parse redisURL of
        Inl e \<Rightarrow> Inl (''parse redis url: '' @ e)
      | Inr client \<Rightarrow>
          (case ping client of Some e \<Rightarrow> Inl (''ping redis: '' @ e) | None \<Rightarrow> Inr client))"

section \<open>Object storage\<close>

record S3Config =
  sc_Endpoint :: string
  sc_Bucket :: string
  sc_AccessKey :: string
  sc_SecretKey :: string
  sc_Region :: string
  sc_Prefix :: string
  sc_TTL :: duration
  sc_AutoCreate :: bool

text \<open>Scheme and host of a URL; a client for host, keys, TLS and region; creating a bucket; \<^verbatim>\<open>%q\<close>.\<close>

record minio_lib =
  mi_Parse :: "string \<Rightarrow> (string \<times> string) option"
  mi_New :: "string \<Rightarrow> string \<Rightarrow> string \<Rightarrow> bool \<Rightarrow> string \<Rightarrow> (string, s3_client) result"
  mi_MakeBucket :: "s3_client \<Rightarrow> string \<Rightarrow> string \<Rightarrow> string option"
  mi_Quote :: "string \<Rightarrow> string"

definition trim_slashes :: "string \<Rightarrow> string" where
  "trim_slashes s = rev (dropWhile (\<lambda>c. c = CHR ''/'') (rev (dropWhile (\<lambda>c. c = CHR ''/'') s)))"

definition NewS3Service :: "minio_lib \<Rightarrow> S3Config \<Rightarrow> (string, files_Service) result" where
  "NewS3Service lib cfg =
     (if sc_Endpoint cfg = '''' \<or> sc_Bucket cfg = '''' \<or> sc_AccessKey cfg = '''' \<or> sc_SecretKey cfg = ''''
      then Inl ''object storage endpoint, bucket and credentials are required''
      else if sc_TTL cfg \<le> 0 then Inl ''object storage URL TTL must be positive''
      else case mi_Parse lib (sc_Endpoint cfg) of
        None \<Rightarrow> Inl ''invalid object storage endpoint''
      | Some (scheme, host) \<Rightarrow>
          if host = '''' then Inl ''invalid object storage endpoint''
          else if scheme \<noteq> ''http'' \<and> scheme \<noteq> ''https''
          then Inl ''object storage endpoint must use http or https''
          else (case mi_New lib host (sc_AccessKey cfg) (sc_SecretKey cfg) (scheme = ''https'') (sc_Region cfg) of
            Inl e \<Rightarrow> Inl e
          | Inr client \<Rightarrow>
              let service = \<lparr>fs_baseURL = '''', fs_secret = [], fs_ttl = sc_TTL cfg, fs_blobs = Map.empty,
                    fs_s3 = Some client, fs_bucket = sc_Bucket cfg,
                    fs_prefix = trim_slashes (TrimSpace (sc_Prefix cfg))\<rparr> in
              (case s3_BucketExists client (sc_Bucket cfg) of
                 Inl e \<Rightarrow> Inl (''check object storage bucket: '' @ e)
               | Inr exists \<Rightarrow>
                   if exists then Inr service
                   else if \<not> sc_AutoCreate cfg
                   then Inl (''object storage bucket '' @ mi_Quote lib (sc_Bucket cfg) @ '' does not exist'')
                   else (case mi_MakeBucket lib client (sc_Bucket cfg) (sc_Region cfg) of
                      Some e \<Rightarrow> Inl (''create object storage bucket: '' @ e)
                    | None \<Rightarrow> Inr service))))"

section \<open>Push providers\<close>

text \<open>The texts of base64 errors are not modelled: only what could not be decoded.\<close>

definition buildPushRouter ::
  "(string \<Rightarrow> string) \<Rightarrow> ('k, 's) push_lib \<Rightarrow> environ \<Rightarrow> (string, 'k Router) result" where
  "buildPushRouter lower lib getenv =
     (let apns =
        (let keyB64 = TrimSpace (getenv ''APNS_PRIVATE_KEY_B64'') in
         if keyB64 = '''' then Inr None
         else case std_DecodeString keyB64 of
           None \<Rightarrow> Inl ''decode APNS_PRIVATE_KEY_B64''
         | Some keyPEM \<Rightarrow>
             map_sum id Some (NewAPNSProvider lib
               \<lparr>ac_KeyID = getenv ''APNS_KEY_ID'', ac_TeamID = getenv ''APNS_TEAM_ID'',
                ac_Topic = env getenv ''APNS_TOPIC'' ''com.armaabetancourtt.pixelgo'',
                ac_PrivateKeyPEM = keyPEM, ac_Sandbox = envBool lower getenv ''APNS_SANDBOX'' False\<rparr>)) in
      case apns of
        Inl e \<Rightarrow> Inl e
      | Inr provider \<Rightarrow>
          let accountB64 = TrimSpace (getenv ''FCM_SERVICE_ACCOUNT_JSON_B64'') in
          if accountB64 = '''' then Inr \<lparr>rt_APNs = provider, rt_FCM = None\<rparr>
          else case std_DecodeString accountB64 of
            None \<Rightarrow> Inl ''decode FCM_SERVICE_ACCOUNT_JSON_B64''
          | Some accountJSON \<Rightarrow>
              (case NewFCMProvider lib accountJSON of
                 Inl e \<Rightarrow> Inl e
               | Inr fcm \<Rightarrow> Inr \<lparr>rt_APNs = provider, rt_FCM = Some fcm\<rparr>))"

section \<open>main\<close>

record ('p, 'r, 'k, 's) start_lib =
  st_Lower :: "string \<Rightarrow> string"
  st_NewPool :: "string \<Rightarrow> (string, 'p) result"
  st_PingPool :: "'p \<Rightarrow> string option"
  st_ExecSchema :: "'p \<Rightarrow> string option"
  st_NewRedis :: "string \<Rightarrow> (string, 'r) result"
  st_PingRedis :: "'r \<Rightarrow> string option"
  st_Minio :: minio_lib
  st_Push :: "('k, 's) push_lib"

text \<open>
  What main puts together: with a pool the repositories and the outbox are PostgreSQL's, without one they are
  in memory; with a client presence, limiter, broker and idempotency are Redis', without one in memory. A
  router stands for the running push worker.
\<close>

record ('p, 'r, 'k) wiring =
  wi_addr :: string
  wi_requireAuth :: bool
  wi_jwtSecret :: bytes
  wi_postgres :: "'p option"
  wi_redis :: "'r option"
  wi_files :: files_Service
  wi_checks :: "string list"
  wi_push :: "'k Router option"

definition start_postgres :: "('p, 'r, 'k, 's) start_lib \<Rightarrow> environ \<Rightarrow> (string, 'p option) result" where
  "start_postgres lib getenv =
     (let databaseURL = getenv ''DATABASE_URL'' in
      if databaseURL = '''' then Inr None
      else case postgres_Open (st_NewPool lib) (st_PingPool lib) databaseURL of
        Inl e \<Rightarrow> Inl e
      | Inr pool \<Rightarrow>
          if envBool (st_Lower lib) getenv ''PIXELGO_AUTO_MIGRATE'' True
          then (case postgres_Migrate (st_ExecSchema lib) pool of Inl e \<Rightarrow> Inl e | Inr _ \<Rightarrow> Inr (Some pool))
          else Inr (Some pool))"

definition start_redis :: "('p, 'r, 'k, 's) start_lib \<Rightarrow> environ \<Rightarrow> (string, 'r option) result" where
  "start_redis lib getenv =
     (let redisURL = getenv ''REDIS_URL'' in
      if redisURL = '''' then Inr None
      else case redis_Open (st_NewRedis lib) (st_PingRedis lib) redisURL of
        Inl e \<Rightarrow> Inl e
      | Inr client \<Rightarrow> Inr (Some client))"

definition start_files :: "('p, 'r, 'k, 's) start_lib \<Rightarrow> environ \<Rightarrow> (string, files_Service) result" where
  "start_files lib getenv =
     (let endpoint = getenv ''OBJECT_STORAGE_ENDPOINT'' in
      if endpoint = ''''
      then Inr (files_NewService (env getenv ''PIXELGO_PUBLIC_BASE_URL'' ''http://localhost:8080'')
        (env getenv ''PIXELGO_SIGNING_SECRET'' ''pixelgo-local-signing-secret-change-me'') (10 * minute))
      else NewS3Service (st_Minio lib)
        \<lparr>sc_Endpoint = endpoint, sc_Bucket = env getenv ''OBJECT_STORAGE_BUCKET'' ''pixelgo'',
         sc_AccessKey = getenv ''OBJECT_STORAGE_ACCESS_KEY'', sc_SecretKey = getenv ''OBJECT_STORAGE_SECRET_KEY'',
         sc_Region = env getenv ''OBJECT_STORAGE_REGION'' ''us-east-1'',
         sc_Prefix = env getenv ''OBJECT_STORAGE_PREFIX'' ''transfers'', sc_TTL = 10 * minute,
         sc_AutoCreate = envBool (st_Lower lib) getenv ''OBJECT_STORAGE_AUTO_CREATE'' False\<rparr>)"

text \<open>The start of main, up to listening: fatal with a message and an error, or the wiring.\<close>

definition main_start ::
  "('p, 'r, 'k, 's) start_lib \<Rightarrow> environ \<Rightarrow> (string \<times> string, ('p, 'r, 'k) wiring) result" where
  "main_start lib getenv =
     (let addr = env getenv ''PIXELGO_ADDR'' '':8080'';
          jwtSecret = env getenv ''PIXELGO_JWT_SECRET'' ''pixelgo-local-jwt-secret-change-me-32'';
          requireAuth = envBool (st_Lower lib) getenv ''PIXELGO_REQUIRE_AUTH'' False in
      if length jwtSecret < 32
      then Inl (''invalid configuration'', ''PIXELGO_JWT_SECRET must be at least 32 bytes'')
      else case start_postgres lib getenv of
        Inl e \<Rightarrow> Inl (''startup failed'', e)
      | Inr pool \<Rightarrow>
     (case start_redis lib getenv of
        Inl e \<Rightarrow> Inl (''startup failed'', e)
      | Inr client \<Rightarrow>
     (case start_files lib getenv of
        Inl e \<Rightarrow> Inl (''startup failed'', e)
      | Inr fileService \<Rightarrow>
     (case buildPushRouter (st_Lower lib) (st_Push lib) getenv of
        Inl e \<Rightarrow> Inl (''push configuration invalid'', e)
      | Inr router \<Rightarrow>
          Inr \<lparr>wi_addr = addr, wi_requireAuth = requireAuth, wi_jwtSecret = jwtSecret,
               wi_postgres = pool, wi_redis = client, wi_files = fileService,
               wi_checks = (if pool \<noteq> None then [''postgres''] else []) @
                 (if client \<noteq> None then [''redis''] else []) @
                 (if getenv ''OBJECT_STORAGE_ENDPOINT'' \<noteq> '''' then [''object_storage''] else []),
               wi_push = (if pool \<noteq> None \<and> Configured router then Some router else None)\<rparr>))))"

section \<open>The handler main serves\<close>

text \<open>
  The adapters main has picked, as the services use them; a Redis client is given by the commands it sends.
\<close>

record ('t, 'd, 'a, 'p, 'x, 'l, 'r) adapters =
  ad_auth :: "'a auth_repo"
  ad_devices :: "'d device_repo"
  ad_transfers :: "'t transfer_repo"
  ad_presence :: "'p presence_iface"
  ad_limiter :: "'l Limiter"
  ad_commands :: "'r \<Rightarrow> 'x redis"
  ad_jwt :: jwt_lib
  ad_mail :: mail_lib
  ad_urls :: url_lib
  ad_json :: json_lib
  ad_hub :: "http_request \<Rightarrow> writer_op list"
  ad_metrics :: "http_request \<Rightarrow> writer_op list"
  ad_readiness :: "http_request \<Rightarrow> writer_op list"

definition main_options ::
  "('t, 'd, 'a, 'p, 'x, 'l, 'r) adapters \<Rightarrow> ('pg, 'r, 'k) wiring \<Rightarrow> ('t, 'd, 'a, 'p, 'x, 'l) option_fun list" where
  "main_options ad w =
     (let authService = auth_NewService (ad_jwt ad) (ad_mail ad) (ad_auth ad) (wi_jwtSecret w) in
      (case wi_redis w of None \<Rightarrow> [] | Some client \<Rightarrow> [WithRedisIdempotency (ad_commands ad client)]) @
      [WithPresence (ad_presence ad), WithRateLimiter (ad_limiter ad), WithAuth authService (wi_requireAuth w),
       WithMetrics (ad_metrics ad), WithReadiness (ad_readiness ad)])"

definition main_server ::
  "('t, 'd, 'a, 'p, 'x, 'l, 'r) adapters \<Rightarrow> ('pg, 'r, 'k) wiring \<Rightarrow> ('t, 'd, 'a, 'p, 'x, 'l) Server" where
  "main_server ad w =
     new_server (ad_devices ad) (ad_transfers ad) (ad_hub ad) (ad_urls ad) (ad_json ad) (main_options ad w)"

record http_Server =
  hs_Addr :: string
  hs_ReadHeaderTimeout :: duration
  hs_IdleTimeout :: duration

definition main_http :: "('pg, 'r, 'k) wiring \<Rightarrow> http_Server" where
  "main_http w = \<lparr>hs_Addr = wi_addr w, hs_ReadHeaderTimeout = 5 * second, hs_IdleTimeout = 60 * second\<rparr>"

lemma main_server_fields:
  "sv_auth (main_server ad w) = Some (auth_NewService (ad_jwt ad) (ad_mail ad) (ad_auth ad) (wi_jwtSecret w))"
  "sv_authRequired (main_server ad w) = wi_requireAuth w"
  "sv_idempotencyRedis (main_server ad w) = map_option (ad_commands ad) (wi_redis w)"
  "sv_rateLimiter (main_server ad w) = Some (ad_limiter ad)"
  "sv_presence (main_server ad w) = Some (ad_presence ad)"
  "sv_transfers (main_server ad w) = ad_transfers ad" "sv_devices (main_server ad w) = ad_devices ad"
  by (cases "wi_redis w"; simp add: main_server_def new_server_def main_options_def WithRedisIdempotency_def
      WithPresence_def WithRateLimiter_def WithAuth_def WithMetrics_def WithReadiness_def Let_def)+

lemma main_start_auth:
  assumes "main_start lib getenv = Inr w"
  shows "wi_requireAuth w = envBool (st_Lower lib) getenv ''PIXELGO_REQUIRE_AUTH'' False"
    "wi_jwtSecret w = env getenv ''PIXELGO_JWT_SECRET'' ''pixelgo-local-jwt-secret-change-me-32''"
  using assms by (auto simp: main_start_def Let_def split: if_splits sum.splits)

section \<open>The end of main\<close>

text \<open>
  The end of main: what it does once a signal arrives or the listener returns, given whether the HTTP server
  drains in ten seconds and whether a running worker stops in three.
\<close>

datatype server_end = Signalled | ListenEnded | ListenFailed string

datatype stop_action = HubClose | HTTPShutdown | HTTPClose | CancelWorker | LogWorkerLate | Exit1 string

definition main_stop :: "server_end \<Rightarrow> bool \<Rightarrow> bool option \<Rightarrow> stop_action list" where
  "main_stop cause drains worker =
     (let workers = (case worker of
        None \<Rightarrow> []
      | Some stops \<Rightarrow> CancelWorker # (if stops then [] else [LogWorkerLate])) in
      case cause of
        Signalled \<Rightarrow> [HubClose, HTTPShutdown] @ (if drains then [] else [HTTPClose]) @ workers
      | ListenEnded \<Rightarrow> workers
      | ListenFailed e \<Rightarrow> [Exit1 e])"

section \<open>Properties\<close>

lemma NewS3Service_result:
  assumes "NewS3Service lib cfg = Inr s"
  shows "fs_s3 s \<noteq> None \<and> fs_ttl s = sc_TTL cfg \<and> fs_bucket s = sc_Bucket cfg \<and> sc_Bucket cfg \<noteq> '''' \<and>
    sc_AccessKey cfg \<noteq> '''' \<and> sc_SecretKey cfg \<noteq> ''''"
  using assms by (auto simp: NewS3Service_def Let_def split: if_splits option.splits sum.splits)

lemma start_postgres_result:
  assumes "start_postgres lib getenv = Inr pool"
  shows "case pool of None \<Rightarrow> getenv ''DATABASE_URL'' = ''''
    | Some p \<Rightarrow> st_NewPool lib (getenv ''DATABASE_URL'') = Inr p \<and> st_PingPool lib p = None"
  using assms by (auto simp: start_postgres_def postgres_Open_def Let_def split: if_splits option.splits sum.splits)

lemma start_redis_result:
  assumes "start_redis lib getenv = Inr client"
  shows "case client of None \<Rightarrow> getenv ''REDIS_URL'' = ''''
    | Some r \<Rightarrow> st_NewRedis lib (getenv ''REDIS_URL'') = Inr r \<and> st_PingRedis lib r = None"
  using assms by (auto simp: start_redis_def redis_Open_def Let_def split: if_splits option.splits sum.splits)

lemma start_files_result:
  assumes "start_files lib getenv = Inr s"
  shows "fs_ttl s = 10 * minute \<and> (files_IsLocal s \<longleftrightarrow> getenv ''OBJECT_STORAGE_ENDPOINT'' = '''')"
  using assms NewS3Service_result
  by (auto simp: start_files_def files_NewService_def files_IsLocal_def Let_def split: if_splits dest!: NewS3Service_result)

lemma buildPushRouter_result:
  assumes "buildPushRouter lower lib getenv = Inr router"
  shows "Configured router \<longleftrightarrow>
    TrimSpace (getenv ''APNS_PRIVATE_KEY_B64'') \<noteq> '''' \<or> TrimSpace (getenv ''FCM_SERVICE_ACCOUNT_JSON_B64'') \<noteq> ''''"
  using assms
  by (auto simp: buildPushRouter_def Configured_def Let_def map_sum_def split: if_splits option.splits sum.splits)


section \<open>A concrete start\<close>

definition demo_environ :: environ where
  "demo_environ = (\<lambda>k. if k = ''DATABASE_URL'' then ''postgres://db'' else '''')"

definition demo_start_lib :: "(string, unit, unit, unit) start_lib" where
  "demo_start_lib =
     \<lparr>st_Lower = ToLower, st_NewPool = (\<lambda>u. Inr u), st_PingPool = (\<lambda>p. None), st_ExecSchema = (\<lambda>p. None),
      st_NewRedis = (\<lambda>u. Inr ()), st_PingRedis = (\<lambda>r. None),
      st_Minio = \<lparr>mi_Parse = (\<lambda>u. None), mi_New = (\<lambda>h a s t r. Inl ''no storage''),
        mi_MakeBucket = (\<lambda>c b r. None), mi_Quote = id\<rparr>,
      st_Push = \<lparr>pl_Do = (\<lambda>r s. (Inl ''no network'', s)), pl_NewRequest = (\<lambda>u. None), pl_Now = (\<lambda>s. 0),
        pl_Sign = (\<lambda>a h c k. Inl ''no key''), pl_DecodePayload = (\<lambda>p. \<lparr>ep_TransferID = '''', ep_Kind = '''',
          ep_DisplayName = ''''\<rparr>), pl_PemDecode = (\<lambda>p. None), pl_ParsePKCS8 = (\<lambda>b. Inr OtherKey),
        pl_DecodeAccount = (\<lambda>b. Inl ''no account''), pl_DecodeOAuth = (\<lambda>b. Inl ''no answer''), pl_Quote = id\<rparr>\<rparr>"

lemma demo_environ_simps [simp]:
  "demo_environ ''DATABASE_URL'' = ''postgres://db''" "k \<noteq> ''DATABASE_URL'' \<Longrightarrow> demo_environ k = ''''"
  by (simp_all add: demo_environ_def)

lemma TrimSpace_empty [simp]: "TrimSpace '''' = ''''"
  by code_simp

lemma demo_start:
  "\<exists>w. main_start demo_start_lib demo_environ = Inr w \<and> wi_postgres w = Some ''postgres://db''"
proof -
  have "envBool ToLower demo_environ k b = b" if "k \<noteq> ''DATABASE_URL''" for k b
    using that by (simp add: envBool_def ToLower_def)
  then show ?thesis
    by (simp add: main_start_def start_postgres_def postgres_Open_def postgres_Migrate_def start_redis_def
        start_files_def buildPushRouter_def env_def demo_start_lib_def Let_def)
qed

definition demo_adapters ::
  "(transfer_items, device_items, auth_memory, presence_memory, keyspace, memory_windows, unit) adapters" where
  "demo_adapters =
     \<lparr>ad_auth = auth_memory_repo, ad_devices = device_memory, ad_transfers = memory_repo, ad_presence = memory_presence,
      ad_limiter = \<lparr>lm_Allow = (\<lambda>e. ml_Allow (he_now e) (he_now e))\<rparr>, ad_commands = (\<lambda>u. ks_redis),
      ad_jwt = as_jwt one_token_auth, ad_mail = as_mail one_token_auth, ad_urls = plain_urls, ad_json = demo_json,
      ad_hub = (\<lambda>r. [WriteHeader 101]), ad_metrics = metrics_Handler (\<lambda>c om m r. [WriteHeader 200]) NewMetrics,
      ad_readiness = (\<lambda>r. ReadinessHandler [] (2 * second) 0 None [])\<rparr>"


end
