(* ===== verification/LoadTest.thy ===== *)
theory LoadTest
  imports GoStrings Complex_Main "HOL-Library.Multiset"
begin

text \<open>
  The load test, \<^verbatim>\<open>loadtest/loadtest.go\<close> and its command \<^verbatim>\<open>cmd/loadtest/main.go\<close>: the report over the outcomes
  its workers deliver in any order, and the check of the target. Floating-point numbers are rationals here: the
  position of a quantile is the same, as no count up to 100000 times a hundredth is closer to a whole number
  than a hundredth without being one. Parsing a URL and the exchanges are parameters.
\<close>

section \<open>The report\<close>

record Report =
  lr_Requests :: int
  lr_Successful :: int
  lr_Failed :: int
  lr_TotalSeconds :: rat
  lr_RequestsPerSecond :: rat
  lr_P50LatencyMs :: rat
  lr_P95LatencyMs :: rat
  lr_P99LatencyMs :: rat

definition invalid_arguments :: "string \<Rightarrow> int \<Rightarrow> int \<Rightarrow> bool" where
  "invalid_arguments target requests concurrency \<longleftrightarrow>
     requests < 1 \<or> requests > 100000 \<or> concurrency < 1 \<or> concurrency > 256 \<or> target = ''''"

text \<open>One request: whether it was answered with a status of the 200s, None standing for an error.\<close>

definition request_ok :: "int option \<Rightarrow> bool" where
  "request_ok status = (case status of None \<Rightarrow> False | Some c \<Rightarrow> 200 \<le> c \<and> c < 300)"

definition latency_ms :: "int \<Rightarrow> rat" where
  "latency_ms microseconds = of_int microseconds / 1000"

definition quantile :: "rat list \<Rightarrow> rat \<Rightarrow> rat" where
  "quantile series p = series ! nat (\<lceil>of_nat (length series) * p\<rceil> - 1)"

text \<open>
  Run, given the time it took and what the workers sent on the two channels, in the order it arrived: one
  latency, in microseconds, and one outcome for each request.
\<close>

definition load_Run ::
  "string \<Rightarrow> int \<Rightarrow> int \<Rightarrow> rat \<Rightarrow> int list \<Rightarrow> int option list \<Rightarrow> (string, Report) result" where
  "load_Run target requests concurrency seconds latencies outcomes =
     (if invalid_arguments target requests concurrency then Inl ''invalid load-test arguments''
      else
        let series = sort (map latency_ms latencies); oks = map request_ok outcomes in
        Inr \<lparr>lr_Requests = requests,
             lr_Successful = int (length (filter (\<lambda>ok. ok) oks)), lr_Failed = int (length (filter Not oks)),
             lr_TotalSeconds = seconds, lr_RequestsPerSecond = of_int requests / seconds,
             lr_P50LatencyMs = quantile series (1 / 2), lr_P95LatencyMs = quantile series (95 / 100),
             lr_P99LatencyMs = quantile series (99 / 100)\<rparr>)"

section \<open>The command\<close>

record target_url =
  tu_Scheme :: string
  tu_Host :: string
  tu_Hostname :: string
  tu_User :: "string option"
  tu_Fragment :: string

definition validateTarget :: "(string \<Rightarrow> string) \<Rightarrow> (string \<Rightarrow> target_url option) \<Rightarrow> string \<Rightarrow> bool \<Rightarrow> string option" where
  "validateTarget lower parse raw allowRemote =
     (case parse raw of
        None \<Rightarrow> Some ''invalid HTTP(S) target''
      | Some u \<Rightarrow>
          if (tu_Scheme u \<noteq> ''http'' \<and> tu_Scheme u \<noteq> ''https'') \<or> tu_Host u = '''' \<or> tu_User u \<noteq> None \<or>
             tu_Fragment u \<noteq> ''''
          then Some ''invalid HTTP(S) target''
          else
            let host = lower (tu_Hostname u) in
            if \<not> allowRemote \<and> host \<noteq> ''127.0.0.1'' \<and> host \<noteq> ''::1'' \<and> host \<noteq> ''localhost''
            then Some ''remote load testing requires explicit -allow-remote on an authorized host''
            else None)"

text \<open>The exit status of the command, given what running the test comes to.\<close>

definition loadtest_exit ::
  "(string \<Rightarrow> string) \<Rightarrow> (string \<Rightarrow> target_url option) \<Rightarrow> string \<Rightarrow> bool \<Rightarrow> duration \<Rightarrow> (string, Report) result \<Rightarrow> int" where
  "loadtest_exit lower parse target allowRemote timeout run =
     (if validateTarget lower parse target allowRemote \<noteq> None then 2
      else if timeout \<le> 0 \<or> timeout > 60 * second then 2
      else case run of Inl e \<Rightarrow> 2 | Inr report \<Rightarrow> if lr_Failed report > 0 then 1 else 0)"

section \<open>Properties\<close>

lemma quantile_index:
  assumes "0 < n" and "0 < p" and "p \<le> (1 :: rat)"
  shows "nat (\<lceil>of_nat n * p\<rceil> - 1) < n"
proof -
  have "of_nat n * p \<le> of_nat n" using assms by (simp add: mult_left_le)
  then have "\<lceil>of_nat n * p\<rceil> \<le> int n" by (simp add: ceiling_le_iff)
  moreover have "0 < \<lceil>of_nat n * p\<rceil>" using assms by simp
  ultimately show ?thesis using assms(1) by linarith
qed

lemma quantile_in_series:
  assumes "series \<noteq> []" and "0 < p" and "p \<le> 1"
  shows "quantile series p \<in> set series"
  using quantile_index [of "length series" p] assms by (simp add: quantile_def)

lemma quantile_mono:
  assumes "sorted series" and "series \<noteq> []" and "0 < p" and "p \<le> q" and "q \<le> 1"
  shows "quantile series p \<le> quantile series q"
proof -
  have "of_nat (length series) * p \<le> of_nat (length series) * q" using assms by (simp add: mult_left_mono)
  then have "\<lceil>of_nat (length series) * p\<rceil> \<le> \<lceil>of_nat (length series) * q\<rceil>" by (rule ceiling_mono)
  then have "nat (\<lceil>of_nat (length series) * p\<rceil> - 1) \<le> nat (\<lceil>of_nat (length series) * q\<rceil> - 1)" by linarith
  moreover have "nat (\<lceil>of_nat (length series) * q\<rceil> - 1) < length series"
    using quantile_index [of "length series" q] assms by simp
  ultimately show ?thesis using assms(1) by (simp add: quantile_def sorted_nth_mono)
qed

text \<open>
  The report does not depend on the order in which the workers finish; its counts add up, and its quantiles are
  measured latencies in ascending order.
\<close>

lemma load_report_order:
  assumes "mset ls = mset ls'" and "mset os = mset os'"
  shows "load_Run target n c t ls os = load_Run target n c t ls' os'"
proof -
  have "mset (map latency_ms ls) = mset (map latency_ms ls')" using assms(1) by simp
  then have "sort (map latency_ms ls) = sort (map latency_ms ls')" by (metis properties_for_sort mset_sort sorted_sort)
  moreover have "mset (map request_ok os) = mset (map request_ok os')" using assms(2) by simp
  then have "length (filter P (map request_ok os)) = length (filter P (map request_ok os'))" for P
    by (metis mset_filter size_mset)
  ultimately show ?thesis by (simp add: load_Run_def Let_def)
qed

lemma load_report_sound:
  assumes "load_Run target n c t ls os = Inr r" and "int (length ls) = n" and "int (length os) = n"
  shows "lr_Successful r + lr_Failed r = n \<and> lr_P50LatencyMs r \<in> set (map latency_ms ls) \<and>
    lr_P50LatencyMs r \<le> lr_P95LatencyMs r \<and> lr_P95LatencyMs r \<le> lr_P99LatencyMs r"
proof -
  from assms have n: "1 \<le> n" by (auto simp: load_Run_def invalid_arguments_def split: if_splits)
  let ?s = "sort (map latency_ms ls)"
  have "0 < length ?s" using n assms(2) by (cases ls) simp_all
  then have ne: "?s \<noteq> []" by blast
  have r: "lr_P50LatencyMs r = quantile ?s (1 / 2)" "lr_P95LatencyMs r = quantile ?s (95 / 100)"
    "lr_P99LatencyMs r = quantile ?s (99 / 100)"
    "lr_Successful r = int (length (filter (\<lambda>ok. ok) (map request_ok os)))"
    "lr_Failed r = int (length (filter Not (map request_ok os)))"
    using assms(1) by (auto simp: load_Run_def Let_def split: if_splits)
  have "length (filter (\<lambda>ok. ok) oks) + length (filter Not oks) = length oks" for oks
    by (rule sum_length_filter_compl)
  from this [of "map request_ok os"] assms(3) have "lr_Successful r + lr_Failed r = n" unfolding r by simp
  moreover have "quantile ?s (1 / 2) \<in> set ?s" by (rule quantile_in_series [OF ne]) simp_all
  moreover have "quantile ?s (1 / 2) \<le> quantile ?s (95 / 100)" "quantile ?s (95 / 100) \<le> quantile ?s (99 / 100)"
    by (rule quantile_mono [OF _ ne]; simp)+
  ultimately show ?thesis unfolding r by simp
qed

end
