(* ===== verification/Spec2Isabelle.thy ===== *)
theory Spec2Isabelle
  imports TransferConcurrency TransferProps DeviceProps FileProps AuthProps
    IdempotencyProps RateLimitProps Presence HandlerProps
    PayloadProps ObservabilityProps IdempotencyLimits RedisIdempotencyProps HubProps DeliveryProps
    PgLife PgRotation PgSessions ServerStack Startup LoadTest
begin

text \<open>
  Verification of the PixelGo server.

  PixelGo hands files, photos, links and texts from one of a user's devices to another. The server, the Go module
  under \<^verbatim>\<open>src/server\<close>, keeps accounts, devices and transfers, signs URLs for the payloads, tells connected devices
  over websockets what happens, and notifies the others through APNs and FCM. This library models the server and
  proves what its parts promise each other and its clients.

  \<^bold>\<open>The program and its theories.\<close> A request passes the observability middleware, bearer authentication,
  the idempotency middleware, the rate limiter and the route table, in that order, and reaches a handler, which calls
  the services over their repositories. Each group below names the code and the theories, in the order they build on
  each other; a definition has the name of the Go function or type it models, with a prefix where several packages
  use one name.

  \<^item> Go itself: byte strings, time, results and the request context (Prelude, which models \<^verbatim>\<open>auth/context.go\<close>);
    strings, hex, base64 and decimal numbers (GoStrings, GoEncoding, GoBase64); SHA-256, HMAC and PBKDF2 (GoCrypto,
    with an evaluator in CryptoVectors); requests, headers and response writers (Http).
  \<^item> \<^verbatim>\<open>internal/transfers\<close>: data, errors and the repository contract (TransferModel), the in-memory repository
    (TransferMemory), the service (TransferService); what a call does to the abstract table (TransferLemmas), sequences
    of calls (TransferLifecycle, TransferProps), and requests interleaved between their reads and writes
    (TransferConcurrency).
  \<^item> \<^verbatim>\<open>internal/devices\<close>: Devices with its contract and both the service and the in-memory repository; DeviceProps.
  \<^item> \<^verbatim>\<open>internal/files\<close>: the payload store with its signed URLs and the object-storage adapter (Files, FileProps).
  \<^item> \<^verbatim>\<open>internal/auth\<close>: password hashing (Password), users and rotating refresh tokens with their contract and the
    in-memory repository (AuthStore), the service (AuthService), its sessions (AuthSessions) and properties (AuthProps,
    over the concrete session of AuthDemo).
  \<^item> \<^verbatim>\<open>internal/ratelimit\<close> and \<^verbatim>\<open>internal/presence\<close>: both limiters and both presence stores over one contract each
    (RateLimit, RateLimitProps, Presence), Redis being the documented server of Redis.
  \<^item> \<^verbatim>\<open>internal/httpapi\<close>: the idempotency middleware in memory (Idempotency, its invariant in IdempotencyInv,
    IdempotencyProps, IdempotencyLimits) and over Redis (RedisIdempotency, RedisIdempotencyProps), authentication and
    rate limiting (Middleware), the server, its handlers and options (Handlers), routing (Routes), what requests do
    (HandlerProps, PayloadProps), and the handler New composes of all layers (ServerStack).
  \<^item> \<^verbatim>\<open>internal/realtime\<close>: the hub and the Redis broker, any number of replicas (Hub, HubProps).
  \<^item> \<^verbatim>\<open>internal/notifications\<close>: the providers (Providers), the worker (Worker), the outbox and its statements (Outbox),
    the worker's loop (NotificationProps), claims by several workers (OutboxClaims), deliveries (DeliveryProps).
  \<^item> The PostgreSQL repositories: tables, constraints and exchanges (Postgres), transfers (PgTransfers, PgTransferProps),
    devices (PgDevices, PgDeviceProps), accounts (PgAuth, PgAuthProps); histories of calls on one database (PgHistory, PgLife),
    concurrent rotation transactions (PgRotation), and sessions call after call (PgSessions). The tables and the trigger are those of
    \<^verbatim>\<open>platform/postgresdb/schema.sql\<close>.
  \<^item> \<^verbatim>\<open>internal/observability\<close>: the middleware, its metrics and route labels, readiness (Observability,
    ObservabilityProps).
  \<^item> \<^verbatim>\<open>cmd/api\<close> and \<^verbatim>\<open>internal/platform\<close>: from the environment to the adapters and the server over them, and
    the stop (Startup);
    \<^verbatim>\<open>internal/loadtest\<close> with its command (LoadTest).

  \<^bold>\<open>How code is modelled.\<close> A string or byte slice is a char list, an instant a whole number of nanoseconds (of
  milliseconds on Redis' clock), an error a value: an operation yields \<^verbatim>\<open>Inl\<close> an error or \<^verbatim>\<open>Inr\<close> a result, together
  with the state it leaves. Random bytes, the time, failures of exchanges and the iteration order of maps are
  arguments, so a theorem holds for all of them. Machine integers wrap where the code computes with them (the
  window counters, the expiry computed from an OAuth answer, SHA-256). An interface of the code is a record of
  functions, and what its users rely on is a locale: transfer_store, device_store, auth_store, fixed_window_limiter,
  presence_store, redis_server, pubsub_server, push_outbox, with api_server over three of them. Each is interpreted
  on the models that implement it, the in-memory and the PostgreSQL or Redis one; properties rest on these
  interpretations.

  \<^bold>\<open>What is proved.\<close>
  \<^item> Transfers move forward through their life and keep owner and identity, become ready only with the payload that
    was promised, are delivered end to end, and answer each user from that user's transfers only. Interleaved requests
    never reopen a verified upload, but a retried MarkUploaded can put a completed transfer back to ready.
  \<^item> A refresh token works once, reuse ends its session, and no family has two usable tokens, in memory and under any
    interleaving of the transactions over PostgreSQL. There, detected reuse still ends the session under sequential
    calls, whatever exchanges are lost, but can miss a concurrent rotation. Access
    tokens and accounts round-trip. Paths that are not public need a valid bearer token.
  \<^item> Signed URLs admit one action on one transfer until they expire; the payload uploaded is the payload downloaded.
  \<^item> A request with an idempotency key runs once until the entry expires, with the exceptions the theorems name
    (a server error in memory; over Redis the end of the lock, and the retry that looked before the result was there);
    replays are the recorded answers. A handler that panics blocks its key for good. Over the whole
    handler, a stored answer only reaches the user it was given to.
  \<^item> Limiters bound the calls of any interval of a window by twice the limit; presence follows announcements; events
    reach their addressees and nobody else over any number of replicas.
  \<^item> The push loop returns, two workers never hold one notification at once within the lease, and every delivery ends
    as the retry policy says; an accepted upload queues exactly one notification.
  \<^item> The PostgreSQL repositories refine the abstract stores. A device that took part in a transfer is never deleted.
  \<^item> Failed requests change nothing; the observability middleware is transparent but for the request id; a server that
    starts is the one its environment describes.

  \<^bold>\<open>Bounds.\<close> No definition runs on fuel. The drain of the push worker, a loop with no bound in the code, is a partial
  function whose result is proved to exist under the contract of its outbox. The PostgreSQL contracts are stated for
  whole microseconds, which is what the database keeps (a transfer just created still answers with nanoseconds), for
  user ids in the canonical form the database hands out, and for surroundings in which a lost reply means a lost
  request; PgRotation allows lost replies and aborts anywhere.

  \<^bold>\<open>Parameters.\<close> Code outside the repository: the JWT library, address parsing, Unicode case tables, JSON texts, URL
  parsing and printing, PEM and key parsing, signing, HTTP round trips, the object-storage client, the websocket
  library, Redis (as documented) and what PostgreSQL computes (uuids, accepted texts, JSON payloads). The row locks
  and the visibility rules of read committed are modelled as PostgreSQL documents them.

  \<^bold>\<open>Not modelled.\<close> The text of JSON documents; redirects of http.ServeMux for paths that are not clean; what the
  metrics library computes from the registered metrics; the HTTP listener and the log lines of main; the migration text beyond the
  tables, constraints and trigger used; and the mobile clients, which are separate programs.
\<close>

end
